theory Spec2Isabelle
  imports Main "HOL-Library.Word" "HOL-Library.Signed_Division"
begin

unbundle bit_operations_syntax

section \<open>The instruction codec (pkg/code/code.go)\<close>

text \<open>
  \<open>Instructions\<close> is a byte slice and \<open>Opcode\<close> a byte. Go's \<open>int\<close> operands are
  modelled as unbounded integers: the only conversion applied to them is \<open>uint16(o)\<close>,
  which is reduction modulo \<open>2 ^ 16\<close> (\<open>word_of_int\<close>).
\<close>

type_synonym byte = "8 word"
type_synonym Instructions = "byte list"
type_synonym Opcode = byte

record Definition =
  Name :: string
  OperandWidths :: "nat list"

definition OpNull :: Opcode where "OpNull = 0"
definition OpConstant :: Opcode where "OpConstant = 1"
definition OpPop :: Opcode where "OpPop = 2"
definition OpJump :: Opcode where "OpJump = 3"
definition OpJumpNotTruthy :: Opcode where "OpJumpNotTruthy = 4"
definition OpTrue :: Opcode where "OpTrue = 5"
definition OpFalse :: Opcode where "OpFalse = 6"
definition OpBang :: Opcode where "OpBang = 7"
definition OpMinus :: Opcode where "OpMinus = 8"
definition OpAdd :: Opcode where "OpAdd = 9"
definition OpSub :: Opcode where "OpSub = 10"
definition OpMul :: Opcode where "OpMul = 11"
definition OpDiv :: Opcode where "OpDiv = 12"
definition OpEqual :: Opcode where "OpEqual = 13"
definition OpNotEqual :: Opcode where "OpNotEqual = 14"
definition OpLessThan :: Opcode where "OpLessThan = 15"
definition OpGreaterThan :: Opcode where "OpGreaterThan = 16"
definition OpGetGlobal :: Opcode where "OpGetGlobal = 17"
definition OpSetGlobal :: Opcode where "OpSetGlobal = 18"
definition OpArray :: Opcode where "OpArray = 19"

lemmas opcode_defs =
  OpNull_def OpConstant_def OpPop_def OpJump_def OpJumpNotTruthy_def OpTrue_def
  OpFalse_def OpBang_def OpMinus_def OpAdd_def OpSub_def OpMul_def OpDiv_def
  OpEqual_def OpNotEqual_def OpLessThan_def OpGreaterThan_def OpGetGlobal_def
  OpSetGlobal_def OpArray_def

text \<open>The map \<open>definitions\<close>; \<open>None\<close> is the \<open>ok = false\<close> of a failed map lookup.\<close>

definition definitions :: "Opcode \<Rightarrow> Definition option" where
  "definitions op =
    (if op = OpNull then Some \<lparr>Name = ''OpNull'', OperandWidths = []\<rparr>
     else if op = OpConstant then Some \<lparr>Name = ''OpConstant'', OperandWidths = [2]\<rparr>
     else if op = OpPop then Some \<lparr>Name = ''OpPop'', OperandWidths = []\<rparr>
     else if op = OpJump then Some \<lparr>Name = ''OpJump'', OperandWidths = [2]\<rparr>
     else if op = OpJumpNotTruthy then Some \<lparr>Name = ''OpJumpNotTruthy'', OperandWidths = [2]\<rparr>
     else if op = OpBang then Some \<lparr>Name = ''OpBang'', OperandWidths = []\<rparr>
     else if op = OpMinus then Some \<lparr>Name = ''OpMinus'', OperandWidths = []\<rparr>
     else if op = OpTrue then Some \<lparr>Name = ''OpTrue'', OperandWidths = []\<rparr>
     else if op = OpFalse then Some \<lparr>Name = ''OpFalse'', OperandWidths = []\<rparr>
     else if op = OpAdd then Some \<lparr>Name = ''OpAdd'', OperandWidths = []\<rparr>
     else if op = OpSub then Some \<lparr>Name = ''OpSub'', OperandWidths = []\<rparr>
     else if op = OpMul then Some \<lparr>Name = ''OpMul'', OperandWidths = []\<rparr>
     else if op = OpDiv then Some \<lparr>Name = ''OpDiv'', OperandWidths = []\<rparr>
     else if op = OpEqual then Some \<lparr>Name = ''OpEqual'', OperandWidths = []\<rparr>
     else if op = OpNotEqual then Some \<lparr>Name = ''OpNotEqual'', OperandWidths = []\<rparr>
     else if op = OpLessThan then Some \<lparr>Name = ''OpLessThan'', OperandWidths = []\<rparr>
     else if op = OpGreaterThan then Some \<lparr>Name = ''OpGreaterThan'', OperandWidths = []\<rparr>
     else if op = OpGetGlobal then Some \<lparr>Name = ''OpGetGlobal'', OperandWidths = [2]\<rparr>
     else if op = OpSetGlobal then Some \<lparr>Name = ''OpSetGlobal'', OperandWidths = [2]\<rparr>
     else if op = OpArray then Some \<lparr>Name = ''OpArray'', OperandWidths = [2]\<rparr>
     else None)"

text \<open>Decimal rendering of a non-negative number, as \<open>%d\<close> prints it.\<close>

definition digit :: "nat \<Rightarrow> char" where
  "digit d = ''0123456789'' ! d"

fun showNat :: "nat \<Rightarrow> string" where
  "showNat n = (if n < 10 then [digit n] else showNat (n div 10) @ [digit (n mod 10)])"

declare showNat.simps [simp del]

text \<open>\<open>%d\<close> on a Go \<open>int\<close>.\<close>

definition showInt :: "int \<Rightarrow> string" where
  "showInt i = (if i < 0 then CHR ''-'' # showNat (nat (- i)) else showNat (nat i))"

text \<open>\<open>%04d\<close> on a non-negative number: zero-padded to at least four digits.\<close>

definition showNat04 :: "nat \<Rightarrow> string" where
  "showNat04 n = replicate (4 - length (showNat n)) CHR ''0'' @ showNat n"

text \<open>\<open>Lookup\<close>: the definition, or the error text \<open>opcode %d undefined\<close>.\<close>

definition Lookup :: "byte \<Rightarrow> string + Definition" where
  "Lookup op =
    (case definitions op of
       Some def \<Rightarrow> Inr def
     | None \<Rightarrow> Inl (''opcode '' @ showNat (unat op) @ '' undefined''))"

text \<open>\<open>binary.BigEndian.PutUint16\<close> and \<open>binary.BigEndian.Uint16\<close>.\<close>

definition PutUint16 :: "16 word \<Rightarrow> byte list" where
  "PutUint16 v = [ucast (drop_bit 8 v), ucast v]"

text \<open>
  \<open>ReadUint16\<close> reads the first two bytes of the slice; on a slice shorter than two bytes
  the bounds check of \<open>Uint16\<close> panics (\<open>None\<close>).
\<close>

fun ReadUint16 :: "Instructions \<Rightarrow> 16 word option" where
  "ReadUint16 (b0 # b1 # rest) = Some (push_bit 8 (ucast b0) OR ucast b1)"
| "ReadUint16 _ = None"

text \<open>
  The operand loop of \<open>Make\<close>: operand \<open>i\<close> is written at the running offset with the
  width \<open>def.OperandWidths[i]\<close>; a width other than 2 writes nothing and leaves the zero
  bytes of \<open>make\<close>. An operand without a declared width indexes \<open>OperandWidths\<close> out
  of range, a run-time panic (\<open>None\<close>). Widths left over after the last operand keep
  their zero bytes.
\<close>

fun encodeOperands :: "nat list \<Rightarrow> int list \<Rightarrow> byte list option" where
  "encodeOperands ws [] = Some (replicate (sum_list ws) 0)"
| "encodeOperands [] (o1 # os) = None"
| "encodeOperands (w # ws) (o1 # os) =
    (case encodeOperands ws os of
       None \<Rightarrow> None
     | Some rest \<Rightarrow>
         Some ((if w = 2 then PutUint16 (word_of_int o1) else replicate w 0) @ rest))"

text \<open>
  \<open>Make\<close>: the empty slice for an opcode without a definition, otherwise the opcode byte
  followed by the operand fields. The outer \<open>option\<close> is the panic of the operand loop.
\<close>

definition Make :: "Opcode \<Rightarrow> int list \<Rightarrow> byte list option" where
  "Make op operands =
    (case definitions op of
       None \<Rightarrow> Some []
     | Some def \<Rightarrow>
        (case encodeOperands (OperandWidths def) operands of
           None \<Rightarrow> None
         | Some bs \<Rightarrow> Some (op # bs)))"

text \<open>
  The loop of \<open>ReadOperands\<close>, at offset \<open>off\<close> of \<open>ins\<close>: a width of 2 reads
  \<open>ins[offset:]\<close> (a panic when fewer than two bytes are left), any other width leaves the
  operand 0.
\<close>

fun readOperandsFrom :: "nat list \<Rightarrow> Instructions \<Rightarrow> nat \<Rightarrow> (int list \<times> nat) option" where
  "readOperandsFrom [] ins off = Some ([], off)"
| "readOperandsFrom (w # ws) ins off =
    (if w = 2 then
       (if off \<le> length ins then
          (case ReadUint16 (drop off ins) of
             None \<Rightarrow> None
           | Some v \<Rightarrow>
              (case readOperandsFrom ws ins (off + w) of
                 None \<Rightarrow> None
               | Some (operands, n) \<Rightarrow> Some (uint v # operands, n)))
        else None)
     else
       (case readOperandsFrom ws ins (off + w) of
          None \<Rightarrow> None
        | Some (operands, n) \<Rightarrow> Some (0 # operands, n)))"

definition ReadOperands :: "Definition \<Rightarrow> Instructions \<Rightarrow> (int list \<times> nat) option" where
  "ReadOperands def ins = readOperandsFrom (OperandWidths def) ins 0"

text \<open>A Go call either returns a value or panics.\<close>

datatype 'a go = Returns 'a | Panics

text \<open>\<open>fmtInstruction\<close>; \<open>CHR 0x0A\<close> is the newline of the format strings.\<close>

definition fmtInstruction :: "Definition \<Rightarrow> int list \<Rightarrow> string" where
  "fmtInstruction def operands =
    (let operandCount = length (OperandWidths def) in
     if length operands \<noteq> operandCount then
       ''ERROR: operand len '' @ showNat (length operands) @ '' does not match defined ''
         @ showNat operandCount @ [CHR 0x0A]
     else if operandCount = 0 then Name def
     else if operandCount = 1 then Name def @ '' '' @ showInt (operands ! 0)
     else ''ERROR: unhandled operandCount for '' @ Name def @ [CHR 0x0A])"

text \<open>
  The loop of \<open>Instructions.String\<close>, with the index \<open>i\<close> and the buffer \<open>out\<close> as
  loop state. The branch of the failed \<open>Lookup\<close> writes the error line and continues
  with the same \<open>i\<close>, as the \<open>continue\<close> of the source does. The loop may run forever:
  \<open>None\<close> is "does not return", \<open>Some Panics\<close> is the panic of \<open>ReadOperands\<close> on a
  truncated operand.
\<close>

partial_function (option) String_loop :: "Instructions \<Rightarrow> nat \<Rightarrow> string \<Rightarrow> string go option" where
  "String_loop ins i out =
    (if i < length ins then
       (case Lookup (ins ! i) of
          Inl err \<Rightarrow> String_loop ins i (out @ ''ERROR: '' @ err @ [CHR 0x0A])
        | Inr def \<Rightarrow>
           (case ReadOperands def (drop (i + 1) ins) of
              None \<Rightarrow> Some Panics
            | Some (operands, read) \<Rightarrow>
                String_loop ins (i + 1 + read)
                  (out @ showNat04 i @ '' '' @ fmtInstruction def operands @ [CHR 0x0A])))
     else Some (Returns out))"

definition Instructions_String :: "Instructions \<Rightarrow> string go option" where
  "Instructions_String ins = String_loop ins 0 []"

text \<open>An operand value fits a field of \<open>w\<close> bytes.\<close>

definition fits :: "nat \<Rightarrow> int \<Rightarrow> bool" where
  "fits w v \<longleftrightarrow> 0 \<le> v \<and> v < 2 ^ (8 * w)"

section \<open>Outcomes of calls\<close>

text \<open>
  A method of the compiler or of the VM works on the state it receives by pointer. It
  returns normally (\<open>Ok\<close>, with its result and the state), returns a non-nil
  \<open>error\<close> (\<open>Err\<close>, with the state as it is at that point), or panics in the Go
  runtime (\<open>Panic\<close>: an index out of range, a nil dereference, a division by zero).
\<close>

datatype ('e, 'a, 's) result = Ok 'a 's | Err 'e 's | Panic

definition bind :: "('e, 'a, 's) result \<Rightarrow> ('a \<Rightarrow> 's \<Rightarrow> ('e, 'b, 's) result) \<Rightarrow> ('e, 'b, 's) result" where
  "bind r f = (case r of Ok a s \<Rightarrow> f a s | Err e s \<Rightarrow> Err e s | Panic \<Rightarrow> Panic)"

lemma bind_cong [fundef_cong]:
  "r = r' \<Longrightarrow> (\<And>a s. r' = Ok a s \<Longrightarrow> f a s = f' a s) \<Longrightarrow> bind r f = bind r' f'"
  by (simp add: bind_def split: result.splits)

section \<open>Runtime objects (package object of the interpreter repository)\<close>

text \<open>
  An \<open>object.Object\<close> is an interface value: \<open>nil\<close> (\<open>None\<close>) or a pointer to an
  allocated object (\<open>Some\<close> of its address). The comparison \<open>left == right\<close> of two
  such values is the comparison of the pointers, so the model keeps the allocated objects
  in a heap, a list indexed by address; an allocation appends to it. Objects are never
  modified after their construction.
\<close>

type_synonym ref = nat
type_synonym Object = "ref option"

datatype ObjectType = INTEGER_OBJ | BOOLEAN_OBJ | STRING_OBJ | NULL_OBJ | ARRAY_OBJ | HASH_OBJ

text \<open>
  The pairs of a \<open>Hash\<close> are kept as the sequence of insertions (key, value), oldest
  first; the \<open>HashKey\<close> under which the map of the source files each of them is computed
  by the object package.
\<close>

datatype objdata =
    IntegerObj "64 word"
  | BooleanObj bool
  | StringObj string
  | NullObj
  | ArrayObj "Object list"
  | HashObj "(Object \<times> Object) list"

type_synonym heap = "objdata list"

definition alloc :: "objdata \<Rightarrow> heap \<Rightarrow> Object \<times> heap" where
  "alloc d h = (Some (length h), h @ [d])"

fun typeOfData :: "objdata \<Rightarrow> ObjectType" where
  "typeOfData (IntegerObj v) = INTEGER_OBJ"
| "typeOfData (BooleanObj b) = BOOLEAN_OBJ"
| "typeOfData (StringObj s) = STRING_OBJ"
| "typeOfData NullObj = NULL_OBJ"
| "typeOfData (ArrayObj es) = ARRAY_OBJ"
| "typeOfData (HashObj ps) = HASH_OBJ"

text \<open>The object behind an interface value; \<open>None\<close> for \<open>nil\<close>.\<close>

definition deref :: "heap \<Rightarrow> Object \<Rightarrow> objdata option" where
  "deref h obj = (case obj of None \<Rightarrow> None | Some r \<Rightarrow> if r < length h then Some (h ! r) else None)"

text \<open>\<open>obj.Type()\<close>: a method call on a nil interface value panics (\<open>None\<close>).\<close>

definition Type :: "heap \<Rightarrow> Object \<Rightarrow> ObjectType option" where
  "Type h obj = map_option typeOfData (deref h obj)"

text \<open>The names of the type tags, as \<open>%s\<close> prints them.\<close>

fun typeName :: "ObjectType \<Rightarrow> string" where
  "typeName INTEGER_OBJ = ''INTEGER''"
| "typeName BOOLEAN_OBJ = ''BOOLEAN''"
| "typeName STRING_OBJ = ''STRING''"
| "typeName NULL_OBJ = ''NULL''"
| "typeName ARRAY_OBJ = ''ARRAY''"
| "typeName HASH_OBJ = ''HASH''"

text \<open>
  The package-level variables \<open>True\<close>, \<open>False\<close> and \<open>Null\<close> of package vm are
  allocated once, when the program starts: they are the first three objects of every heap.
\<close>

definition vm_True :: Object where "vm_True = Some 0"
definition vm_False :: Object where "vm_False = Some 1"
definition vm_Null :: Object where "vm_Null = Some 2"

definition initial_heap :: heap where
  "initial_heap = [BooleanObj True, BooleanObj False, NullObj]"

section \<open>The abstract syntax tree (package ast of the interpreter repository)\<close>

text \<open>
  The node kinds the compiler receives. The consequence and the alternative of an
  \<open>IfExpression\<close> are block statements, the alternative may be \<open>nil\<close>. The name of a
  \<open>LetStatement\<close> is the \<open>Value\<close> of its identifier.
\<close>

datatype Expression =
    Identifier string
  | IntegerLiteral "64 word"
  | StringLiteral string
  | Boolean bool
  | PrefixExpression string Expression
  | InfixExpression Expression string Expression
  | IfExpression Expression "Statement list" "Statement list option"
  | ArrayLiteral "Expression list"
  | HashLiteral "(Expression \<times> Expression) list"
and Statement =
    ExpressionStatement Expression
  | LetStatement string Expression
  | ReturnStatement Expression

datatype Node =
    Program "Statement list"
  | BlockStatement "Statement list"
  | StatementNode Statement
  | ExpressionNode Expression

section \<open>The symbol table\<close>

record Symbol =
  Symbol_Name :: string
  Index :: nat

text \<open>
  Modelled from the spec: the file of the symbol table is not among the sources; the
  compiler calls \<open>NewSymbolTable\<close>, \<open>Define\<close> and \<open>Resolve\<close>. A single global scope;
  \<open>Define\<close> assigns the next unused index, in definition order, and replaces any prior
  entry of the name; \<open>Resolve\<close> is a pure lookup.
\<close>

record SymbolTable =
  store :: "string \<rightharpoonup> Symbol"
  numDefinitions :: nat

definition NewSymbolTable :: SymbolTable where
  "NewSymbolTable = \<lparr>store = Map.empty, numDefinitions = 0\<rparr>"

definition Define :: "string \<Rightarrow> SymbolTable \<Rightarrow> Symbol \<times> SymbolTable" where
  "Define name s =
    (let symbol = \<lparr>Symbol_Name = name, Index = numDefinitions s\<rparr>
     in (symbol, s\<lparr>store := (store s)(name \<mapsto> symbol), numDefinitions := numDefinitions s + 1\<rparr>))"

definition Resolve :: "string \<Rightarrow> SymbolTable \<Rightarrow> Symbol option" where
  "Resolve name s = store s name"

section \<open>The compiler\<close>

record EmittedInstruction =
  OpCode :: Opcode
  Position :: nat

text \<open>
  The struct \<open>Compiler\<close>, and with it the heap of the objects allocated so far (the
  compiler allocates the constants).
\<close>

record Compiler =
  instructions :: Instructions
  constants :: "Object list"
  lastInstruction :: EmittedInstruction
  previousInstruction :: EmittedInstruction
  symbolTable :: SymbolTable
  heap :: heap

record Bytecode =
  Instructions :: Instructions
  Constants :: "Object list"

datatype CompileError =
    ErrUnknownOperator string
  | ErrUnknownPrefixOperator string
  | ErrUndefinedIdentifier string
  | ErrUnsupportedNode Node

text \<open>The texts of the errors, as \<open>fmt.Errorf\<close> builds them (the rendering of a node
  by \<open>%T (%+v)\<close> is left out).\<close>

fun CompileError_text :: "CompileError \<Rightarrow> string" where
  "CompileError_text (ErrUnknownOperator op) = ''unknown operator '' @ op"
| "CompileError_text (ErrUnknownPrefixOperator op) = ''unknown prefix operator '' @ op"
| "CompileError_text (ErrUndefinedIdentifier name) = ''undefined identifier '' @ name"
| "CompileError_text (ErrUnsupportedNode node) = ''unsupported node encountered''"

type_synonym 'a compiling = "(CompileError, 'a, Compiler) result"

text \<open>The zero value \<open>EmittedInstruction{}\<close>.\<close>

definition EmittedInstruction_zero :: EmittedInstruction where
  "EmittedInstruction_zero = \<lparr>OpCode = 0, Position = 0\<rparr>"

definition compiler_NewWithState :: "SymbolTable \<Rightarrow> Object list \<Rightarrow> heap \<Rightarrow> Compiler" where
  "compiler_NewWithState symtab consts h =
    \<lparr>instructions = [], constants = consts,
     lastInstruction = EmittedInstruction_zero, previousInstruction = EmittedInstruction_zero,
     symbolTable = symtab, heap = h\<rparr>"

definition compiler_New :: "heap \<Rightarrow> Compiler" where
  "compiler_New h =
    \<lparr>instructions = [], constants = [],
     lastInstruction = EmittedInstruction_zero, previousInstruction = EmittedInstruction_zero,
     symbolTable = NewSymbolTable, heap = h\<rparr>"

definition compiler_Bytecode :: "Compiler \<Rightarrow> Bytecode" where
  "compiler_Bytecode c = \<lparr>Instructions = instructions c, Constants = constants c\<rparr>"

definition addConstant :: "Object \<Rightarrow> Compiler \<Rightarrow> nat \<times> Compiler" where
  "addConstant obj c = (length (constants c), c\<lparr>constants := constants c @ [obj]\<rparr>)"

definition addInstruction :: "byte list \<Rightarrow> Compiler \<Rightarrow> nat \<times> Compiler" where
  "addInstruction ins c = (length (instructions c), c\<lparr>instructions := instructions c @ ins\<rparr>)"

definition setLastInstruction :: "Opcode \<Rightarrow> nat \<Rightarrow> Compiler \<Rightarrow> Compiler" where
  "setLastInstruction op pos c =
    c\<lparr>previousInstruction := lastInstruction c,
      lastInstruction := \<lparr>OpCode = op, Position = pos\<rparr>\<rparr>"

definition emit :: "Opcode \<Rightarrow> int list \<Rightarrow> Compiler \<Rightarrow> nat compiling" where
  "emit op operands c =
    (case Make op operands of
       None \<Rightarrow> Panic
     | Some ins \<Rightarrow>
        (case addInstruction ins c of (pos, c') \<Rightarrow> Ok pos (setLastInstruction op pos c')))"

definition lastInstructionIsPop :: "Compiler \<Rightarrow> bool" where
  "lastInstructionIsPop c \<longleftrightarrow> OpCode (lastInstruction c) = OpPop"

text \<open>
  \<open>removeLastPop\<close> reslices the buffer to \<open>[:lastInstruction.Position]\<close>. A position
  beyond the length is modelled as a panic (Go would panic beyond the capacity).
\<close>

definition removeLastPop :: "Compiler \<Rightarrow> unit compiling" where
  "removeLastPop c =
    (if Position (lastInstruction c) \<le> length (instructions c) then
       Ok () (c\<lparr>instructions := take (Position (lastInstruction c)) (instructions c),
               lastInstruction := previousInstruction c\<rparr>)
     else Panic)"

text \<open>The loop of \<open>replaceInstruction\<close>: a write beyond the buffer panics (\<open>None\<close>).\<close>

fun replaceBytes :: "nat \<Rightarrow> byte list \<Rightarrow> Instructions \<Rightarrow> Instructions option" where
  "replaceBytes pos [] ins = Some ins"
| "replaceBytes pos (b # bs) ins =
    (if pos < length ins then replaceBytes (pos + 1) bs (ins[pos := b]) else None)"

definition replaceInstruction :: "nat \<Rightarrow> byte list \<Rightarrow> Compiler \<Rightarrow> unit compiling" where
  "replaceInstruction pos newInstruction c =
    (case replaceBytes pos newInstruction (instructions c) of
       None \<Rightarrow> Panic
     | Some ins \<Rightarrow> Ok () (c\<lparr>instructions := ins\<rparr>))"

definition changeOperand :: "nat \<Rightarrow> int \<Rightarrow> Compiler \<Rightarrow> unit compiling" where
  "changeOperand opPos operand c =
    (if opPos < length (instructions c) then
       (case Make (instructions c ! opPos) [operand] of
          None \<Rightarrow> Panic
        | Some newInstruction \<Rightarrow> replaceInstruction opPos newInstruction c)
     else Panic)"

text \<open>
  \<open>Compile\<close>, by node kind. The statements of a program or block and the elements of an
  array literal are compiled in order, stopping at the first error. A \<open>HashLiteral\<close> and a
  \<open>ReturnStatement\<close> have no case of their own in the type switch: they reach its
  \<open>default\<close>.
\<close>

fun Compile_Expression :: "Expression \<Rightarrow> Compiler \<Rightarrow> unit compiling"
  and Compile_Expressions :: "Expression list \<Rightarrow> Compiler \<Rightarrow> unit compiling"
  and Compile_Statement :: "Statement \<Rightarrow> Compiler \<Rightarrow> unit compiling"
  and Compile_Statements :: "Statement list \<Rightarrow> Compiler \<Rightarrow> unit compiling"
where
  "Compile_Expression (InfixExpression left operator right) c =
    bind (Compile_Expression left c) (\<lambda>_ c.
    bind (Compile_Expression right c) (\<lambda>_ c.
      if operator = ''+'' then bind (emit OpAdd [] c) (\<lambda>_. Ok ())
      else if operator = ''-'' then bind (emit OpSub [] c) (\<lambda>_. Ok ())
      else if operator = ''*'' then bind (emit OpMul [] c) (\<lambda>_. Ok ())
      else if operator = ''/'' then bind (emit OpDiv [] c) (\<lambda>_. Ok ())
      else if operator = ''=='' then bind (emit OpEqual [] c) (\<lambda>_. Ok ())
      else if operator = ''!='' then bind (emit OpNotEqual [] c) (\<lambda>_. Ok ())
      else if operator = ''<'' then bind (emit OpLessThan [] c) (\<lambda>_. Ok ())
      else if operator = ''>'' then bind (emit OpGreaterThan [] c) (\<lambda>_. Ok ())
      else Err (ErrUnknownOperator operator) c))"
| "Compile_Expression (PrefixExpression operator right) c =
    bind (Compile_Expression right c) (\<lambda>_ c.
      if operator = ''!'' then bind (emit OpBang [] c) (\<lambda>_. Ok ())
      else if operator = ''-'' then bind (emit OpMinus [] c) (\<lambda>_. Ok ())
      else Err (ErrUnknownPrefixOperator operator) c)"
| "Compile_Expression (IfExpression condition consequence alternative) c =
    bind (Compile_Expression condition c) (\<lambda>_ c.
    bind (emit OpJumpNotTruthy [9999] c) (\<lambda>jumpNotTruthyPos c.
    bind (Compile_Statements consequence c) (\<lambda>_ c.
    bind (if lastInstructionIsPop c then removeLastPop c else Ok () c) (\<lambda>_ c.
    bind (emit OpJump [9999] c) (\<lambda>jumpPos c.
    bind (changeOperand jumpNotTruthyPos (int (length (instructions c))) c) (\<lambda>_ c.
    bind (case alternative of
            None \<Rightarrow> bind (emit OpNull [] c) (\<lambda>_. Ok ())
          | Some alt \<Rightarrow>
              bind (Compile_Statements alt c) (\<lambda>_ c.
                if lastInstructionIsPop c then removeLastPop c else Ok () c)) (\<lambda>_ c.
    changeOperand jumpPos (int (length (instructions c))) c)))))))"
| "Compile_Expression (Identifier name) c =
    (case Resolve name (symbolTable c) of
       None \<Rightarrow> Err (ErrUndefinedIdentifier name) c
     | Some symbol \<Rightarrow> bind (emit OpGetGlobal [int (Index symbol)] c) (\<lambda>_. Ok ()))"
| "Compile_Expression (ArrayLiteral elements) c =
    bind (Compile_Expressions elements c) (\<lambda>_ c.
    bind (emit OpArray [int (length elements)] c) (\<lambda>_. Ok ()))"
| "Compile_Expression (StringLiteral v) c =
    (case alloc (StringObj v) (heap c) of (string, h) \<Rightarrow>
       (case addConstant string (c\<lparr>heap := h\<rparr>) of (idx, c) \<Rightarrow>
          bind (emit OpConstant [int idx] c) (\<lambda>_. Ok ())))"
| "Compile_Expression (IntegerLiteral v) c =
    (case alloc (IntegerObj v) (heap c) of (integer, h) \<Rightarrow>
       (case addConstant integer (c\<lparr>heap := h\<rparr>) of (idx, c) \<Rightarrow>
          bind (emit OpConstant [int idx] c) (\<lambda>_. Ok ())))"
| "Compile_Expression (Boolean b) c =
    (if b then bind (emit OpTrue [] c) (\<lambda>_. Ok ()) else bind (emit OpFalse [] c) (\<lambda>_. Ok ()))"
| "Compile_Expression (HashLiteral pairs) c =
    Err (ErrUnsupportedNode (ExpressionNode (HashLiteral pairs))) c"
| "Compile_Expressions [] c = Ok () c"
| "Compile_Expressions (e # es) c =
    bind (Compile_Expression e c) (\<lambda>_ c. Compile_Expressions es c)"
| "Compile_Statement (ExpressionStatement expression) c =
    bind (Compile_Expression expression c) (\<lambda>_ c.
    bind (emit OpPop [] c) (\<lambda>_. Ok ()))"
| "Compile_Statement (LetStatement name v) c =
    bind (Compile_Expression v c) (\<lambda>_ c.
      case Define name (symbolTable c) of (symbol, symtab) \<Rightarrow>
        bind (emit OpSetGlobal [int (Index symbol)] (c\<lparr>symbolTable := symtab\<rparr>)) (\<lambda>_. Ok ()))"
| "Compile_Statement (ReturnStatement v) c =
    Err (ErrUnsupportedNode (StatementNode (ReturnStatement v))) c"
| "Compile_Statements [] c = Ok () c"
| "Compile_Statements (s # ss) c =
    bind (Compile_Statement s c) (\<lambda>_ c. Compile_Statements ss c)"

fun Compile :: "Node \<Rightarrow> Compiler \<Rightarrow> unit compiling" where
  "Compile (Program statements) c = Compile_Statements statements c"
| "Compile (BlockStatement statements) c = Compile_Statements statements c"
| "Compile (StatementNode s) c = Compile_Statement s c"
| "Compile (ExpressionNode e) c = Compile_Expression e c"

section \<open>The virtual machine\<close>

definition StackSize :: nat where "StackSize = 2048"
definition GlobalSize :: nat where "GlobalSize = 65536"

text \<open>
  Modelled from the spec: \<open>Run\<close> has a case for \<open>code.OpHash\<close>, an opcode that the
  enumeration of code.go does not declare and \<open>definitions\<close> does not register. It is
  taken as the next value of the enumeration, after \<open>OpArray\<close>.
\<close>

definition OpHash :: Opcode where "OpHash = 20"

text \<open>
  The struct \<open>VM\<close> (its fields \<open>constants\<close> and \<open>instructions\<close> carry the prefix
  \<open>vm_\<close> here), with the heap of the allocated objects. \<open>sp\<close> never goes below 0: \<open>pop\<close>
  indexes the stack at \<open>sp - 1\<close> before it decrements.
\<close>

record VM =
  vm_constants :: "Object list"
  vm_instructions :: Instructions
  global :: "Object list"
  stack :: "Object list"
  sp :: nat
  vm_heap :: heap

datatype VMError =
    ErrStackOverflow
  | ErrUnsupportedNegation ObjectType
  | ErrUnknownComparison Opcode ObjectType ObjectType
  | ErrUnknownIntegerComparison Opcode
  | ErrUnsupportedBinary ObjectType ObjectType
  | ErrUnknownIntegerOperator Opcode
  | ErrUnusableAsHashKey ObjectType

fun VMError_text :: "VMError \<Rightarrow> string" where
  "VMError_text ErrStackOverflow = ''stack overflow''"
| "VMError_text (ErrUnsupportedNegation t) = ''unsupported type for negation: '' @ typeName t"
| "VMError_text (ErrUnknownComparison op l r) =
    ''unknown operator: '' @ showNat (unat op) @ '' ('' @ typeName l @ '' '' @ typeName r @ '')''"
| "VMError_text (ErrUnknownIntegerComparison op) = ''unknown operator: '' @ showNat (unat op)"
| "VMError_text (ErrUnsupportedBinary l r) =
    ''unsupported types for binary operation: '' @ typeName l @ '' '' @ typeName r"
| "VMError_text (ErrUnknownIntegerOperator op) = ''unknown interger operator: '' @ showNat (unat op)"
| "VMError_text (ErrUnusableAsHashKey t) = ''unusable as hash key: '' @ typeName t"

type_synonym 'a running = "(VMError, 'a, VM) result"

definition vm_NewWithState :: "Bytecode \<Rightarrow> Object list \<Rightarrow> heap \<Rightarrow> VM" where
  "vm_NewWithState bytecode globals h =
    \<lparr>vm_constants = Constants bytecode, vm_instructions = Instructions bytecode,
     global = globals, stack = replicate StackSize None, sp = 0, vm_heap = h\<rparr>"

definition vm_New :: "Bytecode \<Rightarrow> heap \<Rightarrow> VM" where
  "vm_New bytecode h =
    \<lparr>vm_constants = Constants bytecode, vm_instructions = Instructions bytecode,
     global = replicate GlobalSize None, stack = replicate StackSize None, sp = 0,
     vm_heap = h\<rparr>"

definition LastPoppedStackElement :: "VM \<Rightarrow> Object go" where
  "LastPoppedStackElement vm =
    (if sp vm < length (stack vm) then Returns (stack vm ! sp vm) else Panics)"

definition push :: "Object \<Rightarrow> VM \<Rightarrow> unit running" where
  "push obj vm =
    (if sp vm \<ge> StackSize then Err ErrStackOverflow vm
     else if sp vm < length (stack vm) then
       Ok () (vm\<lparr>stack := (stack vm)[sp vm := obj], sp := sp vm + 1\<rparr>)
     else Panic)"

definition pop :: "VM \<Rightarrow> Object running" where
  "pop vm =
    (if 0 < sp vm \<and> sp vm - 1 < length (stack vm) then
       Ok (stack vm ! (sp vm - 1)) (vm\<lparr>sp := sp vm - 1\<rparr>)
     else Panic)"

text \<open>\<open>isTruthy\<close>: a type switch, whose \<open>default\<close> also takes \<open>nil\<close>.\<close>

definition isTruthy :: "heap \<Rightarrow> Object \<Rightarrow> bool" where
  "isTruthy h obj =
    (case deref h obj of
       Some (BooleanObj b) \<Rightarrow> b
     | Some NullObj \<Rightarrow> False
     | _ \<Rightarrow> True)"

definition nativeBoolToBooleanObject :: "bool \<Rightarrow> Object" where
  "nativeBoolToBooleanObject b = (if b then vm_True else vm_False)"

text \<open>Allocate an object and push it.\<close>

definition pushNew :: "objdata \<Rightarrow> VM \<Rightarrow> unit running" where
  "pushNew d vm = (case alloc d (vm_heap vm) of (obj, h) \<Rightarrow> push obj (vm\<lparr>vm_heap := h\<rparr>))"

definition executeMinusOperator :: "VM \<Rightarrow> unit running" where
  "executeMinusOperator vm =
    bind (pop vm) (\<lambda>operand vm.
      case deref (vm_heap vm) operand of
        None \<Rightarrow> Panic
      | Some (IntegerObj v) \<Rightarrow> pushNew (IntegerObj (- v)) vm
      | Some d \<Rightarrow> Err (ErrUnsupportedNegation (typeOfData d)) vm)"

definition executeBangOperator :: "VM \<Rightarrow> unit running" where
  "executeBangOperator vm =
    bind (pop vm) (\<lambda>operand vm.
      if operand = vm_True then push vm_False vm
      else if operand = vm_False then push vm_True vm
      else if operand = vm_Null then push vm_True vm
      else push vm_False vm)"

text \<open>
  The type assertions \<open>left.(*object.Integer)\<close> of the integer operations panic on an
  object of another type. The values are \<open>int64\<close>: \<open>+\<close>, \<open>-\<close> and \<open>*\<close> wrap around,
  \<open>/\<close> truncates towards zero and panics on a zero divisor, \<open>< >\<close> compare signed.
\<close>

definition executeIntegerComparison :: "Opcode \<Rightarrow> Object \<Rightarrow> Object \<Rightarrow> VM \<Rightarrow> unit running" where
  "executeIntegerComparison op left right vm =
    (case (deref (vm_heap vm) left, deref (vm_heap vm) right) of
       (Some (IntegerObj leftValue), Some (IntegerObj rightValue)) \<Rightarrow>
         if op = OpEqual then push (nativeBoolToBooleanObject (leftValue = rightValue)) vm
         else if op = OpNotEqual then push (nativeBoolToBooleanObject (leftValue \<noteq> rightValue)) vm
         else if op = OpLessThan then
           push (nativeBoolToBooleanObject (sint leftValue < sint rightValue)) vm
         else if op = OpGreaterThan then
           push (nativeBoolToBooleanObject (sint leftValue > sint rightValue)) vm
         else Err (ErrUnknownIntegerComparison op) vm
     | _ \<Rightarrow> Panic)"

definition executeComparison :: "Opcode \<Rightarrow> VM \<Rightarrow> unit running" where
  "executeComparison op vm =
    bind (pop vm) (\<lambda>right vm.
    bind (pop vm) (\<lambda>left vm.
      case Type (vm_heap vm) left of
        None \<Rightarrow> Panic
      | Some leftType \<Rightarrow>
         (case Type (vm_heap vm) right of
            None \<Rightarrow> Panic
          | Some rightType \<Rightarrow>
             if leftType = INTEGER_OBJ \<and> rightType = INTEGER_OBJ then
               executeIntegerComparison op left right vm
             else if op = OpEqual then push (nativeBoolToBooleanObject (left = right)) vm
             else if op = OpNotEqual then push (nativeBoolToBooleanObject (left \<noteq> right)) vm
             else Err (ErrUnknownComparison op leftType rightType) vm)))"

definition executeBinaryIntegerOberation :: "Opcode \<Rightarrow> Object \<Rightarrow> Object \<Rightarrow> VM \<Rightarrow> unit running" where
  "executeBinaryIntegerOberation op left right vm =
    (case (deref (vm_heap vm) left, deref (vm_heap vm) right) of
       (Some (IntegerObj lValue), Some (IntegerObj rValue)) \<Rightarrow>
         if op = OpAdd then pushNew (IntegerObj (lValue + rValue)) vm
         else if op = OpSub then pushNew (IntegerObj (lValue - rValue)) vm
         else if op = OpMul then pushNew (IntegerObj (lValue * rValue)) vm
         else if op = OpDiv then
           (if rValue = 0 then Panic
            else pushNew (IntegerObj (word_of_int (sint lValue sdiv sint rValue))) vm)
         else Err (ErrUnknownIntegerOperator op) vm
     | _ \<Rightarrow> Panic)"

definition executeBinaryStringOperation :: "Opcode \<Rightarrow> Object \<Rightarrow> Object \<Rightarrow> VM \<Rightarrow> unit running" where
  "executeBinaryStringOperation op left right vm =
    (case (deref (vm_heap vm) left, deref (vm_heap vm) right) of
       (Some (StringObj lValue), Some (StringObj rValue)) \<Rightarrow>
         if op = OpAdd then pushNew (StringObj (lValue @ rValue)) vm
         else Err (ErrUnknownIntegerOperator op) vm
     | _ \<Rightarrow> Panic)"

definition executeBinaryOperation :: "Opcode \<Rightarrow> VM \<Rightarrow> unit running" where
  "executeBinaryOperation op vm =
    bind (pop vm) (\<lambda>right vm.
    bind (pop vm) (\<lambda>left vm.
      case Type (vm_heap vm) left of
        None \<Rightarrow> Panic
      | Some leftType \<Rightarrow>
         (case Type (vm_heap vm) right of
            None \<Rightarrow> Panic
          | Some rightType \<Rightarrow>
             if leftType = INTEGER_OBJ \<and> rightType = INTEGER_OBJ then
               executeBinaryIntegerOberation op left right vm
             else if leftType = STRING_OBJ \<and> rightType = STRING_OBJ then
               executeBinaryStringOperation op left right vm
             else Err (ErrUnsupportedBinary leftType rightType) vm)))"

text \<open>
  The loop of \<open>OpArray\<close>: \<open>Elements[i-1] = vm.pop()\<close> for \<open>i\<close> from the count down to 1,
  so the value popped first is the last element.
\<close>

fun popElements :: "nat \<Rightarrow> VM \<Rightarrow> (Object list) running" where
  "popElements 0 vm = Ok [] vm"
| "popElements (Suc n) vm =
    bind (pop vm) (\<lambda>x vm.
    bind (popElements n vm) (\<lambda>xs vm. Ok (xs @ [x]) vm))"

text \<open>
  The interface \<open>object.Hashable\<close> is implemented by integers, booleans and strings. The
  assertion \<open>key.(object.Hashable)\<close> fails on every other key; the error text then calls
  \<open>key.Type()\<close>, a panic on a nil key.
\<close>

fun Hashable :: "objdata \<Rightarrow> bool" where
  "Hashable (IntegerObj v) = True"
| "Hashable (BooleanObj b) = True"
| "Hashable (StringObj s) = True"
| "Hashable _ = False"

text \<open>The loop of \<open>OpHash\<close>: the value is popped first, then the key.\<close>

fun popPairs :: "nat \<Rightarrow> (Object \<times> Object) list \<Rightarrow> VM \<Rightarrow> ((Object \<times> Object) list) running" where
  "popPairs 0 pairs vm = Ok pairs vm"
| "popPairs (Suc n) pairs vm =
    bind (pop vm) (\<lambda>v vm.
    bind (pop vm) (\<lambda>key vm.
      case deref (vm_heap vm) key of
        None \<Rightarrow> Panic
      | Some d \<Rightarrow>
          if Hashable d then popPairs n (pairs @ [(key, v)]) vm
          else Err (ErrUnusableAsHashKey (typeOfData d)) vm))"

text \<open>
  The operand of the instruction at \<open>ip\<close>: \<open>code.ReadUint16(vm.instructions[ip+1:])\<close>.
\<close>

definition readOperand :: "VM \<Rightarrow> nat \<Rightarrow> nat option" where
  "readOperand vm ip = map_option unat (ReadUint16 (drop (ip + 1) (vm_instructions vm)))"

text \<open>
  One iteration of the loop of \<open>Run\<close>, for \<open>ip\<close> below the length of the instructions:
  the body of the \<open>switch\<close> followed by the \<open>ip++\<close> of the \<open>for\<close> statement. The result
  is the value of \<open>ip\<close> at the next loop test: a jump, which sets \<open>ip = address - 1\<close>,
  continues at \<open>address\<close>. \<open>Err\<close> is a \<open>return err\<close>. The errors of
  \<open>executeBinaryOperation\<close> and \<open>executeComparison\<close> are not looked at by \<open>Run\<close>,
  which calls them as statements: the loop continues. An opcode without a case does
  nothing.
\<close>

definition ignoreError :: "unit running \<Rightarrow> unit running" where
  "ignoreError r = (case r of Ok u vm \<Rightarrow> Ok u vm | Err e vm \<Rightarrow> Ok () vm | Panic \<Rightarrow> Panic)"

definition exec :: "VM \<Rightarrow> nat \<Rightarrow> nat running" where
  "exec vm ip =
    (let op = vm_instructions vm ! ip in
     if op = OpNull then bind (push vm_Null vm) (\<lambda>_. Ok (ip + 1))
     else if op = OpPop then bind (pop vm) (\<lambda>_. Ok (ip + 1))
     else if op = OpConstant then
       (case readOperand vm ip of
          None \<Rightarrow> Panic
        | Some constIndex \<Rightarrow>
            if constIndex < length (vm_constants vm) then
              bind (push (vm_constants vm ! constIndex) vm) (\<lambda>_. Ok (ip + 3))
            else Panic)
     else if op = OpTrue then bind (push vm_True vm) (\<lambda>_. Ok (ip + 1))
     else if op = OpFalse then bind (push vm_False vm) (\<lambda>_. Ok (ip + 1))
     else if op = OpArray then
       (case readOperand vm ip of
          None \<Rightarrow> Panic
        | Some elements \<Rightarrow>
            bind (popElements elements vm) (\<lambda>es vm.
            bind (pushNew (ArrayObj es) vm) (\<lambda>_. Ok (ip + 3))))
     else if op = OpHash then
       (case readOperand vm ip of
          None \<Rightarrow> Panic
        | Some pairs \<Rightarrow>
            bind (popPairs pairs [] vm) (\<lambda>ps vm.
            bind (pushNew (HashObj ps) vm) (\<lambda>_. Ok (ip + 3))))
     else if op = OpAdd \<or> op = OpSub \<or> op = OpMul \<or> op = OpDiv then
       bind (ignoreError (executeBinaryOperation op vm)) (\<lambda>_. Ok (ip + 1))
     else if op = OpEqual \<or> op = OpNotEqual \<or> op = OpLessThan \<or> op = OpGreaterThan then
       bind (ignoreError (executeComparison op vm)) (\<lambda>_. Ok (ip + 1))
     else if op = OpBang then bind (executeBangOperator vm) (\<lambda>_. Ok (ip + 1))
     else if op = OpMinus then bind (executeMinusOperator vm) (\<lambda>_. Ok (ip + 1))
     else if op = OpJump then
       (case readOperand vm ip of
          None \<Rightarrow> Panic
        | Some address \<Rightarrow> Ok address vm)
     else if op = OpJumpNotTruthy then
       (case readOperand vm ip of
          None \<Rightarrow> Panic
        | Some address \<Rightarrow>
            bind (pop vm) (\<lambda>condition vm.
              if \<not> isTruthy (vm_heap vm) condition then Ok address vm else Ok (ip + 3) vm))
     else if op = OpGetGlobal then
       (case readOperand vm ip of
          None \<Rightarrow> Panic
        | Some globalIndex \<Rightarrow>
            if globalIndex < length (global vm) then
              bind (push (global vm ! globalIndex) vm) (\<lambda>_. Ok (ip + 3))
            else Panic)
     else if op = OpSetGlobal then
       (case readOperand vm ip of
          None \<Rightarrow> Panic
        | Some globalIndex \<Rightarrow>
            bind (pop vm) (\<lambda>v vm.
              if globalIndex < length (global vm) then
                Ok (ip + 3) (vm\<lparr>global := (global vm)[globalIndex := v]\<rparr>)
              else Panic))
     else Ok (ip + 1) vm)"

text \<open>
  \<open>Run\<close>: the loop from \<open>ip\<close> on. \<open>Some (Ok () vm)\<close> is \<open>return nil\<close> with the
  machine left in state \<open>vm\<close>, \<open>Some (Err e vm)\<close> is \<open>return err\<close>, \<open>Some Panic\<close> a
  panic and \<open>None\<close> a loop that never ends (backward jumps can make one).
\<close>

partial_function (option) Run_from :: "VM \<Rightarrow> nat \<Rightarrow> (unit running) option" where
  "Run_from vm ip =
    (if ip < length (vm_instructions vm) then
       (case exec vm ip of
          Ok ip' vm' \<Rightarrow> Run_from vm' ip'
        | Err e vm' \<Rightarrow> Some (Err e vm')
        | Panic \<Rightarrow> Some Panic)
     else Some (Ok () vm))"

definition Run :: "VM \<Rightarrow> (unit running) option" where
  "Run vm = Run_from vm 0"

section \<open>The REPL\<close>

text \<open>
  Lexer and parser belong to the interpreter repository: an input line is given by what
  \<open>ParseProgram\<close> makes of it, either a non-empty list of parser errors or a program.
  What \<open>Start\<close> writes is a list of outputs: the prompt, the parser errors, the two
  failure messages with their error, or \<open>Inspect()\<close> of the last popped stack element
  (given by the object it is called on). The session ends when the input does, or in a
  panic (\<open>Inspect\<close> on a nil element is one).
\<close>

datatype Input = ParserErrors "string list" | Parsed "Statement list"

datatype Output =
    Prompt
  | PrintParserErrors "string list"
  | CompilationFailed CompileError
  | ExecutingFailed VMError
  | Inspect objdata

datatype Ending = Exited | Crashed

definition after :: "Output list \<Rightarrow> (Output list \<times> Ending) option \<Rightarrow> (Output list \<times> Ending) option" where
  "after outs r = map_option (\<lambda>(os, e). (outs @ os, e)) r"

text \<open>
  The loop of \<open>Start\<close>, over the lines still to come; \<open>h\<close> is the heap, the only thing
  that lives on from one iteration to the next (the objects of earlier lines are garbage).
  Each line gets \<open>compiler.New()\<close> and \<open>vm.New(...)\<close>.
\<close>

fun Start_from :: "heap \<Rightarrow> Input list \<Rightarrow> (Output list \<times> Ending) option" where
  "Start_from h [] = Some ([Prompt], Exited)"
| "Start_from h (ParserErrors errs # rest) =
    after [Prompt, PrintParserErrors errs] (Start_from h rest)"
| "Start_from h (Parsed program # rest) =
    (case Compile (Program program) (compiler_New h) of
       Panic \<Rightarrow> Some ([Prompt], Crashed)
     | Err e c \<Rightarrow> after [Prompt, CompilationFailed e] (Start_from (heap c) rest)
     | Ok _ c \<Rightarrow>
        (case Run (vm_New (compiler_Bytecode c) (heap c)) of
           None \<Rightarrow> None
         | Some Panic \<Rightarrow> Some ([Prompt], Crashed)
         | Some (Err e machine) \<Rightarrow>
             after [Prompt, ExecutingFailed e] (Start_from (vm_heap machine) rest)
         | Some (Ok _ machine) \<Rightarrow>
            (case LastPoppedStackElement machine of
               Panics \<Rightarrow> Some ([Prompt], Crashed)
             | Returns stackTop \<Rightarrow>
                (case deref (vm_heap machine) stackTop of
                   None \<Rightarrow> Some ([Prompt], Crashed)
                 | Some d \<Rightarrow> after [Prompt, Inspect d] (Start_from (vm_heap machine) rest)))))"

definition Start :: "Input list \<Rightarrow> (Output list \<times> Ending) option" where
  "Start lines = Start_from initial_heap lines"

section \<open>Code regions\<close>

text \<open>
  The body of the loop of \<open>Run\<close> on an opcode and its decoded operand: \<open>exec\<close> with the
  two reads of the instruction bytes taken out.
\<close>

definition execOp :: "Opcode \<Rightarrow> nat option \<Rightarrow> nat \<Rightarrow> VM \<Rightarrow> nat running" where
  "execOp op operand ip vm =
    (if op = OpNull then bind (push vm_Null vm) (\<lambda>_. Ok (ip + 1))
     else if op = OpPop then bind (pop vm) (\<lambda>_. Ok (ip + 1))
     else if op = OpConstant then
       (case operand of
          None \<Rightarrow> Panic
        | Some constIndex \<Rightarrow>
            if constIndex < length (vm_constants vm) then
              bind (push (vm_constants vm ! constIndex) vm) (\<lambda>_. Ok (ip + 3))
            else Panic)
     else if op = OpTrue then bind (push vm_True vm) (\<lambda>_. Ok (ip + 1))
     else if op = OpFalse then bind (push vm_False vm) (\<lambda>_. Ok (ip + 1))
     else if op = OpArray then
       (case operand of
          None \<Rightarrow> Panic
        | Some elements \<Rightarrow>
            bind (popElements elements vm) (\<lambda>es vm.
            bind (pushNew (ArrayObj es) vm) (\<lambda>_. Ok (ip + 3))))
     else if op = OpHash then
       (case operand of
          None \<Rightarrow> Panic
        | Some pairs \<Rightarrow>
            bind (popPairs pairs [] vm) (\<lambda>ps vm.
            bind (pushNew (HashObj ps) vm) (\<lambda>_. Ok (ip + 3))))
     else if op = OpAdd \<or> op = OpSub \<or> op = OpMul \<or> op = OpDiv then
       bind (ignoreError (executeBinaryOperation op vm)) (\<lambda>_. Ok (ip + 1))
     else if op = OpEqual \<or> op = OpNotEqual \<or> op = OpLessThan \<or> op = OpGreaterThan then
       bind (ignoreError (executeComparison op vm)) (\<lambda>_. Ok (ip + 1))
     else if op = OpBang then bind (executeBangOperator vm) (\<lambda>_. Ok (ip + 1))
     else if op = OpMinus then bind (executeMinusOperator vm) (\<lambda>_. Ok (ip + 1))
     else if op = OpJump then
       (case operand of
          None \<Rightarrow> Panic
        | Some address \<Rightarrow> Ok address vm)
     else if op = OpJumpNotTruthy then
       (case operand of
          None \<Rightarrow> Panic
        | Some address \<Rightarrow>
            bind (pop vm) (\<lambda>condition vm.
              if \<not> isTruthy (vm_heap vm) condition then Ok address vm else Ok (ip + 3) vm))
     else if op = OpGetGlobal then
       (case operand of
          None \<Rightarrow> Panic
        | Some globalIndex \<Rightarrow>
            if globalIndex < length (global vm) then
              bind (push (global vm ! globalIndex) vm) (\<lambda>_. Ok (ip + 3))
            else Panic)
     else if op = OpSetGlobal then
       (case operand of
          None \<Rightarrow> Panic
        | Some globalIndex \<Rightarrow>
            bind (pop vm) (\<lambda>v vm.
              if globalIndex < length (global vm) then
                Ok (ip + 3) (vm\<lparr>global := (global vm)[globalIndex := v]\<rparr>)
              else Panic))
     else Ok (ip + 1) vm)"

text \<open>The state of an outcome, changed by \<open>f\<close>.\<close>

definition map_state :: "('s \<Rightarrow> 's) \<Rightarrow> ('e, 'a, 's) result \<Rightarrow> ('e, 'a, 's) result" where
  "map_state f r = (case r of Ok a s \<Rightarrow> Ok a (f s) | Err e s \<Rightarrow> Err e (f s) | Panic \<Rightarrow> Panic)"

text \<open>A run that does not return nil: it returns an error, panics or does not end.\<close>

definition bad :: "(unit running) option \<Rightarrow> bool" where
  "bad r \<longleftrightarrow> (\<forall>v. r \<noteq> Some (Ok () v))"

text \<open>
  \<open>path seg off a b d\<close>: wherever the bytes \<open>seg\<close> lie at offset \<open>off\<close> of the
  instructions, a run that stands at \<open>off + a\<close> either comes to stand at \<open>off + b\<close>, in a
  state that does not depend on the bytes around \<open>seg\<close> and whose stack pointer has
  grown by \<open>d\<close> at most, or does not return nil. \<open>region seg off d\<close> is a path through
  the whole of \<open>seg\<close>.
\<close>

definition path_at :: "byte list \<Rightarrow> nat \<Rightarrow> nat \<Rightarrow> nat \<Rightarrow> int \<Rightarrow> VM \<Rightarrow> bool" where
  "path_at seg off a b d vm \<longleftrightarrow>
      (\<exists>vm'. int (sp vm') \<le> int (sp vm) + d \<and>
         (\<forall>pre post. length pre = off \<longrightarrow>
            Run_from (vm\<lparr>vm_instructions := pre @ seg @ post\<rparr>) (off + a) =
            Run_from (vm'\<lparr>vm_instructions := pre @ seg @ post\<rparr>) (off + b))) \<or>
      (\<forall>pre post. length pre = off \<longrightarrow>
         bad (Run_from (vm\<lparr>vm_instructions := pre @ seg @ post\<rparr>) (off + a)))"

definition path :: "byte list \<Rightarrow> nat \<Rightarrow> nat \<Rightarrow> nat \<Rightarrow> int \<Rightarrow> bool" where
  "path seg off a b d \<longleftrightarrow> (\<forall>vm. path_at seg off a b d vm)"

definition region :: "byte list \<Rightarrow> nat \<Rightarrow> int \<Rightarrow> bool" where
  "region seg off d \<longleftrightarrow> path seg off 0 (length seg) d"

subsection \<open>The shape of compiled code\<close>

definition zero_ops :: "Opcode set" where
  "zero_ops = {OpNull, OpPop, OpTrue, OpFalse, OpBang, OpMinus, OpAdd, OpSub, OpMul, OpDiv,
               OpEqual, OpNotEqual, OpLessThan, OpGreaterThan}"

definition one_ops :: "Opcode set" where
  "one_ops = {OpConstant, OpJump, OpJumpNotTruthy, OpGetGlobal, OpSetGlobal, OpArray}"

text \<open>
  What compiling an expression, a list of \<open>n\<close> expressions, a statement and a list of
  statements makes of the compiler \<open>c\<close>: bytes are appended, and wherever they lie
  below offset 65536 they are a region that leaves one value, \<open>n\<close> values or no value
  on the stack. After statements whose last emitted instruction is an \<open>OpPop\<close>, that
  instruction is the last byte and the bytes before it are a region that leaves one value.
\<close>

definition expr_ok :: "Compiler \<Rightarrow> Compiler \<Rightarrow> bool" where
  "expr_ok c c' \<longleftrightarrow>
    (\<exists>seg. instructions c' = instructions c @ seg \<and> seg \<noteq> [] \<and>
       (length (instructions c') \<le> 65535 \<longrightarrow> region seg (length (instructions c)) 1))"

definition exprs_ok :: "nat \<Rightarrow> Compiler \<Rightarrow> Compiler \<Rightarrow> bool" where
  "exprs_ok n c c' \<longleftrightarrow>
    (\<exists>seg. instructions c' = instructions c @ seg \<and> n \<le> length seg \<and>
       (length (instructions c') \<le> 65535 \<longrightarrow> region seg (length (instructions c)) (int n)))"

definition tail_ok :: "Compiler \<Rightarrow> Compiler \<Rightarrow> bool" where
  "tail_ok c c' \<longleftrightarrow>
    (lastInstructionIsPop c' \<longrightarrow>
       Position (lastInstruction c') + 1 = length (instructions c') \<and>
       (\<exists>seg0. instructions c' = instructions c @ seg0 @ [OpPop] \<and>
          (length (instructions c) + length seg0 \<le> 65535 \<longrightarrow>
             region seg0 (length (instructions c)) 1)))"

definition stmt_ok :: "Compiler \<Rightarrow> Compiler \<Rightarrow> bool" where
  "stmt_ok c c' \<longleftrightarrow>
    (\<exists>seg. instructions c' = instructions c @ seg \<and> seg \<noteq> [] \<and>
       (length (instructions c') \<le> 65535 \<longrightarrow> region seg (length (instructions c)) 0)) \<and>
    tail_ok c c'"

definition stmts_ok :: "Compiler \<Rightarrow> Compiler \<Rightarrow> bool" where
  "stmts_ok c c' \<longleftrightarrow>
    (\<exists>seg. instructions c' = instructions c @ seg \<and>
       (length (instructions c') \<le> 65535 \<longrightarrow> region seg (length (instructions c)) 0)) \<and>
    (c' = c \<or> tail_ok c c')"

section \<open>Properties\<close>

subsection \<open>Codec\<close>

lemma ReadUint16_PutUint16: "ReadUint16 (PutUint16 v @ rest) = Some v"
proof -
  have "push_bit 8 (ucast (ucast (drop_bit 8 v) :: byte) :: 16 word) OR ucast (ucast v :: byte) = v"
    by (rule bit_word_eqI) (auto simp: bit_simps)
  then show ?thesis by (simp add: PutUint16_def)
qed

lemma definitions_widths:
  "definitions op = Some def \<Longrightarrow> OperandWidths def = [] \<or> OperandWidths def = [2]"
  by (auto simp: definitions_def split: if_splits)

lemma Make_no_operand:
  "definitions op = Some def \<Longrightarrow> OperandWidths def = [] \<Longrightarrow> Make op [] = Some [op]"
  by (simp add: Make_def)

lemma Make_one_operand:
  "definitions op = Some def \<Longrightarrow> OperandWidths def = [2] \<Longrightarrow>
   Make op [v] = Some (op # PutUint16 (word_of_int v))"
  by (simp add: Make_def)

lemma ReadOperands_PutUint16:
  "OperandWidths def = [2] \<Longrightarrow>
   ReadOperands def (PutUint16 (word_of_int v) @ rest) = Some ([v mod 65536], 2)"
  using ReadUint16_PutUint16 [of "word_of_int v" rest]
  by (simp add: ReadOperands_def uint_word_of_int)

text \<open>
  C3. Encoding round-trip: for every opcode registered in \<open>definitions\<close> with operand
  widths \<open>W\<close> and every operand list that pairs each declared width with a value fitting
  it, \<open>Make\<close> returns an instruction and \<open>ReadOperands\<close> on that instruction without
  its first byte returns the operands and the sum of the widths.
\<close>

theorem codec_round_trip:
  assumes "definitions op = Some def" and "list_all2 fits (OperandWidths def) ops"
  shows "\<exists>ins. Make op ops = Some ins \<and>
           ReadOperands def (tl ins) = Some (ops, sum_list (OperandWidths def))"
proof -
  from assms(1) consider "OperandWidths def = []" | "OperandWidths def = [2]"
    using definitions_widths by blast
  then show ?thesis
  proof cases
    case 1
    with assms show ?thesis by (simp add: Make_no_operand ReadOperands_def)
  next
    case 2
    with assms(2) obtain v where v: "ops = [v]" "fits 2 v"
      by (auto simp: list_all2_Cons1)
    then have "v mod 65536 = v" by (simp add: fits_def)
    with 2 v assms(1) show ?thesis
      using ReadOperands_PutUint16 [of "def" v "[]"] by (simp add: Make_one_operand)
  qed
qed

theorem codec_round_trip_witness:
  "definitions OpConstant = Some \<lparr>Name = ''OpConstant'', OperandWidths = [2]\<rparr> \<and>
   list_all2 fits [2] [65534] \<and>
   Make OpConstant [65534] = Some [1, 255, 254] \<and>
   ReadOperands \<lparr>Name = ''OpConstant'', OperandWidths = [2]\<rparr> (tl [1, 255, 254])
     = Some ([65534], 2)"
proof -
  have d: "definitions OpConstant = Some \<lparr>Name = ''OpConstant'', OperandWidths = [2]\<rparr>"
    by (simp add: definitions_def opcode_defs)
  have f: "list_all2 fits (OperandWidths \<lparr>Name = ''OpConstant'', OperandWidths = [2]\<rparr>) [65534]"
    by (simp add: fits_def)
  have m: "Make OpConstant [65534] = Some [1, 255, 254]"
    unfolding Make_def d by (simp add: PutUint16_def OpConstant_def drop_bit_eq_div)
  from codec_round_trip [OF d f] m f d show ?thesis by simp
qed

text \<open>
  C10. For every registered opcode with one 2-byte operand field and every integer
  operand \<open>v\<close>, negative or beyond 65535 included, \<open>Make\<close> returns a 3-byte instruction
  without any range check, and \<open>ReadOperands\<close> decodes \<open>v mod 2 ^ 16\<close> from it, which
  differs from \<open>v\<close> whenever \<open>v\<close> is outside \<open>0..65535\<close>.
\<close>

theorem Make_wraps_operand:
  assumes "definitions op = Some def" and "OperandWidths def = [2]"
  shows "\<exists>ins. Make op [v] = Some ins \<and> length ins = 3 \<and>
           ReadOperands def (tl ins) = Some ([v mod 65536], 2) \<and>
           (v < 0 \<or> 65536 \<le> v \<longrightarrow> v mod 65536 \<noteq> v)"
proof -
  have "v < 0 \<or> 65536 \<le> v \<longrightarrow> v mod 65536 \<noteq> v"
    by (metis not_le pos_mod_bound pos_mod_sign zero_less_numeral)
  moreover have "length (op # PutUint16 (word_of_int v)) = 3"
    by (simp add: PutUint16_def)
  ultimately show ?thesis
    using assms ReadOperands_PutUint16 [of "def" v "[]"] by (simp add: Make_one_operand)
qed

theorem Make_wraps_operand_witness:
  "definitions OpJump = Some \<lparr>Name = ''OpJump'', OperandWidths = [2]\<rparr> \<and>
   Make OpJump [65546] = Some [3, 0, 10] \<and>
   ReadOperands \<lparr>Name = ''OpJump'', OperandWidths = [2]\<rparr> [0, 10] = Some ([10], 2)"
proof -
  have d: "definitions OpJump = Some \<lparr>Name = ''OpJump'', OperandWidths = [2]\<rparr>"
    by (simp add: definitions_def opcode_defs)
  have m: "Make OpJump [65546] = Some [3, 0, 10]"
    unfolding Make_def d by (simp add: PutUint16_def OpJump_def drop_bit_eq_div)
  from Make_wraps_operand [OF d, of 65546] m d show ?thesis by simp
qed

subsection \<open>Disassembler\<close>

lemma Lookup_255: "Lookup 255 = Inl ''opcode 255 undefined''"
  by (simp add: Lookup_def definitions_def opcode_defs showNat.simps digit_def)

lemma String_loop_255_never_returns:
  "String_loop ins i out = Some y \<Longrightarrow> ins = [255] \<longrightarrow> i \<noteq> 0"
proof (rule String_loop.raw_induct [where P = "\<lambda>ins i out y. ins = [255] \<longrightarrow> i \<noteq> 0"])
  fix f ins i out y
  assume IH: "\<And>ins i out y. f ins i out = Some y \<Longrightarrow> ins = [255] \<longrightarrow> i \<noteq> 0"
    and body: "(if i < length ins then
       (case Lookup (ins ! i) of
          Inl err \<Rightarrow> f ins i (out @ ''ERROR: '' @ err @ [CHR 0x0A])
        | Inr def \<Rightarrow>
           (case ReadOperands def (drop (i + 1) ins) of
              None \<Rightarrow> Some Panics
            | Some (operands, read) \<Rightarrow>
                f ins (i + 1 + read)
                  (out @ showNat04 i @ '' '' @ fmtInstruction def operands @ [CHR 0x0A])))
     else Some (Returns out)) = Some y"
  show "ins = [255] \<longrightarrow> i \<noteq> 0"
  proof (intro impI notI)
    assume "ins = [255]" "i = 0"
    with body have "f [255] 0 (out @ ''ERROR: '' @ ''opcode 255 undefined'' @ [CHR 0x0A]) = Some y"
      by (simp add: Lookup_255)
    from IH [OF this] show False by simp
  qed
qed

text \<open>
  C7. On the one-byte stream \<open>[255]\<close>, whose byte is not a registered opcode, the
  disassembler does not return: the error branch never advances the index.
\<close>

theorem String_unknown_opcode_diverges: "Instructions_String [255] = None"
proof (cases "Instructions_String [255]")
  case (Some y)
  then show ?thesis
    using String_loop_255_never_returns [of "[255]" 0 "[]" y]
    by (simp add: Instructions_String_def)
qed simp

subsection \<open>Evaluation of the compiler and of the VM on concrete inputs\<close>

lemmas compile_eval =
  compiler_New_def bind_def emit_def Make_def definitions_def opcode_defs
  addInstruction_def setLastInstruction_def lastInstructionIsPop_def removeLastPop_def
  changeOperand_def replaceInstruction_def PutUint16_def alloc_def addConstant_def
  EmittedInstruction_zero_def drop_bit_eq_div Define_def Resolve_def NewSymbolTable_def
  initial_heap_def Let_def

lemmas vm_eval =
  Run_def Run_from.simps exec_def readOperand_def push_def pop_def pushNew_def alloc_def
  bind_def ignoreError_def executeBinaryOperation_def executeComparison_def
  executeIntegerComparison_def executeBinaryIntegerOberation_def executeBinaryStringOperation_def
  executeBangOperator_def executeMinusOperator_def isTruthy_def nativeBoolToBooleanObject_def
  vm_True_def vm_False_def vm_Null_def Type_def deref_def StackSize_def GlobalSize_def
  opcode_defs OpHash_def vm_New_def compiler_Bytecode_def LastPoppedStackElement_def
  initial_heap_def

lemmas disassemble_eval =
  Instructions_String_def String_loop.simps Lookup_def definitions_def opcode_defs
  ReadOperands_def fmtInstruction_def showNat04_def showNat.simps showInt_def digit_def

lemma replicate_numeral: "replicate (numeral k) x = x # replicate (pred_numeral k) x"
  by (simp add: numeral_eq_Suc)

subsection \<open>Compiler output\<close>

text \<open>
  C1. Compiling \<open>if (true) { 10 } else { 20 }; 3333;\<close> with a new compiler succeeds and
  gives exactly the bytes of \<open>OpTrue\<close> at 0, \<open>OpJumpNotTruthy 10\<close> at 1,
  \<open>OpConstant 0\<close> at 4, \<open>OpJump 13\<close> at 7, \<open>OpConstant 1\<close> at 10, \<open>OpPop\<close> at 13,
  \<open>OpConstant 2\<close> at 14 and \<open>OpPop\<close> at 17 (the offsets are those the disassembler
  prints), with the constants 10, 20 and 3333: both jumps are patched to the offsets after
  the consequence and after the alternative, and one \<open>OpPop\<close> follows the conditional.
\<close>

theorem compile_conditional:
  "\<exists>c. Compile (Program
          [ExpressionStatement (IfExpression (Boolean True)
             [ExpressionStatement (IntegerLiteral 10)]
             (Some [ExpressionStatement (IntegerLiteral 20)])),
           ExpressionStatement (IntegerLiteral 3333)]) (compiler_New initial_heap) = Ok () c \<and>
       instructions c =
         [OpTrue, OpJumpNotTruthy, 0, 10, OpConstant, 0, 0, OpJump, 0, 13,
          OpConstant, 0, 1, OpPop, OpConstant, 0, 2, OpPop] \<and>
       map (deref (heap c)) (constants c) =
         [Some (IntegerObj 10), Some (IntegerObj 20), Some (IntegerObj 3333)] \<and>
       Instructions_String (instructions c) = Some (Returns (concat
         [''0000 OpTrue'', [CHR 0x0A], ''0001 OpJumpNotTruthy 10'', [CHR 0x0A],
          ''0004 OpConstant 0'', [CHR 0x0A], ''0007 OpJump 13'', [CHR 0x0A],
          ''0010 OpConstant 1'', [CHR 0x0A], ''0013 OpPop'', [CHR 0x0A],
          ''0014 OpConstant 2'', [CHR 0x0A], ''0017 OpPop'', [CHR 0x0A]]))"
proof -
  have "Compile (Program
          [ExpressionStatement (IfExpression (Boolean True)
             [ExpressionStatement (IntegerLiteral 10)]
             (Some [ExpressionStatement (IntegerLiteral 20)])),
           ExpressionStatement (IntegerLiteral 3333)]) (compiler_New initial_heap) =
     Ok () \<lparr>instructions = [5, 4, 0, 10, 1, 0, 0, 3, 0, 13, 1, 0, 1, 2, 1, 0, 2, 2],
     constants = [Some 3, Some 4, Some 5],
     lastInstruction = \<lparr>OpCode = 2, Position = 17\<rparr>,
     previousInstruction = \<lparr>OpCode = 1, Position = 14\<rparr>,
     symbolTable = NewSymbolTable,
     heap = [BooleanObj True, BooleanObj False, NullObj,
             IntegerObj 10, IntegerObj 20, IntegerObj 3333]\<rparr>"
    by (simp add: compile_eval)
  moreover have "Instructions_String [5, 4, 0, 10, 1, 0, 0, 3, 0, 13, 1, 0, 1, 2, 1, 0, 2, 2] =
     Some (Returns (concat
         [''0000 OpTrue'', [CHR 0x0A], ''0001 OpJumpNotTruthy 10'', [CHR 0x0A],
          ''0004 OpConstant 0'', [CHR 0x0A], ''0007 OpJump 13'', [CHR 0x0A],
          ''0010 OpConstant 1'', [CHR 0x0A], ''0013 OpPop'', [CHR 0x0A],
          ''0014 OpConstant 2'', [CHR 0x0A], ''0017 OpPop'', [CHR 0x0A]]))"
    by (simp add: disassemble_eval replicate_numeral)
  ultimately show ?thesis by (simp add: opcode_defs deref_def)
qed

lemma emit_no_operand:
  "definitions op = Some def \<Longrightarrow> OperandWidths def = [] \<Longrightarrow>
   emit op [] c =
     Ok (length (instructions c))
        (c\<lparr>instructions := instructions c @ [op],
           previousInstruction := lastInstruction c,
           lastInstruction := \<lparr>OpCode = op, Position = length (instructions c)\<rparr>\<rparr>)"
  by (simp add: emit_def Make_no_operand addInstruction_def setLastInstruction_def)

lemma emit_one_operand:
  "definitions op = Some def \<Longrightarrow> OperandWidths def = [2] \<Longrightarrow>
   emit op [v] c =
     Ok (length (instructions c))
        (c\<lparr>instructions := instructions c @ op # PutUint16 (word_of_int v),
           previousInstruction := lastInstruction c,
           lastInstruction := \<lparr>OpCode = op, Position = length (instructions c)\<rparr>\<rparr>)"
  by (simp add: emit_def Make_one_operand addInstruction_def setLastInstruction_def)

lemma definitions_OpLessThan:
  "definitions OpLessThan = Some \<lparr>Name = ''OpLessThan'', OperandWidths = []\<rparr>"
  by (simp add: definitions_def opcode_defs)

text \<open>
  C5, as the compiler does it. An infix expression with the operator \<open><\<close> is compiled
  without any swap: the left operand first, then the right operand, then \<open>OpLessThan\<close>.
  If the left operand compiles from \<open>c\<close> to \<open>c1\<close> and the right operand from \<open>c1\<close> to
  \<open>c2\<close>, the expression compiles from \<open>c\<close> to \<open>c2\<close> with the one byte \<open>OpLessThan\<close>
  appended.
\<close>

theorem compile_less_than:
  assumes "Compile_Expression left c = Ok () c1"
    and "Compile_Expression right c1 = Ok () c2"
  shows "\<exists>c3. Compile (ExpressionNode (InfixExpression left ''<'' right)) c = Ok () c3 \<and>
           instructions c3 = instructions c2 @ [OpLessThan] \<and>
           constants c3 = constants c2 \<and>
           lastInstruction c3 = \<lparr>OpCode = OpLessThan, Position = length (instructions c2)\<rparr>"
  using assms by (simp add: bind_def emit_no_operand [OF definitions_OpLessThan])

theorem compile_less_than_witness:
  "\<exists>c1 c2 c3.
     Compile_Expression (IntegerLiteral 1) (compiler_New initial_heap) = Ok () c1 \<and>
     Compile_Expression (IntegerLiteral 2) c1 = Ok () c2 \<and>
     Compile (ExpressionNode (InfixExpression (IntegerLiteral 1) ''<'' (IntegerLiteral 2)))
       (compiler_New initial_heap) = Ok () c3 \<and>
     instructions c1 = [OpConstant, 0, 0] \<and>
     instructions c2 = [OpConstant, 0, 0, OpConstant, 0, 1] \<and>
     instructions c3 = [OpConstant, 0, 0, OpConstant, 0, 1, OpLessThan]"
proof -
  obtain c1 where c1: "Compile_Expression (IntegerLiteral 1) (compiler_New initial_heap) = Ok () c1"
    and i1: "instructions c1 = [OpConstant, 0, 0]"
    by (simp add: compile_eval)
  obtain c2 where c2: "Compile_Expression (IntegerLiteral 2) c1 = Ok () c2"
    and i2: "instructions c2 = instructions c1 @ [OpConstant, 0, 1]"
    using c1 by (simp add: compile_eval) (auto simp: compile_eval)
  from compile_less_than [OF c1 c2] c1 c2 i1 i2 show ?thesis by auto
qed

text \<open>
  The claim C5 fails on \<open>1 < 2\<close>: the program compiles to \<open>OpConstant 0\<close> (the constant
  1), \<open>OpConstant 1\<close> (the constant 2), \<open>OpLessThan\<close>, \<open>OpPop\<close>; the operands are not
  swapped and no \<open>OpGreaterThan\<close> is emitted.
\<close>

theorem compile_less_than_not_swapped:
  "\<exists>c. Compile (Program
          [ExpressionStatement (InfixExpression (IntegerLiteral 1) ''<'' (IntegerLiteral 2))])
          (compiler_New initial_heap) = Ok () c \<and>
       instructions c = [OpConstant, 0, 0, OpConstant, 0, 1, OpLessThan, OpPop] \<and>
       map (deref (heap c)) (constants c) = [Some (IntegerObj 1), Some (IntegerObj 2)] \<and>
       OpGreaterThan \<notin> set (instructions c)"
  by (simp add: compile_eval deref_def)

subsection \<open>Binary operations and comparisons in the VM\<close>

text \<open>
  The iteration of \<open>Run\<close> on one of the four binary operation opcodes never returns an
  error: whatever \<open>executeBinaryOperation\<close> returns is dropped.
\<close>

lemma exec_binary_operation_no_error:
  assumes "vm_instructions vm ! ip \<in> {OpAdd, OpSub, OpMul, OpDiv}"
  shows "exec vm ip \<noteq> Err e vm'"
proof -
  have "exec vm ip =
      bind (ignoreError (executeBinaryOperation (vm_instructions vm ! ip) vm)) (\<lambda>_. Ok (ip + 1))"
    using assms by (auto simp: exec_def Let_def opcode_defs OpHash_def)
  then show ?thesis
    by (simp add: bind_def ignoreError_def split: result.splits)
qed

text \<open>
  C4. On the stack \<open>True, True\<close> the call \<open>executeBinaryOperation(OpAdd)\<close> returns
  the error \<open>unsupported types for binary operation: BOOLEAN BOOLEAN\<close>, but \<open>Run\<close> on
  the instructions \<open>OpTrue; OpTrue; OpAdd\<close> does not abort: it returns nil, with both
  operands popped; and on the compiled program \<open>true + true\<close>, where \<open>OpPop\<close> follows,
  \<open>Run\<close> ends in a panic of the pop on the empty stack instead of returning the error.
\<close>

theorem Run_drops_binary_operation_error:
  "(\<exists>vm'. executeBinaryOperation OpAdd
       ((vm_New \<lparr>Instructions = [OpTrue, OpTrue, OpAdd], Constants = []\<rparr> initial_heap)
          \<lparr>stack := (replicate StackSize None)[0 := vm_True, 1 := vm_True], sp := 2\<rparr>) =
       Err (ErrUnsupportedBinary BOOLEAN_OBJ BOOLEAN_OBJ) vm') \<and>
   VMError_text (ErrUnsupportedBinary BOOLEAN_OBJ BOOLEAN_OBJ) =
     ''unsupported types for binary operation: BOOLEAN BOOLEAN'' \<and>
   (\<exists>vm'. Run (vm_New \<lparr>Instructions = [OpTrue, OpTrue, OpAdd], Constants = []\<rparr> initial_heap) =
       Some (Ok () vm') \<and> sp vm' = 0) \<and>
   (\<exists>c. Compile (Program [ExpressionStatement (InfixExpression (Boolean True) ''+'' (Boolean True))])
          (compiler_New initial_heap) = Ok () c \<and>
        instructions c = [OpTrue, OpTrue, OpAdd, OpPop] \<and>
        Run (vm_New (compiler_Bytecode c) (heap c)) = Some Panic)"
proof (intro conjI)
  show "\<exists>vm'. executeBinaryOperation OpAdd
       ((vm_New \<lparr>Instructions = [OpTrue, OpTrue, OpAdd], Constants = []\<rparr> initial_heap)
          \<lparr>stack := (replicate StackSize None)[0 := vm_True, 1 := vm_True], sp := 2\<rparr>) =
       Err (ErrUnsupportedBinary BOOLEAN_OBJ BOOLEAN_OBJ) vm'"
    by (simp add: vm_eval)
  show "VMError_text (ErrUnsupportedBinary BOOLEAN_OBJ BOOLEAN_OBJ) =
     ''unsupported types for binary operation: BOOLEAN BOOLEAN''"
    by simp
  show "\<exists>vm'. Run (vm_New \<lparr>Instructions = [OpTrue, OpTrue, OpAdd], Constants = []\<rparr> initial_heap) =
       Some (Ok () vm') \<and> sp vm' = 0"
    by (simp add: vm_eval)
  show "\<exists>c. Compile (Program [ExpressionStatement (InfixExpression (Boolean True) ''+'' (Boolean True))])
          (compiler_New initial_heap) = Ok () c \<and>
        instructions c = [OpTrue, OpTrue, OpAdd, OpPop] \<and>
        Run (vm_New (compiler_Bytecode c) (heap c)) = Some Panic"
    by (simp add: compile_eval) (simp add: vm_eval)
qed

lemma executeComparison_OpEqual:
  assumes "2 \<le> sp vm" and "sp vm \<le> length (stack vm)"
    and "deref (vm_heap vm) (stack vm ! (sp vm - 2)) = Some l"
    and "deref (vm_heap vm) (stack vm ! (sp vm - 1)) = Some r"
  shows "executeComparison OpEqual vm =
     push (nativeBoolToBooleanObject
             (case (l, r) of
                (IntegerObj a, IntegerObj b) \<Rightarrow> a = b
              | _ \<Rightarrow> stack vm ! (sp vm - 2) = stack vm ! (sp vm - 1)))
          (vm\<lparr>sp := sp vm - 2\<rparr>)"
proof -
  have p1: "pop vm = Ok (stack vm ! (sp vm - Suc 0)) (vm\<lparr>sp := sp vm - Suc 0\<rparr>)"
    using assms(1,2) by (simp add: pop_def)
  have p2: "pop (vm\<lparr>sp := sp vm - Suc 0\<rparr>) = Ok (stack vm ! (sp vm - 2)) (vm\<lparr>sp := sp vm - 2\<rparr>)"
    using assms(1,2) by (simp add: pop_def numeral_2_eq_2)
  show ?thesis
    using assms(3,4)
    by (cases l; cases r)
       (simp_all add: executeComparison_def bind_def p1 p2 Type_def
          executeIntegerComparison_def opcode_defs)
qed

text \<open>
  C9. \<open>OpEqual\<close> pops the right and the left operand; when both are integers it pushes
  the boolean of the comparison of their values, otherwise the boolean of the comparison
  of the two object references. So the program \<open>"a" == "a"\<close>, whose two constants are
  two objects, leaves \<open>False\<close> as last popped element, while \<open>true == true\<close>,
  \<open>false == false\<close> and the instructions \<open>OpNull; OpNull; OpEqual; OpPop\<close> leave \<open>True\<close>.
\<close>

theorem OpEqual_values_or_identity:
  assumes "2 \<le> sp vm" and "sp vm \<le> length (stack vm)"
    and "deref (vm_heap vm) (stack vm ! (sp vm - 2)) = Some l"
    and "deref (vm_heap vm) (stack vm ! (sp vm - 1)) = Some r"
  shows "executeComparison OpEqual vm =
     push (nativeBoolToBooleanObject
             (case (l, r) of
                (IntegerObj a, IntegerObj b) \<Rightarrow> a = b
              | _ \<Rightarrow> stack vm ! (sp vm - 2) = stack vm ! (sp vm - 1)))
          (vm\<lparr>sp := sp vm - 2\<rparr>) \<and>
    (\<exists>c m. Compile (Program [ExpressionStatement
                  (InfixExpression (StringLiteral ''a'') ''=='' (StringLiteral ''a''))])
                (compiler_New initial_heap) = Ok () c \<and>
              map (deref (heap c)) (constants c) = [Some (StringObj ''a''), Some (StringObj ''a'')] \<and>
              Run (vm_New (compiler_Bytecode c) (heap c)) = Some (Ok () m) \<and>
              LastPoppedStackElement m = Returns vm_False) \<and>
    (\<exists>c m. Compile (Program [ExpressionStatement
                  (InfixExpression (Boolean True) ''=='' (Boolean True))])
                (compiler_New initial_heap) = Ok () c \<and>
              Run (vm_New (compiler_Bytecode c) (heap c)) = Some (Ok () m) \<and>
              LastPoppedStackElement m = Returns vm_True) \<and>
    (\<exists>c m. Compile (Program [ExpressionStatement
                  (InfixExpression (Boolean False) ''=='' (Boolean False))])
                (compiler_New initial_heap) = Ok () c \<and>
              Run (vm_New (compiler_Bytecode c) (heap c)) = Some (Ok () m) \<and>
              LastPoppedStackElement m = Returns vm_True) \<and>
    (\<exists>m. Run (vm_New \<lparr>Instructions = [OpNull, OpNull, OpEqual, OpPop], Constants = []\<rparr>
                  initial_heap) = Some (Ok () m) \<and>
            LastPoppedStackElement m = Returns vm_True)"
proof (intro conjI)
  show "executeComparison OpEqual vm =
     push (nativeBoolToBooleanObject
             (case (l, r) of
                (IntegerObj a, IntegerObj b) \<Rightarrow> a = b
              | _ \<Rightarrow> stack vm ! (sp vm - 2) = stack vm ! (sp vm - 1)))
          (vm\<lparr>sp := sp vm - 2\<rparr>)"
    using assms by (rule executeComparison_OpEqual)
  show "\<exists>c m. Compile (Program [ExpressionStatement
                  (InfixExpression (StringLiteral ''a'') ''=='' (StringLiteral ''a''))])
                (compiler_New initial_heap) = Ok () c \<and>
              map (deref (heap c)) (constants c) = [Some (StringObj ''a''), Some (StringObj ''a'')] \<and>
              Run (vm_New (compiler_Bytecode c) (heap c)) = Some (Ok () m) \<and>
              LastPoppedStackElement m = Returns vm_False"
    by (simp add: compile_eval) (simp add: vm_eval)
  show "\<exists>c m. Compile (Program [ExpressionStatement
                  (InfixExpression (Boolean True) ''=='' (Boolean True))])
                (compiler_New initial_heap) = Ok () c \<and>
              Run (vm_New (compiler_Bytecode c) (heap c)) = Some (Ok () m) \<and>
              LastPoppedStackElement m = Returns vm_True"
    by (simp add: compile_eval) (simp add: vm_eval)
  show "\<exists>c m. Compile (Program [ExpressionStatement
                  (InfixExpression (Boolean False) ''=='' (Boolean False))])
                (compiler_New initial_heap) = Ok () c \<and>
              Run (vm_New (compiler_Bytecode c) (heap c)) = Some (Ok () m) \<and>
              LastPoppedStackElement m = Returns vm_True"
    by (simp add: compile_eval) (simp add: vm_eval)
  show "\<exists>m. Run (vm_New \<lparr>Instructions = [OpNull, OpNull, OpEqual, OpPop], Constants = []\<rparr>
                  initial_heap) = Some (Ok () m) \<and>
            LastPoppedStackElement m = Returns vm_True"
    by (simp add: vm_eval)
qed

text \<open>
  The theorem at two machines whose stack holds two operands: two string objects with
  the text \<open>a\<close> (at the addresses 3 and 4) compare unequal, two integer objects with the
  value 7 (at the addresses 5 and 6) compare equal.
\<close>

theorem OpEqual_values_or_identity_witness:
  "executeComparison OpEqual
     \<lparr>vm_constants = [], vm_instructions = [], global = [],
      stack = [Some 3, Some 4], sp = 2,
      vm_heap = initial_heap @ [StringObj ''a'', StringObj ''a'', IntegerObj 7, IntegerObj 7]\<rparr> =
   Ok () \<lparr>vm_constants = [], vm_instructions = [], global = [],
      stack = [vm_False, Some 4], sp = 1,
      vm_heap = initial_heap @ [StringObj ''a'', StringObj ''a'', IntegerObj 7, IntegerObj 7]\<rparr> \<and>
   executeComparison OpEqual
     \<lparr>vm_constants = [], vm_instructions = [], global = [],
      stack = [Some 5, Some 6], sp = 2,
      vm_heap = initial_heap @ [StringObj ''a'', StringObj ''a'', IntegerObj 7, IntegerObj 7]\<rparr> =
   Ok () \<lparr>vm_constants = [], vm_instructions = [], global = [],
      stack = [vm_True, Some 6], sp = 1,
      vm_heap = initial_heap @ [StringObj ''a'', StringObj ''a'', IntegerObj 7, IntegerObj 7]\<rparr>"
proof -
  let ?h = "initial_heap @ [StringObj ''a'', StringObj ''a'', IntegerObj 7, IntegerObj 7]"
  let ?s = "\<lparr>vm_constants = [], vm_instructions = [], global = [],
      stack = [Some 3, Some 4], sp = 2, vm_heap = ?h\<rparr>"
  let ?i = "\<lparr>vm_constants = [], vm_instructions = [], global = [],
      stack = [Some 5, Some 6], sp = 2, vm_heap = ?h\<rparr>"
  have s: "2 \<le> sp ?s" "sp ?s \<le> length (stack ?s)"
    "deref (vm_heap ?s) (stack ?s ! (sp ?s - 2)) = Some (StringObj ''a'')"
    "deref (vm_heap ?s) (stack ?s ! (sp ?s - 1)) = Some (StringObj ''a'')"
    by (simp_all add: deref_def initial_heap_def)
  have i: "2 \<le> sp ?i" "sp ?i \<le> length (stack ?i)"
    "deref (vm_heap ?i) (stack ?i ! (sp ?i - 2)) = Some (IntegerObj 7)"
    "deref (vm_heap ?i) (stack ?i ! (sp ?i - 1)) = Some (IntegerObj 7)"
    by (simp_all add: deref_def initial_heap_def)
  from OpEqual_values_or_identity [OF s] OpEqual_values_or_identity [OF i]
  show ?thesis
    by (simp add: push_def nativeBoolToBooleanObject_def StackSize_def)
qed

subsection \<open>The REPL\<close>

lemma after_Some: "after outs (Some (os, e)) = Some (outs @ os, e)"
  by (simp add: after_def)

lemma Compile_undefined_identifier:
  "Compile (Program [ExpressionStatement (Identifier x)]) (compiler_New h) =
     Err (ErrUndefinedIdentifier x) (compiler_New h)"
  by (simp add: bind_def compiler_New_def Resolve_def NewSymbolTable_def)

lemma Start_from_undefined_identifier:
  "Start_from h [Parsed [ExpressionStatement (Identifier x)]] =
     Some ([Prompt, CompilationFailed (ErrUndefinedIdentifier x), Prompt], Exited)"
  by (subst Start_from.simps, subst Compile_undefined_identifier) (simp add: after_def)

lemma Start_from_nonempty: "Start_from h ps = Some (outs, e) \<Longrightarrow> outs \<noteq> []"
  by (cases "(h, ps)" rule: Start_from.cases)
     (auto simp: after_def split: result.splits option.splits go.splits)

lemma Start_from_append_identifier:
  "Start_from h ps = Some (outs, Exited) \<Longrightarrow>
   Start_from h (ps @ [Parsed [ExpressionStatement (Identifier x)]]) =
     Some (butlast outs @ [Prompt, CompilationFailed (ErrUndefinedIdentifier x), Prompt], Exited)"
proof (induction h ps arbitrary: outs rule: Start_from.induct)
  case (1 h)
  then have "outs = [Prompt]" by simp
  then show ?case
    using Start_from_undefined_identifier [of h x] by simp
next
  case (2 h errs rest)
  then show ?case
    by (cases "Start_from h rest") (auto simp: after_def butlast_append dest: Start_from_nonempty split: if_splits)
next
  case (3 h program rest)
  show ?case
  proof (cases "Compile (Program program) (compiler_New h)")
    case (Ok u c)
    note compiled = this
    show ?thesis
    proof (cases "Run (vm_New (compiler_Bytecode c) (heap c))")
      case None
      with compiled "3.prems" show ?thesis by simp
    next
      case (Some r)
      show ?thesis
      proof (cases r)
        case (Ok u' machine)
        note ran = Some this
        show ?thesis
        proof (cases "LastPoppedStackElement machine")
          case (Returns stackTop)
          note top = this
          show ?thesis
          proof (cases "deref (vm_heap machine) stackTop")
            case None
            with compiled ran top "3.prems" show ?thesis by simp
          next
            case (Some d)
            with compiled ran top "3.prems" "3.IH"(1) [OF compiled ran(1) ran(2) top Some]
            show ?thesis
              by (cases "Start_from (vm_heap machine) rest")
                 (auto simp: after_def butlast_append dest: Start_from_nonempty split: if_splits)
          qed
        next
          case Panics
          with compiled ran "3.prems" show ?thesis by simp
        qed
      next
        case (Err e machine)
        with compiled Some "3.prems" "3.IH"(2) [OF compiled Some Err]
        show ?thesis
          by (cases "Start_from (vm_heap machine) rest")
             (auto simp: after_def butlast_append dest: Start_from_nonempty split: if_splits)
      next
        case Panic
        with compiled Some "3.prems" show ?thesis by simp
      qed
    qed
  next
    case (Err e c)
    with "3.prems" "3.IH"(3) [OF Err]
    show ?thesis
      by (cases "Start_from (heap c) rest")
         (auto simp: after_def butlast_append dest: Start_from_nonempty split: if_splits)
  next
    case Panic
    with "3.prems" show ?thesis by simp
  qed
qed

text \<open>
  C8, as the REPL does it. Every line is compiled by a new compiler, with a new symbol
  table, and run on a new VM; nothing is threaded from one line to the next. So after
  any earlier lines of a session that has not crashed, whatever they defined, a line
  that consists of an identifier \<open>x\<close> is answered by \<open>Compilation failed\<close> with the
  error \<open>undefined identifier x\<close>, and the session goes on to the next prompt.
\<close>

theorem repl_forgets_definitions:
  assumes "Start ps = Some (outs, Exited)"
  shows "Start (ps @ [Parsed [ExpressionStatement (Identifier x)]]) =
     Some (butlast outs @ [Prompt, CompilationFailed (ErrUndefinedIdentifier x), Prompt], Exited)"
  using assms unfolding Start_def by (rule Start_from_append_identifier)

theorem repl_forgets_definitions_witness:
  "Start [Parsed [LetStatement ''b'' (IntegerLiteral 5)]] =
     Some ([Prompt, Inspect (IntegerObj 5), Prompt], Exited) \<and>
   Start ([Parsed [LetStatement ''b'' (IntegerLiteral 5)]] @
          [Parsed [ExpressionStatement (Identifier ''b'')]]) =
     Some ([Prompt, Inspect (IntegerObj 5), Prompt,
            CompilationFailed (ErrUndefinedIdentifier ''b''), Prompt], Exited)"
proof -
  have s: "Start [Parsed [LetStatement ''b'' (IntegerLiteral 5)]] =
     Some ([Prompt, Inspect (IntegerObj 5), Prompt], Exited)"
    by (simp add: Start_def compile_eval) (simp add: vm_eval after_def)
  from repl_forgets_definitions [OF s, of "''b''"] s show ?thesis by simp
qed

text \<open>
  The claim C8 fails on the session \<open>let a = 1\<close>, \<open>a\<close>: the first line prints 1, the
  second line does not print 1 but fails to compile with \<open>undefined identifier a\<close>.
\<close>

theorem repl_let_then_identifier_fails:
  "Start [Parsed [LetStatement ''a'' (IntegerLiteral 1)],
          Parsed [ExpressionStatement (Identifier ''a'')]] =
     Some ([Prompt, Inspect (IntegerObj 1), Prompt,
            CompilationFailed (ErrUndefinedIdentifier ''a''), Prompt], Exited) \<and>
   CompileError_text (ErrUndefinedIdentifier ''a'') = ''undefined identifier a''"
  by (simp add: Start_def compile_eval) (simp add: vm_eval after_def compile_eval)

subsection \<open>Hash literals\<close>









subsection \<open>Single instructions\<close>

lemma exec_execOp: "exec vm ip = execOp (vm_instructions vm ! ip) (readOperand vm ip) ip vm"
  by (simp add: exec_def execOp_def Let_def)

lemma map_state_simps [simp]:
  "map_state f (Ok a s) = Ok a (f s)"
  "map_state f (Err e s) = Err e (f s)"
  "map_state f Panic = Panic"
  by (simp_all add: map_state_def)

lemma bind_map_state:
  assumes "\<And>a s. g a (f s) = map_state f (g a s)"
  shows "bind (map_state f r) g = map_state f (bind r g)"
  using assms by (cases r) (simp_all add: bind_def)

lemma push_ins:
  "push x (vm\<lparr>vm_instructions := I\<rparr>) = map_state (\<lambda>v. v\<lparr>vm_instructions := I\<rparr>) (push x vm)"
  by (simp add: push_def)

lemma pop_ins:
  "pop (vm\<lparr>vm_instructions := I\<rparr>) = map_state (\<lambda>v. v\<lparr>vm_instructions := I\<rparr>) (pop vm)"
  by (simp add: pop_def)

lemma pushNew_ins:
  "pushNew d (vm\<lparr>vm_instructions := I\<rparr>) = map_state (\<lambda>v. v\<lparr>vm_instructions := I\<rparr>) (pushNew d vm)"
  by (simp add: pushNew_def push_def alloc_def)

lemma Ok_ins:
  "Ok a (vm\<lparr>vm_instructions := I\<rparr>) = map_state (\<lambda>v. v\<lparr>vm_instructions := I\<rparr>) (Ok a vm)"
  by simp

lemma popElements_ins:
  "popElements n (vm\<lparr>vm_instructions := I\<rparr>) =
     map_state (\<lambda>v. v\<lparr>vm_instructions := I\<rparr>) (popElements n vm)"
proof (induction n arbitrary: vm)
  case 0
  show ?case by simp
next
  case (Suc n)
  have inner: "bind (popElements n (s\<lparr>vm_instructions := I\<rparr>)) (\<lambda>xs vm. Ok (xs @ [a]) vm) =
      map_state (\<lambda>v. v\<lparr>vm_instructions := I\<rparr>) (bind (popElements n s) (\<lambda>xs vm. Ok (xs @ [a]) vm))"
    for a s
    unfolding Suc by (rule bind_map_state) simp
  show ?case
    unfolding popElements.simps pop_ins by (rule bind_map_state) (rule inner)
qed

lemma popPairs_ins:
  "popPairs n ps (vm\<lparr>vm_instructions := I\<rparr>) =
     map_state (\<lambda>v. v\<lparr>vm_instructions := I\<rparr>) (popPairs n ps vm)"
proof (induction n arbitrary: vm ps)
  case 0
  show ?case by simp
next
  case (Suc n)
  have body: "(case deref (vm_heap (s\<lparr>vm_instructions := I\<rparr>)) key of
        None \<Rightarrow> Panic
      | Some d \<Rightarrow>
          if Hashable d then popPairs n (ps @ [(key, v)]) (s\<lparr>vm_instructions := I\<rparr>)
          else Err (ErrUnusableAsHashKey (typeOfData d)) (s\<lparr>vm_instructions := I\<rparr>)) =
      map_state (\<lambda>v. v\<lparr>vm_instructions := I\<rparr>)
       (case deref (vm_heap s) key of
        None \<Rightarrow> Panic
      | Some d \<Rightarrow>
          if Hashable d then popPairs n (ps @ [(key, v)]) s
          else Err (ErrUnusableAsHashKey (typeOfData d)) s)" for key v s
    by (simp add: Suc split: option.splits)
  have inner: "bind (pop (s\<lparr>vm_instructions := I\<rparr>)) (\<lambda>key vm.
      case deref (vm_heap vm) key of
        None \<Rightarrow> Panic
      | Some d \<Rightarrow>
          if Hashable d then popPairs n (ps @ [(key, v)]) vm
          else Err (ErrUnusableAsHashKey (typeOfData d)) vm) =
      map_state (\<lambda>v. v\<lparr>vm_instructions := I\<rparr>) (bind (pop s) (\<lambda>key vm.
      case deref (vm_heap vm) key of
        None \<Rightarrow> Panic
      | Some d \<Rightarrow>
          if Hashable d then popPairs n (ps @ [(key, v)]) vm
          else Err (ErrUnusableAsHashKey (typeOfData d)) vm))" for v s
    unfolding pop_ins by (rule bind_map_state) (rule body)
  show ?case
    unfolding popPairs.simps pop_ins by (rule bind_map_state) (rule inner)
qed

lemma executeBangOperator_ins:
  "executeBangOperator (vm\<lparr>vm_instructions := I\<rparr>) =
     map_state (\<lambda>v. v\<lparr>vm_instructions := I\<rparr>) (executeBangOperator vm)"
  unfolding executeBangOperator_def pop_ins
  by (rule bind_map_state) (simp add: push_ins)

lemma executeMinusOperator_ins:
  "executeMinusOperator (vm\<lparr>vm_instructions := I\<rparr>) =
     map_state (\<lambda>v. v\<lparr>vm_instructions := I\<rparr>) (executeMinusOperator vm)"
  unfolding executeMinusOperator_def pop_ins
  by (rule bind_map_state) (simp add: pushNew_ins split: option.splits objdata.splits)

lemma executeIntegerComparison_ins:
  "executeIntegerComparison op l r (vm\<lparr>vm_instructions := I\<rparr>) =
     map_state (\<lambda>v. v\<lparr>vm_instructions := I\<rparr>) (executeIntegerComparison op l r vm)"
  by (simp add: executeIntegerComparison_def push_ins split: option.splits objdata.splits)

lemma executeBinaryIntegerOberation_ins:
  "executeBinaryIntegerOberation op l r (vm\<lparr>vm_instructions := I\<rparr>) =
     map_state (\<lambda>v. v\<lparr>vm_instructions := I\<rparr>) (executeBinaryIntegerOberation op l r vm)"
  by (simp add: executeBinaryIntegerOberation_def pushNew_ins split: option.splits objdata.splits)

lemma executeBinaryStringOperation_ins:
  "executeBinaryStringOperation op l r (vm\<lparr>vm_instructions := I\<rparr>) =
     map_state (\<lambda>v. v\<lparr>vm_instructions := I\<rparr>) (executeBinaryStringOperation op l r vm)"
  by (simp add: executeBinaryStringOperation_def pushNew_ins split: option.splits objdata.splits)

lemma executeComparison_ins:
  "executeComparison op (vm\<lparr>vm_instructions := I\<rparr>) =
     map_state (\<lambda>v. v\<lparr>vm_instructions := I\<rparr>) (executeComparison op vm)"
  unfolding executeComparison_def pop_ins
  apply (rule bind_map_state)
  apply (simp only: pop_ins)
  apply (rule bind_map_state)
  apply (simp add: push_ins executeIntegerComparison_ins split: option.splits)
  done

lemma executeBinaryOperation_ins:
  "executeBinaryOperation op (vm\<lparr>vm_instructions := I\<rparr>) =
     map_state (\<lambda>v. v\<lparr>vm_instructions := I\<rparr>) (executeBinaryOperation op vm)"
  unfolding executeBinaryOperation_def pop_ins
  apply (rule bind_map_state)
  apply (simp only: pop_ins)
  apply (rule bind_map_state)
  apply (simp add: executeBinaryIntegerOberation_ins executeBinaryStringOperation_ins
      split: option.splits)
  done

lemma ignoreError_map_state:
  "ignoreError (map_state f r) = map_state f (ignoreError r)"
  by (cases r) (simp_all add: ignoreError_def)

subsection \<open>Paths\<close>

lemma path_at_refl: "path_at seg off a a 0 vm"
  unfolding path_at_def by (rule disjI1, rule exI [of _ vm]) simp

lemma path_at_weaken: "path_at seg off a b d vm \<Longrightarrow> d \<le> d' \<Longrightarrow> path_at seg off a b d' vm"
  unfolding path_at_def
proof (elim disjE exE conjE)
  fix vm'
  assume "d \<le> d'" and "int (sp vm') \<le> int (sp vm) + d"
    and r: "\<forall>pre post. length pre = off \<longrightarrow>
            Run_from (vm\<lparr>vm_instructions := pre @ seg @ post\<rparr>) (off + a) =
            Run_from (vm'\<lparr>vm_instructions := pre @ seg @ post\<rparr>) (off + b)"
  then have "int (sp vm') \<le> int (sp vm) + d'" by simp
  with r show "(\<exists>vm'. int (sp vm') \<le> int (sp vm) + d' \<and>
         (\<forall>pre post. length pre = off \<longrightarrow>
            Run_from (vm\<lparr>vm_instructions := pre @ seg @ post\<rparr>) (off + a) =
            Run_from (vm'\<lparr>vm_instructions := pre @ seg @ post\<rparr>) (off + b))) \<or>
      (\<forall>pre post. length pre = off \<longrightarrow>
         bad (Run_from (vm\<lparr>vm_instructions := pre @ seg @ post\<rparr>) (off + a)))"
    by (intro disjI1 exI [of _ vm']) simp
next
  assume "\<forall>pre post. length pre = off \<longrightarrow>
         bad (Run_from (vm\<lparr>vm_instructions := pre @ seg @ post\<rparr>) (off + a))"
  then show "(\<exists>vm'. int (sp vm') \<le> int (sp vm) + d' \<and>
         (\<forall>pre post. length pre = off \<longrightarrow>
            Run_from (vm\<lparr>vm_instructions := pre @ seg @ post\<rparr>) (off + a) =
            Run_from (vm'\<lparr>vm_instructions := pre @ seg @ post\<rparr>) (off + b))) \<or>
      (\<forall>pre post. length pre = off \<longrightarrow>
         bad (Run_from (vm\<lparr>vm_instructions := pre @ seg @ post\<rparr>) (off + a)))"
    by (intro disjI2)
qed

lemma path_at_step:
  assumes a: "a < length seg"
    and ex: "\<And>pre post. length pre = off \<Longrightarrow>
           exec (vm\<lparr>vm_instructions := pre @ seg @ post\<rparr>) (off + a) =
           map_state (\<lambda>v. v\<lparr>vm_instructions := pre @ seg @ post\<rparr>) R"
    and cont: "\<And>ip' vm1. R = Ok ip' vm1 \<Longrightarrow>
           \<exists>b. ip' = off + b \<and> int (sp vm1) \<le> int (sp vm) + d0 \<and> path_at seg off b c d1 vm1"
  shows "path_at seg off a c (d0 + d1) vm"
proof (cases R)
  case (Ok ip' vm1)
  from cont [OF Ok] obtain b where ip': "ip' = off + b"
    and spb: "int (sp vm1) \<le> int (sp vm) + d0" and p: "path_at seg off b c d1 vm1"
    by blast
  have step: "Run_from (vm\<lparr>vm_instructions := pre @ seg @ post\<rparr>) (off + a) =
      Run_from (vm1\<lparr>vm_instructions := pre @ seg @ post\<rparr>) (off + b)"
    if "length pre = off" for pre post
    using that a ex [OF that, of post] Ok ip' by (subst Run_from.simps) simp
  from p show ?thesis
    unfolding path_at_def
  proof (elim disjE exE conjE)
    fix vm'
    assume b: "int (sp vm') \<le> int (sp vm1) + d1"
      and r: "\<forall>pre post. length pre = off \<longrightarrow>
            Run_from (vm1\<lparr>vm_instructions := pre @ seg @ post\<rparr>) (off + b) =
            Run_from (vm'\<lparr>vm_instructions := pre @ seg @ post\<rparr>) (off + c)"
    from b spb have "int (sp vm') \<le> int (sp vm) + (d0 + d1)" by simp
    with r step show "(\<exists>vm'. int (sp vm') \<le> int (sp vm) + (d0 + d1) \<and>
         (\<forall>pre post. length pre = off \<longrightarrow>
            Run_from (vm\<lparr>vm_instructions := pre @ seg @ post\<rparr>) (off + a) =
            Run_from (vm'\<lparr>vm_instructions := pre @ seg @ post\<rparr>) (off + c))) \<or>
      (\<forall>pre post. length pre = off \<longrightarrow>
         bad (Run_from (vm\<lparr>vm_instructions := pre @ seg @ post\<rparr>) (off + a)))"
      by (intro disjI1 exI [of _ vm']) simp
  next
    assume "\<forall>pre post. length pre = off \<longrightarrow>
         bad (Run_from (vm1\<lparr>vm_instructions := pre @ seg @ post\<rparr>) (off + b))"
    with step show "(\<exists>vm'. int (sp vm') \<le> int (sp vm) + (d0 + d1) \<and>
         (\<forall>pre post. length pre = off \<longrightarrow>
            Run_from (vm\<lparr>vm_instructions := pre @ seg @ post\<rparr>) (off + a) =
            Run_from (vm'\<lparr>vm_instructions := pre @ seg @ post\<rparr>) (off + c))) \<or>
      (\<forall>pre post. length pre = off \<longrightarrow>
         bad (Run_from (vm\<lparr>vm_instructions := pre @ seg @ post\<rparr>) (off + a)))"
      by (intro disjI2) simp
  qed
next
  case (Err e vm1)
  have "bad (Run_from (vm\<lparr>vm_instructions := pre @ seg @ post\<rparr>) (off + a))"
    if "length pre = off" for pre post
    using that a ex [OF that, of post] Err by (subst Run_from.simps) (simp add: bad_def)
  then show ?thesis unfolding path_at_def by blast
next
  case Panic
  have "bad (Run_from (vm\<lparr>vm_instructions := pre @ seg @ post\<rparr>) (off + a))"
    if "length pre = off" for pre post
    using that a ex [OF that, of post] Panic by (subst Run_from.simps) (simp add: bad_def)
  then show ?thesis unfolding path_at_def by blast
qed

lemma path_at_trans:
  assumes "path_at seg off a b d1 vm"
    and "\<And>vm1. int (sp vm1) \<le> int (sp vm) + d1 \<Longrightarrow> path_at seg off b c d2 vm1"
  shows "path_at seg off a c (d1 + d2) vm"
  using assms(1) unfolding path_at_def
proof (elim disjE exE conjE)
  fix vm1
  assume b1: "int (sp vm1) \<le> int (sp vm) + d1"
    and r1: "\<forall>pre post. length pre = off \<longrightarrow>
            Run_from (vm\<lparr>vm_instructions := pre @ seg @ post\<rparr>) (off + a) =
            Run_from (vm1\<lparr>vm_instructions := pre @ seg @ post\<rparr>) (off + b)"
  from assms(2) [OF b1] show "(\<exists>vm'. int (sp vm') \<le> int (sp vm) + (d1 + d2) \<and>
         (\<forall>pre post. length pre = off \<longrightarrow>
            Run_from (vm\<lparr>vm_instructions := pre @ seg @ post\<rparr>) (off + a) =
            Run_from (vm'\<lparr>vm_instructions := pre @ seg @ post\<rparr>) (off + c))) \<or>
      (\<forall>pre post. length pre = off \<longrightarrow>
         bad (Run_from (vm\<lparr>vm_instructions := pre @ seg @ post\<rparr>) (off + a)))"
    unfolding path_at_def
  proof (elim disjE exE conjE)
    fix vm2
    assume b2: "int (sp vm2) \<le> int (sp vm1) + d2"
      and r2: "\<forall>pre post. length pre = off \<longrightarrow>
            Run_from (vm1\<lparr>vm_instructions := pre @ seg @ post\<rparr>) (off + b) =
            Run_from (vm2\<lparr>vm_instructions := pre @ seg @ post\<rparr>) (off + c)"
    from b1 b2 have "int (sp vm2) \<le> int (sp vm) + (d1 + d2)" by simp
    with r1 r2 show ?thesis by (intro disjI1 exI [of _ vm2]) simp
  next
    assume "\<forall>pre post. length pre = off \<longrightarrow>
         bad (Run_from (vm1\<lparr>vm_instructions := pre @ seg @ post\<rparr>) (off + b))"
    with r1 show ?thesis by (intro disjI2) simp
  qed
next
  assume "\<forall>pre post. length pre = off \<longrightarrow>
         bad (Run_from (vm\<lparr>vm_instructions := pre @ seg @ post\<rparr>) (off + a))"
  then show "(\<exists>vm'. int (sp vm') \<le> int (sp vm) + (d1 + d2) \<and>
         (\<forall>pre post. length pre = off \<longrightarrow>
            Run_from (vm\<lparr>vm_instructions := pre @ seg @ post\<rparr>) (off + a) =
            Run_from (vm'\<lparr>vm_instructions := pre @ seg @ post\<rparr>) (off + c))) \<or>
      (\<forall>pre post. length pre = off \<longrightarrow>
         bad (Run_from (vm\<lparr>vm_instructions := pre @ seg @ post\<rparr>) (off + a)))"
    by (intro disjI2)
qed

lemma path_trans:
  "path seg off a b d1 \<Longrightarrow> path seg off b c d2 \<Longrightarrow> path seg off a c (d1 + d2)"
  unfolding path_def by (blast intro: path_at_trans)

lemma path_weaken: "path seg off a b d \<Longrightarrow> d \<le> d' \<Longrightarrow> path seg off a b d'"
  unfolding path_def by (blast intro: path_at_weaken)

lemma path_refl: "path seg off a a 0"
  unfolding path_def by (intro allI) (rule path_at_refl)

text \<open>A region lies inside a longer sequence of bytes.\<close>

lemma path_embed:
  assumes "path s (off + length l) a b d"
  shows "path (l @ s @ r) off (length l + a) (length l + b) d"
  unfolding path_def path_at_def
proof (intro allI)
  fix vm
  from assms have "path_at s (off + length l) a b d vm" by (simp add: path_def)
  then show "(\<exists>vm'. int (sp vm') \<le> int (sp vm) + d \<and>
         (\<forall>pre post. length pre = off \<longrightarrow>
            Run_from (vm\<lparr>vm_instructions := pre @ (l @ s @ r) @ post\<rparr>) (off + (length l + a)) =
            Run_from (vm'\<lparr>vm_instructions := pre @ (l @ s @ r) @ post\<rparr>) (off + (length l + b)))) \<or>
      (\<forall>pre post. length pre = off \<longrightarrow>
         bad (Run_from (vm\<lparr>vm_instructions := pre @ (l @ s @ r) @ post\<rparr>) (off + (length l + a))))"
    unfolding path_at_def
  proof (elim disjE exE conjE)
    fix vm'
    assume b: "int (sp vm') \<le> int (sp vm) + d"
      and r: "\<forall>pre post. length pre = off + length l \<longrightarrow>
            Run_from (vm\<lparr>vm_instructions := pre @ s @ post\<rparr>) (off + length l + a) =
            Run_from (vm'\<lparr>vm_instructions := pre @ s @ post\<rparr>) (off + length l + b)"
    have "Run_from (vm\<lparr>vm_instructions := pre @ (l @ s @ r) @ post\<rparr>) (off + (length l + a)) =
            Run_from (vm'\<lparr>vm_instructions := pre @ (l @ s @ r) @ post\<rparr>) (off + (length l + b))"
      if "length pre = off" for pre post
      using r [rule_format, of "pre @ l" "r @ post"] that by (simp add: add.assoc)
    with b show ?thesis by (intro disjI1 exI [of _ vm']) simp
  next
    assume r: "\<forall>pre post. length pre = off + length l \<longrightarrow>
         bad (Run_from (vm\<lparr>vm_instructions := pre @ s @ post\<rparr>) (off + length l + a))"
    have "bad (Run_from (vm\<lparr>vm_instructions := pre @ (l @ s @ r) @ post\<rparr>) (off + (length l + a)))"
      if "length pre = off" for pre post
      using r [rule_format, of "pre @ l" "r @ post"] that by (simp add: add.assoc)
    then show ?thesis by (intro disjI2) simp
  qed
qed

lemma region_embed:
  "region s (off + length l) d \<Longrightarrow> path (l @ s @ r) off (length l) (length l + length s) d"
  using path_embed [of s off l 0 "length s" d r] by (simp add: region_def)

lemma region_nil: "region [] off 0"
  unfolding region_def by (simp add: path_refl)

lemma region_weaken: "region s off d \<Longrightarrow> d \<le> d' \<Longrightarrow> region s off d'"
  unfolding region_def by (rule path_weaken)

lemma region_seq:
  assumes "region s1 off d1" and "region s2 (off + length s1) d2"
  shows "region (s1 @ s2) off (d1 + d2)"
proof -
  from region_embed [of s1 off "[]" d1 s2] assms(1)
  have p1: "path (s1 @ s2) off 0 (length s1) d1" by simp
  from region_embed [of s2 off s1 d2 "[]"] assms(2)
  have p2: "path (s1 @ s2) off (length s1) (length s1 + length s2) d2" by simp
  from path_trans [OF p1 p2] show ?thesis by (simp add: region_def)
qed

subsection \<open>The instructions the compiler emits\<close>

lemma nth_middle: "length pre = off \<Longrightarrow> (pre @ (l @ x # r) @ post) ! (off + length l) = x"
  by (simp add: nth_append)

lemma drop_middle:
  "length pre = off \<Longrightarrow> drop (off + length l + 1) (pre @ (l @ x # r) @ post) = r @ post"
  by simp

lemma readOperand_middle:
  "length pre = off \<Longrightarrow>
   readOperand (vm\<lparr>vm_instructions := pre @ (l @ op # PutUint16 w @ r) @ post\<rparr>) (off + length l) =
     Some (unat w)"
  using ReadUint16_PutUint16 [of w "r @ post"] by (simp add: readOperand_def)

lemma length_PutUint16 [simp]: "length (PutUint16 w) = 2"
  by (simp add: PutUint16_def)

lemma step_op0:
  assumes F: "\<And>x ip vm. execOp op x ip vm = bind (f vm) (\<lambda>_. Ok (ip + 1))"
    and fins: "\<And>vm I. f (vm\<lparr>vm_instructions := I\<rparr>) = map_state (\<lambda>v. v\<lparr>vm_instructions := I\<rparr>) (f vm)"
    and pre: "length pre = off"
  shows "exec (vm\<lparr>vm_instructions := pre @ (l @ op # r) @ post\<rparr>) (off + length l) =
     map_state (\<lambda>v. v\<lparr>vm_instructions := pre @ (l @ op # r) @ post\<rparr>)
       (bind (f vm) (\<lambda>_. Ok (off + length l + 1)))"
proof -
  have "exec (vm\<lparr>vm_instructions := pre @ (l @ op # r) @ post\<rparr>) (off + length l) =
      bind (f (vm\<lparr>vm_instructions := pre @ (l @ op # r) @ post\<rparr>)) (\<lambda>_. Ok (off + length l + 1))"
    unfolding exec_execOp using nth_middle [OF pre, of l op r post] by (simp add: F)
  also have "\<dots> = map_state (\<lambda>v. v\<lparr>vm_instructions := pre @ (l @ op # r) @ post\<rparr>)
       (bind (f vm) (\<lambda>_. Ok (off + length l + 1)))"
    unfolding fins by (rule bind_map_state) simp
  finally show ?thesis .
qed

lemma path_op0:
  assumes F: "\<And>x ip vm. execOp op x ip vm = bind (f vm) (\<lambda>_. Ok (ip + 1))"
    and fins: "\<And>vm I. f (vm\<lparr>vm_instructions := I\<rparr>) = map_state (\<lambda>v. v\<lparr>vm_instructions := I\<rparr>) (f vm)"
    and eff: "\<And>vm u vm'. f vm = Ok u vm' \<Longrightarrow> int (sp vm') \<le> int (sp vm) + d"
  shows "path (l @ op # r) off (length l) (length l + 1) d"
  unfolding path_def
proof (intro allI)
  fix vm
  have "path_at (l @ op # r) off (length l) (length l + 1) (d + 0) vm"
  proof (rule path_at_step [where R = "bind (f vm) (\<lambda>_. Ok (off + length l + 1))"])
    show "length l < length (l @ op # r)" by simp
    show "exec (vm\<lparr>vm_instructions := pre @ (l @ op # r) @ post\<rparr>) (off + length l) =
           map_state (\<lambda>v. v\<lparr>vm_instructions := pre @ (l @ op # r) @ post\<rparr>)
             (bind (f vm) (\<lambda>_. Ok (off + length l + 1)))" if "length pre = off" for pre post
      using F fins that by (rule step_op0)
    show "\<exists>b. ip' = off + b \<and> int (sp vm1) \<le> int (sp vm) + d \<and>
            path_at (l @ op # r) off b (length l + 1) 0 vm1"
      if "bind (f vm) (\<lambda>_. Ok (off + length l + 1)) = Ok ip' vm1" for ip' vm1
    proof -
      from that obtain u where "f vm = Ok u vm1" and "ip' = off + (length l + 1)"
        by (cases "f vm") (simp_all add: bind_def)
      with eff show ?thesis by (intro exI [of _ "length l + 1"]) (simp add: path_at_refl)
    qed
  qed
  then show "path_at (l @ op # r) off (length l) (length l + 1) d vm" by simp
qed

lemma step_op1:
  assumes F: "\<And>ip vm. execOp op (Some (unat w)) ip vm = g ip vm"
    and gins: "\<And>ip vm I. g ip (vm\<lparr>vm_instructions := I\<rparr>) = map_state (\<lambda>v. v\<lparr>vm_instructions := I\<rparr>) (g ip vm)"
    and pre: "length pre = off"
  shows "exec (vm\<lparr>vm_instructions := pre @ (l @ op # PutUint16 w @ r) @ post\<rparr>) (off + length l) =
     map_state (\<lambda>v. v\<lparr>vm_instructions := pre @ (l @ op # PutUint16 w @ r) @ post\<rparr>)
       (g (off + length l) vm)"
  unfolding exec_execOp readOperand_middle [OF pre]
  using nth_middle [OF pre, of l op "PutUint16 w @ r" post] by (simp add: F gins)

lemma path_op1:
  assumes F: "\<And>ip vm. execOp op (Some (unat w)) ip vm = g ip vm"
    and gins: "\<And>ip vm I. g ip (vm\<lparr>vm_instructions := I\<rparr>) = map_state (\<lambda>v. v\<lparr>vm_instructions := I\<rparr>) (g ip vm)"
    and eff: "\<And>ip vm ip' vm'. g ip vm = Ok ip' vm' \<Longrightarrow> ip' = ip + 3 \<and> int (sp vm') \<le> int (sp vm) + d"
  shows "path (l @ op # PutUint16 w @ r) off (length l) (length l + 3) d"
  unfolding path_def
proof (intro allI)
  fix vm
  let ?seg = "l @ op # PutUint16 w @ r"
  have "path_at ?seg off (length l) (length l + 3) (d + 0) vm"
  proof (rule path_at_step [where R = "g (off + length l) vm"])
    show "length l < length ?seg" by simp
    show "exec (vm\<lparr>vm_instructions := pre @ ?seg @ post\<rparr>) (off + length l) =
           map_state (\<lambda>v. v\<lparr>vm_instructions := pre @ ?seg @ post\<rparr>) (g (off + length l) vm)"
      if "length pre = off" for pre post
      using F gins that by (rule step_op1)
    show "\<exists>b. ip' = off + b \<and> int (sp vm1) \<le> int (sp vm) + d \<and>
            path_at ?seg off b (length l + 3) 0 vm1"
      if "g (off + length l) vm = Ok ip' vm1" for ip' vm1
      using eff [OF that] by (intro exI [of _ "length l + 3"]) (simp add: path_at_refl)
  qed
  then show "path_at ?seg off (length l) (length l + 3) d vm" by simp
qed

lemma execOp_OpJump: "execOp OpJump (Some t) ip vm = Ok t vm"
  by (simp add: execOp_def opcode_defs OpHash_def)

lemma path_jump:
  assumes t: "unat w = off + b"
  shows "path (l @ OpJump # PutUint16 w @ r) off (length l) b 0"
  unfolding path_def
proof (intro allI)
  fix vm
  let ?seg = "l @ OpJump # PutUint16 w @ r"
  have "path_at ?seg off (length l) b (0 + 0) vm"
  proof (rule path_at_step [where R = "Ok (off + b) vm"])
    show "length l < length ?seg" by simp
    show "exec (vm\<lparr>vm_instructions := pre @ ?seg @ post\<rparr>) (off + length l) =
           map_state (\<lambda>v. v\<lparr>vm_instructions := pre @ ?seg @ post\<rparr>) (Ok (off + b) vm)"
      if "length pre = off" for pre post
      unfolding exec_execOp readOperand_middle [OF that]
      using nth_middle [OF that, of l OpJump "PutUint16 w @ r" post] t
      by (simp add: execOp_OpJump)
    show "\<exists>b'. ip' = off + b' \<and> int (sp vm1) \<le> int (sp vm) + 0 \<and> path_at ?seg off b' b 0 vm1"
      if "Ok (off + b) vm = Ok ip' vm1" for ip' vm1
      using that by (intro exI [of _ b]) (auto simp: path_at_refl)
  qed
  then show "path_at ?seg off (length l) b 0 vm" by simp
qed

lemma execOp_OpJumpNotTruthy:
  "execOp OpJumpNotTruthy (Some t) ip vm =
     bind (pop vm) (\<lambda>condition vm.
        if \<not> isTruthy (vm_heap vm) condition then Ok t vm else Ok (ip + 3) vm)"
  by (simp add: execOp_def opcode_defs OpHash_def)

lemma path_jnt:
  assumes t: "unat w = off + b"
    and seg: "seg = l @ OpJumpNotTruthy # PutUint16 w @ r"
    and fall: "path seg off (length l + 3) c d"
    and jump: "path seg off b c d"
  shows "path seg off (length l) c (- 1 + d)"
  unfolding path_def
proof (intro allI)
  fix vm
  let ?R = "bind (pop vm) (\<lambda>condition vm.
        if \<not> isTruthy (vm_heap vm) condition then Ok (off + b) vm else Ok (off + length l + 3) vm)"
  show "path_at seg off (length l) c (- 1 + d) vm"
  proof (rule path_at_step [where R = ?R])
    show "length l < length seg" by (simp add: seg)
    show "exec (vm\<lparr>vm_instructions := pre @ seg @ post\<rparr>) (off + length l) =
           map_state (\<lambda>v. v\<lparr>vm_instructions := pre @ seg @ post\<rparr>) ?R"
      if "length pre = off" for pre post
    proof -
      have "exec (vm\<lparr>vm_instructions := pre @ seg @ post\<rparr>) (off + length l) =
         bind (pop (vm\<lparr>vm_instructions := pre @ seg @ post\<rparr>)) (\<lambda>condition vm.
            if \<not> isTruthy (vm_heap vm) condition then Ok (off + b) vm else Ok (off + length l + 3) vm)"
        unfolding exec_execOp seg readOperand_middle [OF that]
        using nth_middle [OF that, of l OpJumpNotTruthy "PutUint16 w @ r" post] t
        by (simp add: execOp_OpJumpNotTruthy)
      also have "\<dots> = map_state (\<lambda>v. v\<lparr>vm_instructions := pre @ seg @ post\<rparr>) ?R"
        unfolding pop_ins by (rule bind_map_state) simp
      finally show ?thesis .
    qed
    show "\<exists>b'. ip' = off + b' \<and> int (sp vm1) \<le> int (sp vm) + - 1 \<and> path_at seg off b' c d vm1"
      if "?R = Ok ip' vm1" for ip' vm1
    proof -
      from that obtain x vm0 where p: "pop vm = Ok x vm0"
        by (cases "pop vm") (simp_all add: bind_def)
      then have sp0: "int (sp vm0) \<le> int (sp vm) + - 1" by (auto simp: pop_def split: if_splits)
      from that p have "(ip' = off + b \<or> ip' = off + (length l + 3)) \<and> vm1 = vm0"
        by (auto simp: bind_def split: if_splits)
      with sp0 fall jump show ?thesis
        unfolding path_def by (elim conjE disjE) (rule exI [of _ b], simp, rule exI [of _ "length l + 3"], simp)
    qed
  qed
qed

text \<open>An outcome of a call that pushes one value when it returns.\<close>

lemma push_sp:
  "push x vm = Ok u vm' \<Longrightarrow> sp vm' = sp vm + 1"
  "push x vm = Err e vm' \<Longrightarrow> sp vm' = sp vm"
  by (auto simp: push_def split: if_splits)

lemma pushNew_sp:
  "pushNew d vm = Ok u vm' \<Longrightarrow> sp vm' = sp vm + 1"
  "pushNew d vm = Err e vm' \<Longrightarrow> sp vm' = sp vm"
  by (auto simp: pushNew_def alloc_def push_def split: if_splits)

lemma pop_sp: "pop vm = Ok x vm' \<Longrightarrow> sp vm' + 1 = sp vm"
  by (auto simp: pop_def split: if_splits)

lemma executeIntegerComparison_sp:
  "executeIntegerComparison op l r vm = Ok u vm' \<Longrightarrow> sp vm' = sp vm + 1"
  "executeIntegerComparison op l r vm = Err e vm' \<Longrightarrow> sp vm' = sp vm"
  by (auto simp: executeIntegerComparison_def dest: push_sp
        split: option.splits objdata.splits if_splits)

lemma executeBinaryIntegerOberation_sp:
  "executeBinaryIntegerOberation op l r vm = Ok u vm' \<Longrightarrow> sp vm' = sp vm + 1"
  "executeBinaryIntegerOberation op l r vm = Err e vm' \<Longrightarrow> sp vm' = sp vm"
  by (auto simp: executeBinaryIntegerOberation_def dest: pushNew_sp
        split: option.splits objdata.splits if_splits)

lemma executeBinaryStringOperation_sp:
  "executeBinaryStringOperation op l r vm = Ok u vm' \<Longrightarrow> sp vm' = sp vm + 1"
  "executeBinaryStringOperation op l r vm = Err e vm' \<Longrightarrow> sp vm' = sp vm"
  by (auto simp: executeBinaryStringOperation_def dest: pushNew_sp
        split: option.splits objdata.splits if_splits)

lemma bind_Ok_iff: "bind r f = Ok b s' \<longleftrightarrow> (\<exists>a s. r = Ok a s \<and> f a s = Ok b s')"
  by (cases r) (simp_all add: bind_def)

lemma bind_Err_iff:
  "bind r f = Err e s' \<longleftrightarrow> r = Err e s' \<or> (\<exists>a s. r = Ok a s \<and> f a s = Err e s')"
  by (cases r) (auto simp: bind_def)

lemma ignoreError_Ok_iff:
  "ignoreError r = Ok u s \<longleftrightarrow> (\<exists>u'. r = Ok u' s) \<or> (\<exists>e. r = Err e s)"
  by (cases r) (auto simp: ignoreError_def)

lemma pop_not_Err: "pop vm \<noteq> Err e vm'"
  by (simp add: pop_def)

lemma executeBinaryOperation_sp:
  "ignoreError (executeBinaryOperation op vm) = Ok u vm' \<Longrightarrow> int (sp vm') \<le> int (sp vm) + - 1"
  unfolding ignoreError_Ok_iff executeBinaryOperation_def bind_Ok_iff bind_Err_iff
  by (elim disjE exE conjE)
     (auto simp: pop_not_Err
        dest!: pop_sp executeBinaryIntegerOberation_sp executeBinaryStringOperation_sp
        split: option.splits if_splits)

lemma executeComparison_sp:
  "ignoreError (executeComparison op vm) = Ok u vm' \<Longrightarrow> int (sp vm') \<le> int (sp vm) + - 1"
  unfolding ignoreError_Ok_iff executeComparison_def bind_Ok_iff bind_Err_iff
  by (elim disjE exE conjE)
     (auto simp: pop_not_Err
        dest!: pop_sp executeIntegerComparison_sp push_sp
        split: option.splits if_splits)

lemma executeBangOperator_sp:
  "executeBangOperator vm = Ok u vm' \<Longrightarrow> int (sp vm') \<le> int (sp vm) + 0"
  unfolding executeBangOperator_def bind_Ok_iff
  by (elim exE conjE) (auto dest!: pop_sp push_sp split: if_splits)

lemma executeMinusOperator_sp:
  "executeMinusOperator vm = Ok u vm' \<Longrightarrow> int (sp vm') \<le> int (sp vm) + 0"
  unfolding executeMinusOperator_def bind_Ok_iff
  by (elim exE conjE) (auto dest!: pop_sp pushNew_sp split: option.splits objdata.splits)

lemma popElements_sp: "popElements n vm = Ok es vm' \<Longrightarrow> sp vm' + n = sp vm"
proof (induction n arbitrary: vm es vm')
  case 0
  then show ?case by simp
next
  case (Suc n)
  from Suc.prems obtain x vm1 xs where "pop vm = Ok x vm1" and "popElements n vm1 = Ok xs vm'"
    by (auto simp: bind_Ok_iff)
  with Suc.IH [of vm1 xs vm'] show ?case by (auto dest!: pop_sp)
qed

lemma ignoreError_ins:
  assumes "\<And>vm I. f (vm\<lparr>vm_instructions := I\<rparr>) = map_state (\<lambda>v. v\<lparr>vm_instructions := I\<rparr>) (f vm)"
  shows "ignoreError (f (vm\<lparr>vm_instructions := I\<rparr>)) =
     map_state (\<lambda>v. v\<lparr>vm_instructions := I\<rparr>) (ignoreError (f vm))"
  by (simp add: assms ignoreError_map_state)

lemma path_OpPop: "path (l @ OpPop # r) off (length l) (length l + 1) (- 1)"
proof (rule path_op0 [where f = pop])
  show "execOp OpPop x ip vm = bind (pop vm) (\<lambda>_. Ok (ip + 1))" for x ip vm
    by (simp add: execOp_def opcode_defs OpHash_def)
  show "pop (vm\<lparr>vm_instructions := I\<rparr>) = map_state (\<lambda>v. v\<lparr>vm_instructions := I\<rparr>) (pop vm)" for vm I
    by (rule pop_ins)
  show "int (sp vm') \<le> int (sp vm) + - 1" if "pop vm = Ok u vm'" for vm u vm'
    using pop_sp [OF that] by simp
qed

lemma path_push_singleton:
  assumes "op = OpNull \<and> x = vm_Null \<or> op = OpTrue \<and> x = vm_True \<or> op = OpFalse \<and> x = vm_False"
  shows "path (l @ op # r) off (length l) (length l + 1) 1"
proof (rule path_op0 [where f = "push x"])
  show "execOp op y ip vm = bind (push x vm) (\<lambda>_. Ok (ip + 1))" for y ip vm
    using assms by (auto simp: execOp_def opcode_defs OpHash_def)
  show "push x (vm\<lparr>vm_instructions := I\<rparr>) = map_state (\<lambda>v. v\<lparr>vm_instructions := I\<rparr>) (push x vm)" for vm I
    by (rule push_ins)
  show "int (sp vm') \<le> int (sp vm) + 1" if "push x vm = Ok u vm'" for vm u vm'
    using push_sp(1) [OF that] by simp
qed

lemma path_binary:
  assumes "op \<in> {OpAdd, OpSub, OpMul, OpDiv}"
  shows "path (l @ op # r) off (length l) (length l + 1) (- 1)"
proof (rule path_op0 [where f = "\<lambda>vm. ignoreError (executeBinaryOperation op vm)"])
  show "execOp op y ip vm = bind (ignoreError (executeBinaryOperation op vm)) (\<lambda>_. Ok (ip + 1))" for y ip vm
    using assms by (auto simp: execOp_def opcode_defs OpHash_def)
  show "ignoreError (executeBinaryOperation op (vm\<lparr>vm_instructions := I\<rparr>)) =
      map_state (\<lambda>v. v\<lparr>vm_instructions := I\<rparr>) (ignoreError (executeBinaryOperation op vm))" for vm I
    by (simp add: executeBinaryOperation_ins ignoreError_map_state)
  show "int (sp vm') \<le> int (sp vm) + - 1"
    if "ignoreError (executeBinaryOperation op vm) = Ok u vm'" for vm u vm'
    using that by (rule executeBinaryOperation_sp)
qed

lemma path_comparison:
  assumes "op \<in> {OpEqual, OpNotEqual, OpLessThan, OpGreaterThan}"
  shows "path (l @ op # r) off (length l) (length l + 1) (- 1)"
proof (rule path_op0 [where f = "\<lambda>vm. ignoreError (executeComparison op vm)"])
  show "execOp op y ip vm = bind (ignoreError (executeComparison op vm)) (\<lambda>_. Ok (ip + 1))" for y ip vm
    using assms by (auto simp: execOp_def opcode_defs OpHash_def)
  show "ignoreError (executeComparison op (vm\<lparr>vm_instructions := I\<rparr>)) =
      map_state (\<lambda>v. v\<lparr>vm_instructions := I\<rparr>) (ignoreError (executeComparison op vm))" for vm I
    by (simp add: executeComparison_ins ignoreError_map_state)
  show "int (sp vm') \<le> int (sp vm) + - 1"
    if "ignoreError (executeComparison op vm) = Ok u vm'" for vm u vm'
    using that by (rule executeComparison_sp)
qed

lemma path_OpBang: "path (l @ OpBang # r) off (length l) (length l + 1) 0"
proof (rule path_op0 [where f = executeBangOperator])
  show "execOp OpBang y ip vm = bind (executeBangOperator vm) (\<lambda>_. Ok (ip + 1))" for y ip vm
    by (simp add: execOp_def opcode_defs OpHash_def)
  show "executeBangOperator (vm\<lparr>vm_instructions := I\<rparr>) =
      map_state (\<lambda>v. v\<lparr>vm_instructions := I\<rparr>) (executeBangOperator vm)" for vm I
    by (rule executeBangOperator_ins)
  show "int (sp vm') \<le> int (sp vm) + 0" if "executeBangOperator vm = Ok u vm'" for vm u vm'
    using that by (rule executeBangOperator_sp)
qed

lemma path_OpMinus: "path (l @ OpMinus # r) off (length l) (length l + 1) 0"
proof (rule path_op0 [where f = executeMinusOperator])
  show "execOp OpMinus y ip vm = bind (executeMinusOperator vm) (\<lambda>_. Ok (ip + 1))" for y ip vm
    by (simp add: execOp_def opcode_defs OpHash_def)
  show "executeMinusOperator (vm\<lparr>vm_instructions := I\<rparr>) =
      map_state (\<lambda>v. v\<lparr>vm_instructions := I\<rparr>) (executeMinusOperator vm)" for vm I
    by (rule executeMinusOperator_ins)
  show "int (sp vm') \<le> int (sp vm) + 0" if "executeMinusOperator vm = Ok u vm'" for vm u vm'
    using that by (rule executeMinusOperator_sp)
qed

lemma path_OpConstant: "path (l @ OpConstant # PutUint16 w @ r) off (length l) (length l + 3) 1"
proof (rule path_op1 [where g = "\<lambda>ip vm.
     if unat w < length (vm_constants vm) then
       bind (push (vm_constants vm ! unat w) vm) (\<lambda>_. Ok (ip + 3))
     else Panic"])
  show "execOp OpConstant (Some (unat w)) ip vm =
     (if unat w < length (vm_constants vm) then
       bind (push (vm_constants vm ! unat w) vm) (\<lambda>_. Ok (ip + 3))
     else Panic)" for ip vm
    by (simp add: execOp_def opcode_defs OpHash_def)
  show "(if unat w < length (vm_constants (vm\<lparr>vm_instructions := I\<rparr>)) then
       bind (push (vm_constants (vm\<lparr>vm_instructions := I\<rparr>) ! unat w) (vm\<lparr>vm_instructions := I\<rparr>))
         (\<lambda>_. Ok (ip + 3))
     else Panic) =
     map_state (\<lambda>v. v\<lparr>vm_instructions := I\<rparr>)
      (if unat w < length (vm_constants vm) then
       bind (push (vm_constants vm ! unat w) vm) (\<lambda>_. Ok (ip + 3))
     else Panic)" for ip vm I
    by (simp add: push_ins bind_map_state)
  show "ip' = ip + 3 \<and> int (sp vm') \<le> int (sp vm) + 1"
    if "(if unat w < length (vm_constants vm) then
       bind (push (vm_constants vm ! unat w) vm) (\<lambda>_. Ok (ip + 3))
     else Panic) = Ok ip' vm'" for ip vm ip' vm'
    using that by (auto simp: bind_Ok_iff dest!: push_sp(1) split: if_splits)
qed

lemma path_OpGetGlobal: "path (l @ OpGetGlobal # PutUint16 w @ r) off (length l) (length l + 3) 1"
proof (rule path_op1 [where g = "\<lambda>ip vm.
     if unat w < length (global vm) then
       bind (push (global vm ! unat w) vm) (\<lambda>_. Ok (ip + 3))
     else Panic"])
  show "execOp OpGetGlobal (Some (unat w)) ip vm =
     (if unat w < length (global vm) then
       bind (push (global vm ! unat w) vm) (\<lambda>_. Ok (ip + 3))
     else Panic)" for ip vm
    by (simp add: execOp_def opcode_defs OpHash_def)
  show "(if unat w < length (global (vm\<lparr>vm_instructions := I\<rparr>)) then
       bind (push (global (vm\<lparr>vm_instructions := I\<rparr>) ! unat w) (vm\<lparr>vm_instructions := I\<rparr>))
         (\<lambda>_. Ok (ip + 3))
     else Panic) =
     map_state (\<lambda>v. v\<lparr>vm_instructions := I\<rparr>)
      (if unat w < length (global vm) then
       bind (push (global vm ! unat w) vm) (\<lambda>_. Ok (ip + 3))
     else Panic)" for ip vm I
    by (simp add: push_ins bind_map_state)
  show "ip' = ip + 3 \<and> int (sp vm') \<le> int (sp vm) + 1"
    if "(if unat w < length (global vm) then
       bind (push (global vm ! unat w) vm) (\<lambda>_. Ok (ip + 3))
     else Panic) = Ok ip' vm'" for ip vm ip' vm'
    using that by (auto simp: bind_Ok_iff dest!: push_sp(1) split: if_splits)
qed

lemma path_OpSetGlobal: "path (l @ OpSetGlobal # PutUint16 w @ r) off (length l) (length l + 3) (- 1)"
proof (rule path_op1 [where g = "\<lambda>ip vm.
     bind (pop vm) (\<lambda>v vm.
       if unat w < length (global vm) then
         Ok (ip + 3) (vm\<lparr>global := (global vm)[unat w := v]\<rparr>)
       else Panic)"])
  show "execOp OpSetGlobal (Some (unat w)) ip vm =
     bind (pop vm) (\<lambda>v vm.
       if unat w < length (global vm) then
         Ok (ip + 3) (vm\<lparr>global := (global vm)[unat w := v]\<rparr>)
       else Panic)" for ip vm
    by (simp add: execOp_def opcode_defs OpHash_def)
  show "bind (pop (vm\<lparr>vm_instructions := I\<rparr>)) (\<lambda>v vm.
       if unat w < length (global vm) then
         Ok (ip + 3) (vm\<lparr>global := (global vm)[unat w := v]\<rparr>)
       else Panic) =
     map_state (\<lambda>v. v\<lparr>vm_instructions := I\<rparr>)
      (bind (pop vm) (\<lambda>v vm.
       if unat w < length (global vm) then
         Ok (ip + 3) (vm\<lparr>global := (global vm)[unat w := v]\<rparr>)
       else Panic))" for ip vm I
    unfolding pop_ins by (rule bind_map_state) simp
  show "ip' = ip + 3 \<and> int (sp vm') \<le> int (sp vm) + - 1"
    if "bind (pop vm) (\<lambda>v vm.
       if unat w < length (global vm) then
         Ok (ip + 3) (vm\<lparr>global := (global vm)[unat w := v]\<rparr>)
       else Panic) = Ok ip' vm'" for ip vm ip' vm'
    using that by (auto simp: bind_Ok_iff dest!: pop_sp split: if_splits)
qed

lemma path_OpArray:
  "path (l @ OpArray # PutUint16 w @ r) off (length l) (length l + 3) (1 - int (unat w))"
proof (rule path_op1 [where g = "\<lambda>ip vm.
     bind (popElements (unat w) vm) (\<lambda>es vm.
     bind (pushNew (ArrayObj es) vm) (\<lambda>_. Ok (ip + 3)))"])
  show "execOp OpArray (Some (unat w)) ip vm =
     bind (popElements (unat w) vm) (\<lambda>es vm.
     bind (pushNew (ArrayObj es) vm) (\<lambda>_. Ok (ip + 3)))" for ip vm
    by (simp add: execOp_def opcode_defs OpHash_def)
  show "bind (popElements (unat w) (vm\<lparr>vm_instructions := I\<rparr>)) (\<lambda>es vm.
     bind (pushNew (ArrayObj es) vm) (\<lambda>_. Ok (ip + 3))) =
     map_state (\<lambda>v. v\<lparr>vm_instructions := I\<rparr>)
      (bind (popElements (unat w) vm) (\<lambda>es vm.
       bind (pushNew (ArrayObj es) vm) (\<lambda>_. Ok (ip + 3))))" for ip vm I
    unfolding popElements_ins
    by (rule bind_map_state) (simp add: pushNew_ins bind_map_state)
  show "ip' = ip + 3 \<and> int (sp vm') \<le> int (sp vm) + (1 - int (unat w))"
    if "bind (popElements (unat w) vm) (\<lambda>es vm.
     bind (pushNew (ArrayObj es) vm) (\<lambda>_. Ok (ip + 3))) = Ok ip' vm'" for ip vm ip' vm'
  proof -
    from that obtain es vm1 where a: "popElements (unat w) vm = Ok es vm1"
      and b: "bind (pushNew (ArrayObj es) vm1) (\<lambda>_. Ok (ip + 3)) = Ok ip' vm'"
      by (auto simp: bind_Ok_iff)
    from b obtain u where c: "pushNew (ArrayObj es) vm1 = Ok u vm'" and d: "ip' = ip + 3"
      by (auto simp: bind_Ok_iff)
    from popElements_sp [OF a] pushNew_sp(1) [OF c] have "sp vm' + unat w = sp vm + 1" by simp
    then have "int (sp vm' + unat w) = int (sp vm + 1)" by simp
    then have "int (sp vm') \<le> int (sp vm) + (1 - int (unat w))"
      by (simp del: of_nat_unat)
    with d show ?thesis by simp
  qed
qed

subsection \<open>Compiled code is made of regions\<close>

lemma emit0:
  "op \<in> zero_ops \<Longrightarrow>
   emit op [] c =
     Ok (length (instructions c))
        (c\<lparr>instructions := instructions c @ [op],
           previousInstruction := lastInstruction c,
           lastInstruction := \<lparr>OpCode = op, Position = length (instructions c)\<rparr>\<rparr>)"
  by (auto simp: zero_ops_def emit_def Make_def definitions_def opcode_defs
        addInstruction_def setLastInstruction_def)

lemma Make1:
  "op \<in> one_ops \<Longrightarrow> Make op [v] = Some (op # PutUint16 (word_of_int v))"
  by (auto simp: one_ops_def Make_def definitions_def opcode_defs)

lemma emit1:
  "op \<in> one_ops \<Longrightarrow>
   emit op [v] c =
     Ok (length (instructions c))
        (c\<lparr>instructions := instructions c @ op # PutUint16 (word_of_int v),
           previousInstruction := lastInstruction c,
           lastInstruction := \<lparr>OpCode = op, Position = length (instructions c)\<rparr>\<rparr>)"
  by (simp add: emit_def Make1 addInstruction_def setLastInstruction_def)

lemma region_op0:
  assumes "path ([] @ op # []) off (length ([] :: byte list)) (length ([] :: byte list) + 1) d"
  shows "region [op] off d"
  using assms by (simp add: region_def)

lemma region_op1:
  assumes "path ([] @ op # PutUint16 w @ []) off (length ([] :: byte list)) (length ([] :: byte list) + 3) d"
  shows "region (op # PutUint16 w) off d"
  using assms by (simp add: region_def)

lemma region_zero_op:
  "op \<in> {OpNull, OpTrue, OpFalse} \<Longrightarrow> region [op] off 1"
  "op \<in> {OpAdd, OpSub, OpMul, OpDiv, OpEqual, OpNotEqual, OpLessThan, OpGreaterThan, OpPop}
     \<Longrightarrow> region [op] off (- 1)"
  "op \<in> {OpBang, OpMinus} \<Longrightarrow> region [op] off 0"
proof -
  show "op \<in> {OpNull, OpTrue, OpFalse} \<Longrightarrow> region [op] off 1"
    using path_push_singleton [of op vm_Null "[]" "[]" off]
      path_push_singleton [of op vm_True "[]" "[]" off]
      path_push_singleton [of op vm_False "[]" "[]" off]
    by (auto intro!: region_op0)
  show "op \<in> {OpAdd, OpSub, OpMul, OpDiv, OpEqual, OpNotEqual, OpLessThan, OpGreaterThan, OpPop}
     \<Longrightarrow> region [op] off (- 1)"
    using path_binary [of op "[]" "[]" off] path_comparison [of op "[]" "[]" off]
      path_OpPop [of "[]" "[]" off]
    by (auto intro!: region_op0)
  show "op \<in> {OpBang, OpMinus} \<Longrightarrow> region [op] off 0"
    using path_OpBang [of "[]" "[]" off] path_OpMinus [of "[]" "[]" off]
    by (auto intro!: region_op0)
qed

lemma region_one_op:
  "region (OpConstant # PutUint16 w) off 1"
  "region (OpGetGlobal # PutUint16 w) off 1"
  "region (OpSetGlobal # PutUint16 w) off (- 1)"
  "region (OpArray # PutUint16 w) off (1 - int (unat w))"
  by (rule region_op1, rule path_OpConstant)
     (rule region_op1, rule path_OpGetGlobal,
      rule region_op1, rule path_OpSetGlobal,
      rule region_op1, rule path_OpArray)

lemma expr_ok_single:
  assumes "instructions c' = instructions c @ seg" and "seg \<noteq> []"
    and "region seg (length (instructions c)) 1"
  shows "expr_ok c c'"
  using assms unfolding expr_ok_def by blast

lemma expr_ok_then:
  assumes e: "expr_ok c c1"
    and i: "instructions c' = instructions c1 @ seg"
    and r: "region seg (length (instructions c1)) 0"
  shows "expr_ok c c'"
proof -
  from e obtain seg1 where s1: "instructions c1 = instructions c @ seg1" "seg1 \<noteq> []"
    and r1: "length (instructions c1) \<le> 65535 \<longrightarrow> region seg1 (length (instructions c)) 1"
    unfolding expr_ok_def by blast
  have "region (seg1 @ seg) (length (instructions c)) 1" if "length (instructions c') \<le> 65535"
  proof -
    from that i have "length (instructions c1) \<le> 65535" by simp
    with r1 have "region seg1 (length (instructions c)) 1" by simp
    moreover from r s1 have "region seg (length (instructions c) + length seg1) 0" by simp
    ultimately have "region (seg1 @ seg) (length (instructions c)) (1 + 0)" by (rule region_seq)
    then show ?thesis by simp
  qed
  with s1 i show ?thesis unfolding expr_ok_def by (intro exI [of _ "seg1 @ seg"]) simp
qed

lemma expr_ok_binary:
  assumes e1: "expr_ok c c1" and e2: "expr_ok c1 c2"
    and i: "instructions c' = instructions c2 @ seg"
    and r: "region seg (length (instructions c2)) (- 1)"
  shows "expr_ok c c'"
proof -
  from e1 obtain seg1 where s1: "instructions c1 = instructions c @ seg1" "seg1 \<noteq> []"
    and r1: "length (instructions c1) \<le> 65535 \<longrightarrow> region seg1 (length (instructions c)) 1"
    unfolding expr_ok_def by blast
  from e2 obtain seg2 where s2: "instructions c2 = instructions c1 @ seg2"
    and r2: "length (instructions c2) \<le> 65535 \<longrightarrow> region seg2 (length (instructions c1)) 1"
    unfolding expr_ok_def by blast
  have "region (seg1 @ seg2 @ seg) (length (instructions c)) 1"
    if "length (instructions c') \<le> 65535"
  proof -
    from that i s2 have b: "length (instructions c1) \<le> 65535" "length (instructions c2) \<le> 65535"
      by simp_all
    with r1 r2 have a1: "region seg1 (length (instructions c)) 1"
      and a2: "region seg2 (length (instructions c) + length seg1) 1" using s1 by simp_all
    from r s1 s2 have a3: "region seg (length (instructions c) + length seg1 + length seg2) (- 1)"
      by (simp add: add.assoc)
    from a2 a3 have "region (seg2 @ seg) (length (instructions c) + length seg1) (1 + - 1)"
      by (rule region_seq)
    with a1 have "region (seg1 @ seg2 @ seg) (length (instructions c)) (1 + (1 + - 1))"
      by (rule region_seq)
    then show ?thesis by simp
  qed
  with s1 s2 i show ?thesis unfolding expr_ok_def by (intro exI [of _ "seg1 @ seg2 @ seg"]) simp
qed

lemma unat_word16_of_nat: "n < 65536 \<Longrightarrow> unat (word_of_int (int n) :: 16 word) = n"
  by (simp add: unat_of_nat)

lemma exprs_ok_nil: "exprs_ok 0 c c"
  unfolding exprs_ok_def by (intro exI [of _ "[]"]) (simp add: region_nil)

lemma exprs_ok_cons:
  assumes e: "expr_ok c c1" and es: "exprs_ok n c1 c'"
  shows "exprs_ok (Suc n) c c'"
proof -
  from e obtain seg1 where s1: "instructions c1 = instructions c @ seg1" "seg1 \<noteq> []"
    and r1: "length (instructions c1) \<le> 65535 \<longrightarrow> region seg1 (length (instructions c)) 1"
    unfolding expr_ok_def by blast
  from es obtain seg2 where s2: "instructions c' = instructions c1 @ seg2" "n \<le> length seg2"
    and r2: "length (instructions c') \<le> 65535 \<longrightarrow> region seg2 (length (instructions c1)) (int n)"
    unfolding exprs_ok_def by blast
  have "region (seg1 @ seg2) (length (instructions c)) (int (Suc n))"
    if "length (instructions c') \<le> 65535"
  proof -
    from that s2 have "length (instructions c1) \<le> 65535" by simp
    with r1 have a1: "region seg1 (length (instructions c)) 1" by simp
    from that r2 s1 have a2: "region seg2 (length (instructions c) + length seg1) (int n)" by simp
    from a1 a2 have "region (seg1 @ seg2) (length (instructions c)) (1 + int n)"
      by (rule region_seq)
    then show ?thesis by simp
  qed
  moreover from s1 s2 have "Suc n \<le> length (seg1 @ seg2)"
    by (cases seg1) simp_all
  ultimately show ?thesis
    using s1 s2 unfolding exprs_ok_def by (intro exI [of _ "seg1 @ seg2"]) simp
qed

lemma expr_ok_array:
  assumes es: "exprs_ok n c c1"
    and i: "instructions c' = instructions c1 @ OpArray # PutUint16 (word_of_int (int n))"
  shows "expr_ok c c'"
proof -
  from es obtain seg1 where s1: "instructions c1 = instructions c @ seg1" "n \<le> length seg1"
    and r1: "length (instructions c1) \<le> 65535 \<longrightarrow> region seg1 (length (instructions c)) (int n)"
    unfolding exprs_ok_def by blast
  let ?seg = "seg1 @ OpArray # PutUint16 (word_of_int (int n))"
  have "region ?seg (length (instructions c)) 1" if "length (instructions c') \<le> 65535"
  proof -
    from that i have b: "length (instructions c1) \<le> 65535" by simp
    with s1 have "n < 65536" by simp
    then have u: "unat (word_of_int (int n) :: 16 word) = n" by (rule unat_word16_of_nat)
    from b r1 have a1: "region seg1 (length (instructions c)) (int n)" by simp
    have a2: "region (OpArray # PutUint16 (word_of_int (int n)))
        (length (instructions c) + length seg1) (1 - int n)"
      using region_one_op(4) [of "word_of_int (int n)" "length (instructions c) + length seg1"]
      by (simp only: u)
    from a1 a2 have "region ?seg (length (instructions c)) (int n + (1 - int n))"
      by (rule region_seq)
    then show ?thesis by simp
  qed
  with s1 i show ?thesis unfolding expr_ok_def by (intro exI [of _ ?seg]) simp
qed

lemma stmt_ok_expression:
  assumes e: "expr_ok c c1"
    and i: "instructions c' = instructions c1 @ [OpPop]"
    and l: "lastInstruction c' = \<lparr>OpCode = OpPop, Position = length (instructions c1)\<rparr>"
  shows "stmt_ok c c'"
proof -
  from e obtain seg1 where s1: "instructions c1 = instructions c @ seg1" "seg1 \<noteq> []"
    and r1: "length (instructions c1) \<le> 65535 \<longrightarrow> region seg1 (length (instructions c)) 1"
    unfolding expr_ok_def by blast
  have "region (seg1 @ [OpPop]) (length (instructions c)) 0"
    if "length (instructions c') \<le> 65535"
  proof -
    from that i r1 have a1: "region seg1 (length (instructions c)) 1" by simp
    have a2: "region [OpPop] (length (instructions c) + length seg1) (- 1)"
      by (rule region_zero_op(2)) simp
    from a1 a2 have "region (seg1 @ [OpPop]) (length (instructions c)) (1 + - 1)"
      by (rule region_seq)
    then show ?thesis by simp
  qed
  moreover have "tail_ok c c'"
    unfolding tail_ok_def using i l s1 r1 by (intro impI conjI exI [of _ seg1]) simp_all
  ultimately show ?thesis
    using s1 i unfolding stmt_ok_def by (intro conjI exI [of _ "seg1 @ [OpPop]"]) simp_all
qed

lemma stmt_ok_let:
  assumes e: "expr_ok c c1"
    and i: "instructions c' = instructions c1 @ OpSetGlobal # PutUint16 w"
    and l: "OpCode (lastInstruction c') = OpSetGlobal"
  shows "stmt_ok c c'"
proof -
  from e obtain seg1 where s1: "instructions c1 = instructions c @ seg1" "seg1 \<noteq> []"
    and r1: "length (instructions c1) \<le> 65535 \<longrightarrow> region seg1 (length (instructions c)) 1"
    unfolding expr_ok_def by blast
  let ?seg = "seg1 @ OpSetGlobal # PutUint16 w"
  have "region ?seg (length (instructions c)) 0" if "length (instructions c') \<le> 65535"
  proof -
    from that i r1 have a1: "region seg1 (length (instructions c)) 1" by simp
    have a2: "region (OpSetGlobal # PutUint16 w) (length (instructions c) + length seg1) (- 1)"
      by (rule region_one_op(3))
    from a1 a2 have "region ?seg (length (instructions c)) (1 + - 1)"
      by (rule region_seq)
    then show ?thesis by simp
  qed
  moreover have "tail_ok c c'"
    unfolding tail_ok_def lastInstructionIsPop_def using l by (simp add: opcode_defs)
  ultimately show ?thesis
    using s1 i unfolding stmt_ok_def by (intro conjI exI [of _ ?seg]) simp_all
qed

lemma stmts_ok_nil: "stmts_ok c c"
  unfolding stmts_ok_def by (intro conjI exI [of _ "[]"]) (simp_all add: region_nil)

lemma stmts_ok_cons:
  assumes s: "stmt_ok c c1" and ss: "stmts_ok c1 c'"
  shows "stmts_ok c c'"
proof -
  from s obtain seg1 where s1: "instructions c1 = instructions c @ seg1"
    and r1: "length (instructions c1) \<le> 65535 \<longrightarrow> region seg1 (length (instructions c)) 0"
    and t1: "tail_ok c c1"
    unfolding stmt_ok_def by blast
  from ss obtain seg2 where s2: "instructions c' = instructions c1 @ seg2"
    and r2: "length (instructions c') \<le> 65535 \<longrightarrow> region seg2 (length (instructions c1)) 0"
    and t2: "c' = c1 \<or> tail_ok c1 c'"
    unfolding stmts_ok_def by blast
  have "region (seg1 @ seg2) (length (instructions c)) 0" if "length (instructions c') \<le> 65535"
  proof -
    from that s2 r1 have a1: "region seg1 (length (instructions c)) 0" by simp
    from that r2 s1 have a2: "region seg2 (length (instructions c) + length seg1) 0" by simp
    from a1 a2 have "region (seg1 @ seg2) (length (instructions c)) (0 + 0)"
      by (rule region_seq)
    then show ?thesis by simp
  qed
  moreover have "tail_ok c c'"
  proof (cases "c' = c1")
    case True
    with t1 show ?thesis by simp
  next
    case False
    with t2 have t: "tail_ok c1 c'" by simp
    show ?thesis
      unfolding tail_ok_def
    proof (intro impI)
      assume p: "lastInstructionIsPop c'"
      with t obtain seg0 where pos: "Position (lastInstruction c') + 1 = length (instructions c')"
        and s0: "instructions c' = instructions c1 @ seg0 @ [OpPop]"
        and r0: "length (instructions c1) + length seg0 \<le> 65535 \<longrightarrow>
                   region seg0 (length (instructions c1)) 1"
        unfolding tail_ok_def by blast
      have "region (seg1 @ seg0) (length (instructions c)) 1"
        if "length (instructions c) + length (seg1 @ seg0) \<le> 65535"
      proof -
        from that s1 have b: "length (instructions c1) \<le> 65535"
          "length (instructions c1) + length seg0 \<le> 65535" by simp_all
        from b r1 have a1: "region seg1 (length (instructions c)) 0" by simp
        from b r0 s1 have a2: "region seg0 (length (instructions c) + length seg1) 1" by simp
        from a1 a2 have "region (seg1 @ seg0) (length (instructions c)) (0 + 1)"
          by (rule region_seq)
        then show ?thesis by simp
      qed
      with pos s0 s1 show "Position (lastInstruction c') + 1 = length (instructions c') \<and>
        (\<exists>seg0. instructions c' = instructions c @ seg0 @ [OpPop] \<and>
          (length (instructions c) + length seg0 \<le> 65535 \<longrightarrow>
             region seg0 (length (instructions c)) 1))"
        by (intro conjI exI [of _ "seg1 @ seg0"]) simp_all
    qed
  qed
  ultimately show ?thesis
    using s1 s2 unfolding stmts_ok_def by (intro conjI exI [of _ "seg1 @ seg2"] disjI2) simp_all
qed

text \<open>A block of an if expression, after the removal of its last \<open>OpPop\<close>.\<close>

lemma block_ok:
  assumes ss: "stmts_ok c2 c3" and np: "\<not> lastInstructionIsPop c2"
    and rem: "(if lastInstructionIsPop c3 then removeLastPop c3 else Ok () c3) = Ok () c4"
  shows "\<exists>seg. instructions c4 = instructions c2 @ seg \<and>
           (length (instructions c4) \<le> 65535 \<longrightarrow> region seg (length (instructions c2)) 1)"
proof -
  from ss obtain seg where s: "instructions c3 = instructions c2 @ seg"
    and r: "length (instructions c3) \<le> 65535 \<longrightarrow> region seg (length (instructions c2)) 0"
    and t: "c3 = c2 \<or> tail_ok c2 c3"
    unfolding stmts_ok_def by blast
  show ?thesis
  proof (cases "lastInstructionIsPop c3")
    case False
    with rem have "c4 = c3" by simp
    with s r show ?thesis
      by (intro exI [of _ seg]) (auto intro: region_weaken)
  next
    case True
    with np t have "tail_ok c2 c3" by auto
    with True obtain seg0 where pos: "Position (lastInstruction c3) + 1 = length (instructions c3)"
      and s0: "instructions c3 = instructions c2 @ seg0 @ [OpPop]"
      and r0: "length (instructions c2) + length seg0 \<le> 65535 \<longrightarrow>
                 region seg0 (length (instructions c2)) 1"
      unfolding tail_ok_def by blast
    from pos s0 have p: "Position (lastInstruction c3) = length (instructions c2) + length seg0"
      by simp
    from rem True p s0 have "instructions c4 = instructions c2 @ seg0"
      by (auto simp: removeLastPop_def split: if_splits)
    with r0 show ?thesis by (intro exI [of _ seg0]) simp
  qed
qed

lemma path_cong:
  "path seg off a b d \<Longrightarrow> seg = seg' \<Longrightarrow> a = a' \<Longrightarrow> b = b' \<Longrightarrow> path seg' off a' b' d"
  by simp

lemma region_cong: "region seg off d \<Longrightarrow> off = off' \<Longrightarrow> region seg off' d"
  by simp

lemma region_if:
  assumes rA: "region A off 1"
    and rB: "region B (off + length A + 3) 1"
    and rC: "region C (off + length A + 3 + length B + 3) 1"
    and t: "unat wt = off + length A + 3 + length B + 3"
    and e: "unat we = off + length A + 3 + length B + 3 + length C"
  shows "region (A @ OpJumpNotTruthy # PutUint16 wt @ B @ OpJump # PutUint16 we @ C) off 1"
proof -
  let ?seg = "A @ OpJumpNotTruthy # PutUint16 wt @ B @ OpJump # PutUint16 we @ C"
  let ?l1 = "A @ OpJumpNotTruthy # PutUint16 wt"
  let ?l2 = "A @ OpJumpNotTruthy # PutUint16 wt @ B"
  let ?l3 = "A @ OpJumpNotTruthy # PutUint16 wt @ B @ OpJump # PutUint16 we"
  let ?n = "length A + 3 + length B + 3 + length C"
  have rA': "region A (off + length ([] :: byte list)) 1"
    using rA by simp
  have rB': "region B (off + length ?l1) 1"
    by (rule region_cong [OF rB]) simp
  have rC': "region C (off + length ?l3) 1"
    by (rule region_cong [OF rC]) simp
  have pA: "path ?seg off 0 (length A) 1"
    by (rule path_cong [OF region_embed [OF rA', of "OpJumpNotTruthy # PutUint16 wt @ B @ OpJump # PutUint16 we @ C"]])
      simp_all
  have pB: "path ?seg off (length A + 3) (length A + 3 + length B) 1"
    by (rule path_cong [OF region_embed [OF rB', of "OpJump # PutUint16 we @ C"]]) simp_all
  have pJ: "path ?seg off (length A + 3 + length B) ?n 0"
    by (rule path_cong [OF path_jump [of we off ?n ?l2 C]]) (simp_all add: e)
  have pC: "path ?seg off (length A + 3 + length B + 3) ?n 1"
    by (rule path_cong [OF region_embed [OF rC', of "[]"]]) simp_all
  from pB pJ have "path ?seg off (length A + 3) ?n (1 + 0)"
    by (rule path_trans)
  then have fall: "path ?seg off (length A + 3) ?n 1" by simp
  have "path ?seg off (length A) ?n (- 1 + 1)"
  proof (rule path_jnt [where w = wt and b = "length A + 3 + length B + 3"
        and r = "B @ OpJump # PutUint16 we @ C"])
    show "unat wt = off + (length A + 3 + length B + 3)" using t by simp
    show "?seg = A @ OpJumpNotTruthy # PutUint16 wt @ B @ OpJump # PutUint16 we @ C" by simp
    show "path ?seg off (length A + 3) ?n 1" by (rule fall)
    show "path ?seg off (length A + 3 + length B + 3) ?n 1" by (rule pC)
  qed
  with pA have "path ?seg off 0 ?n (1 + (- 1 + 1))" by (rule path_trans)
  then have "path ?seg off 0 ?n 1" by simp
  then have "path ?seg off 0 (length ?seg) 1"
    by (rule path_cong) simp_all
  then show ?thesis by (simp only: region_def)
qed

lemma replaceBytes_middle:
  "length old = length new \<Longrightarrow> replaceBytes (length l) new (l @ old @ r) = Some (l @ new @ r)"
proof (induction new arbitrary: l old)
  case Nil
  then show ?case by simp
next
  case (Cons b bs)
  then obtain a as where old: "old = a # as" "length as = length bs"
    by (cases old) simp_all
  have "(l @ old @ r)[length l := b] = (l @ [b]) @ as @ r"
    by (simp add: old list_update_append)
  moreover have "replaceBytes (length (l @ [b])) bs ((l @ [b]) @ as @ r) = Some ((l @ [b]) @ bs @ r)"
    using old(2) by (rule Cons.IH)
  ultimately show ?case by (simp add: old)
qed

lemma changeOperand_patch:
  assumes i: "instructions c = l @ op # PutUint16 w0 @ r" and op: "op \<in> one_ops"
  shows "changeOperand (length l) v c =
     Ok () (c\<lparr>instructions := l @ op # PutUint16 (word_of_int v) @ r\<rparr>)"
proof -
  have "replaceBytes (length l) (op # PutUint16 (word_of_int v)) (l @ (op # PutUint16 w0) @ r) =
      Some (l @ (op # PutUint16 (word_of_int v)) @ r)"
    by (rule replaceBytes_middle) simp
  with i op show ?thesis
    by (simp add: changeOperand_def Make1 replaceInstruction_def nth_append)
qed

lemma Compile_Statements_ok:
  assumes "\<And>s c c'. s \<in> set ss \<Longrightarrow> Compile_Statement s c = Ok () c' \<Longrightarrow> stmt_ok c c'"
  shows "Compile_Statements ss c = Ok () c' \<Longrightarrow> stmts_ok c c'"
  using assms
proof (induction ss arbitrary: c)
  case Nil
  then show ?case by (simp add: stmts_ok_nil)
next
  case (Cons s ss)
  from Cons.prems(1) obtain c1 where c1: "Compile_Statement s c = Ok () c1"
    and rest: "Compile_Statements ss c1 = Ok () c'"
    by (auto simp: bind_Ok_iff)
  from Cons.prems(2) [OF _ c1] have "stmt_ok c c1" by simp
  moreover have "stmts_ok c1 c'"
  proof (rule Cons.IH [OF rest])
    fix s' d d'
    assume "s' \<in> set ss" "Compile_Statement s' d = Ok () d'"
    then show "stmt_ok d d'" using Cons.prems(2) [of s' d d'] by simp
  qed
  ultimately show ?case by (rule stmts_ok_cons)
qed

lemma Compile_Expressions_ok:
  assumes "\<And>e c c'. e \<in> set es \<Longrightarrow> Compile_Expression e c = Ok () c' \<Longrightarrow> expr_ok c c'"
  shows "Compile_Expressions es c = Ok () c' \<Longrightarrow> exprs_ok (length es) c c'"
  using assms
proof (induction es arbitrary: c)
  case Nil
  then show ?case by (simp add: exprs_ok_nil)
next
  case (Cons e es)
  from Cons.prems(1) obtain c1 where c1: "Compile_Expression e c = Ok () c1"
    and rest: "Compile_Expressions es c1 = Ok () c'"
    by (auto simp: bind_Ok_iff)
  from Cons.prems(2) [OF _ c1] have "expr_ok c c1" by simp
  moreover have "exprs_ok (length es) c1 c'"
  proof (rule Cons.IH [OF rest])
    fix e' d d'
    assume "e' \<in> set es" "Compile_Expression e' d = Ok () d'"
    then show "expr_ok d d'" using Cons.prems(2) [of e' d d'] by simp
  qed
  ultimately show ?case by (simp add: exprs_ok_cons)
qed

lemma bind_OkE:
  assumes "bind r f = Ok b s'"
  obtains a s where "r = Ok a s" and "f a s = Ok b s'"
  using assms by (auto simp: bind_Ok_iff)

lemma bind_unit_OkE:
  assumes "bind r f = Ok b s'"
  obtains s where "r = Ok () s" and "f () s = Ok b s'"
  using assms by (auto simp: bind_Ok_iff)

lemma emit0_instructions:
  assumes "op \<in> zero_ops" and "bind (emit op [] c) (\<lambda>_. Ok ()) = Ok () c'"
  shows "instructions c' = instructions c @ [op]"
    and "lastInstruction c' = \<lparr>OpCode = op, Position = length (instructions c)\<rparr>"
  using assms by (auto simp: emit0 bind_def)

lemma emit1_instructions:
  assumes "op \<in> one_ops" and "bind (emit op [v] c) (\<lambda>_. Ok ()) = Ok () c'"
  shows "instructions c' = instructions c @ op # PutUint16 (word_of_int v)"
    and "lastInstruction c' = \<lparr>OpCode = op, Position = length (instructions c)\<rparr>"
  using assms by (auto simp: emit1 bind_def)

lemma compile_push_ok:
  assumes "op \<in> {OpNull, OpTrue, OpFalse}" and "bind (emit op [] c) (\<lambda>_. Ok ()) = Ok () c'"
  shows "expr_ok c c'"
proof (rule expr_ok_single)
  from assms(1) have z: "op \<in> zero_ops" by (auto simp: zero_ops_def)
  show "instructions c' = instructions c @ [op]" by (rule emit0_instructions(1) [OF z assms(2)])
  show "[op] \<noteq> []" by simp
  show "region [op] (length (instructions c)) 1" by (rule region_zero_op(1) [OF assms(1)])
qed

lemma compile_Boolean_ok:
  assumes "Compile_Expression (Boolean b) c = Ok () c'"
  shows "expr_ok c c'"
  using assms compile_push_ok [of OpTrue c c'] compile_push_ok [of OpFalse c c']
  by (simp split: if_splits)

lemma compile_constant_ok:
  assumes "bind (emit OpConstant [v] c) (\<lambda>_. Ok ()) = Ok () c'"
    and "instructions c = instructions c0"
  shows "expr_ok c0 c'"
proof (rule expr_ok_single)
  have o: "OpConstant \<in> one_ops" by (simp add: one_ops_def)
  show "instructions c' = instructions c0 @ OpConstant # PutUint16 (word_of_int v)"
    using emit1_instructions(1) [OF o assms(1)] assms(2) by simp
  show "OpConstant # PutUint16 (word_of_int v) \<noteq> []" by simp
  show "region (OpConstant # PutUint16 (word_of_int v)) (length (instructions c0)) 1"
    by (rule region_one_op(1))
qed

lemma compile_IntegerLiteral_ok:
  assumes "Compile_Expression (IntegerLiteral v) c = Ok () c'"
  shows "expr_ok c c'"
  using assms
  by (simp add: alloc_def addConstant_def) (erule compile_constant_ok, simp)

lemma compile_StringLiteral_ok:
  assumes "Compile_Expression (StringLiteral v) c = Ok () c'"
  shows "expr_ok c c'"
  using assms
  by (simp add: alloc_def addConstant_def) (erule compile_constant_ok, simp)

lemma compile_Identifier_ok:
  assumes "Compile_Expression (Identifier name) c = Ok () c'"
  shows "expr_ok c c'"
proof -
  from assms obtain symbol :: Symbol where
    e: "bind (emit OpGetGlobal [int (Index symbol)] c) (\<lambda>_. Ok ()) = Ok () c'"
    by (auto split: option.splits)
  have o: "OpGetGlobal \<in> one_ops" by (simp add: one_ops_def)
  show ?thesis
  proof (rule expr_ok_single)
    show "instructions c' = instructions c @ OpGetGlobal # PutUint16 (word_of_int (int (Index symbol)))"
      by (rule emit1_instructions(1) [OF o e])
    show "OpGetGlobal # PutUint16 (word_of_int (int (Index symbol))) \<noteq> []" by simp
    show "region (OpGetGlobal # PutUint16 (word_of_int (int (Index symbol)))) (length (instructions c)) 1"
      by (rule region_one_op(2))
  qed
qed

lemma compile_Prefix_ok:
  assumes IH: "\<And>c c'. Compile_Expression right c = Ok () c' \<Longrightarrow> expr_ok c c'"
    and comp: "Compile_Expression (PrefixExpression operator right) c = Ok () c'"
  shows "expr_ok c c'"
proof -
  from comp obtain c1 where 1: "Compile_Expression right c = Ok () c1"
    and 2: "(if operator = ''!'' then bind (emit OpBang [] c1) (\<lambda>_. Ok ())
      else if operator = ''-'' then bind (emit OpMinus [] c1) (\<lambda>_. Ok ())
      else Err (ErrUnknownPrefixOperator operator) c1) = Ok () c'"
    by (auto simp: bind_Ok_iff)
  from 2 obtain op where op: "op \<in> {OpBang, OpMinus}"
    and e: "bind (emit op [] c1) (\<lambda>_. Ok ()) = Ok () c'"
    by (auto split: if_splits)
  from op have z: "op \<in> zero_ops" by (auto simp: zero_ops_def)
  from IH [OF 1] show ?thesis
  proof (rule expr_ok_then)
    show "instructions c' = instructions c1 @ [op]" by (rule emit0_instructions(1) [OF z e])
    show "region [op] (length (instructions c1)) 0" by (rule region_zero_op(3) [OF op])
  qed
qed

lemma compile_Infix_ok:
  assumes IH1: "\<And>c c'. Compile_Expression left c = Ok () c' \<Longrightarrow> expr_ok c c'"
    and IH2: "\<And>c c'. Compile_Expression right c = Ok () c' \<Longrightarrow> expr_ok c c'"
    and comp: "Compile_Expression (InfixExpression left operator right) c = Ok () c'"
  shows "expr_ok c c'"
proof -
  from comp obtain c1 c2 where 1: "Compile_Expression left c = Ok () c1"
    and 2: "Compile_Expression right c1 = Ok () c2"
    and 3: "(if operator = ''+'' then bind (emit OpAdd [] c2) (\<lambda>_. Ok ())
      else if operator = ''-'' then bind (emit OpSub [] c2) (\<lambda>_. Ok ())
      else if operator = ''*'' then bind (emit OpMul [] c2) (\<lambda>_. Ok ())
      else if operator = ''/'' then bind (emit OpDiv [] c2) (\<lambda>_. Ok ())
      else if operator = ''=='' then bind (emit OpEqual [] c2) (\<lambda>_. Ok ())
      else if operator = ''!='' then bind (emit OpNotEqual [] c2) (\<lambda>_. Ok ())
      else if operator = ''<'' then bind (emit OpLessThan [] c2) (\<lambda>_. Ok ())
      else if operator = ''>'' then bind (emit OpGreaterThan [] c2) (\<lambda>_. Ok ())
      else Err (ErrUnknownOperator operator) c2) = Ok () c'"
    by (auto simp: bind_Ok_iff)
  from 3 obtain op where
    op: "op \<in> {OpAdd, OpSub, OpMul, OpDiv, OpEqual, OpNotEqual, OpLessThan, OpGreaterThan, OpPop}"
    and e: "bind (emit op [] c2) (\<lambda>_. Ok ()) = Ok () c'"
    by (simp split: if_splits) blast+
  from op have z: "op \<in> zero_ops" by (auto simp: zero_ops_def)
  from IH1 [OF 1] IH2 [OF 2] show ?thesis
  proof (rule expr_ok_binary)
    show "instructions c' = instructions c2 @ [op]" by (rule emit0_instructions(1) [OF z e])
    show "region [op] (length (instructions c2)) (- 1)" by (rule region_zero_op(2) [OF op])
  qed
qed

lemma compile_Array_ok:
  assumes IH: "\<And>e c c'. e \<in> set elements \<Longrightarrow> Compile_Expression e c = Ok () c' \<Longrightarrow> expr_ok c c'"
    and comp: "Compile_Expression (ArrayLiteral elements) c = Ok () c'"
  shows "expr_ok c c'"
proof -
  from comp obtain c1 where 1: "Compile_Expressions elements c = Ok () c1"
    and e: "bind (emit OpArray [int (length elements)] c1) (\<lambda>_. Ok ()) = Ok () c'"
    by (auto simp: bind_Ok_iff)
  have o: "OpArray \<in> one_ops" by (simp add: one_ops_def)
  from IH 1 have "exprs_ok (length elements) c c1" by (rule Compile_Expressions_ok)
  then show ?thesis
    by (rule expr_ok_array) (rule emit1_instructions(1) [OF o e])
qed

lemma compile_ExpressionStatement_ok:
  assumes IH: "\<And>c c'. Compile_Expression e c = Ok () c' \<Longrightarrow> expr_ok c c'"
    and comp: "Compile_Statement (ExpressionStatement e) c = Ok () c'"
  shows "stmt_ok c c'"
proof -
  from comp obtain c1 where 1: "Compile_Expression e c = Ok () c1"
    and e: "bind (emit OpPop [] c1) (\<lambda>_. Ok ()) = Ok () c'"
    by (auto simp: bind_Ok_iff)
  have z: "OpPop \<in> zero_ops" by (simp add: zero_ops_def)
  from IH [OF 1] show ?thesis
    by (rule stmt_ok_expression)
      (rule emit0_instructions(1) [OF z e], rule emit0_instructions(2) [OF z e])
qed

lemma compile_LetStatement_ok:
  assumes IH: "\<And>c c'. Compile_Expression e c = Ok () c' \<Longrightarrow> expr_ok c c'"
    and comp: "Compile_Statement (LetStatement name e) c = Ok () c'"
  shows "stmt_ok c c'"
proof -
  from comp [simplified Compile_Statement.simps]
  obtain c1 where 1: "Compile_Expression e c = Ok () c1"
    and 2: "(case Define name (symbolTable c1) of (symbol, symtab) \<Rightarrow>
        bind (emit OpSetGlobal [int (Index symbol)] (c1\<lparr>symbolTable := symtab\<rparr>)) (\<lambda>_. Ok ()))
          = Ok () c'"
    by (rule bind_unit_OkE)
  obtain symbol :: Symbol and symtab where d: "Define name (symbolTable c1) = (symbol, symtab)"
    by (cases "Define name (symbolTable c1)")
  from 2 d
  have e: "bind (emit OpSetGlobal [int (Index symbol)] (c1\<lparr>symbolTable := symtab\<rparr>)) (\<lambda>_. Ok ())
              = Ok () c'"
    by simp
  have o: "OpSetGlobal \<in> one_ops" by (simp add: one_ops_def)
  from IH [OF 1] show ?thesis
  proof (rule stmt_ok_let)
    show "instructions c' = instructions c1 @ OpSetGlobal # PutUint16 (word_of_int (int (Index symbol)))"
      using emit1_instructions(1) [OF o e] by simp
    show "OpCode (lastInstruction c') = OpSetGlobal"
      using emit1_instructions(2) [OF o e] by simp
  qed
qed

lemma bind_Ok: "bind (Ok a s) f = f a s"
  by (simp add: bind_def)

lemma changeOperand_lastInstruction:
  "changeOperand p v c = Ok () c' \<Longrightarrow> lastInstruction c' = lastInstruction c"
  by (auto simp: changeOperand_def replaceInstruction_def split: if_splits option.splits)

lemma if_shape:
  assumes e1: "expr_ok c c1"
    and c2: "c2 = c1\<lparr>instructions := instructions c1 @ OpJumpNotTruthy # PutUint16 w0,
                    previousInstruction := lastInstruction c1,
                    lastInstruction :=
                      \<lparr>OpCode = OpJumpNotTruthy, Position = length (instructions c1)\<rparr>\<rparr>"
    and s3: "stmts_ok c2 c3"
    and r4: "(if lastInstructionIsPop c3 then removeLastPop c3 else Ok () c3) = Ok () c4"
    and c5: "c5 = c4\<lparr>instructions := instructions c4 @ OpJump # PutUint16 w1,
                    previousInstruction := lastInstruction c4,
                    lastInstruction := \<lparr>OpCode = OpJump, Position = length (instructions c4)\<rparr>\<rparr>"
    and c6: "changeOperand (length (instructions c1)) (int (length (instructions c5))) c5 = Ok () c6"
    and alt: "\<exists>C. instructions c7 = instructions c6 @ C \<and>
                (length (instructions c7) \<le> 65535 \<longrightarrow> region C (length (instructions c6)) 1)"
    and c': "changeOperand (length (instructions c4)) (int (length (instructions c7))) c7 = Ok () c'"
  shows "expr_ok c c'"
proof -
  have j: "OpJumpNotTruthy \<in> one_ops" "OpJump \<in> one_ops" by (simp_all add: one_ops_def)
  from e1 obtain A where A: "instructions c1 = instructions c @ A" "A \<noteq> []"
    and rA: "length (instructions c1) \<le> 65535 \<longrightarrow> region A (length (instructions c)) 1"
    unfolding expr_ok_def by blast
  have np2: "\<not> lastInstructionIsPop c2"
    by (simp add: c2 lastInstructionIsPop_def opcode_defs)
  from block_ok [OF s3 np2 r4] obtain B where B: "instructions c4 = instructions c2 @ B"
    and rB: "length (instructions c4) \<le> 65535 \<longrightarrow> region B (length (instructions c2)) 1"
    by blast
  define wt :: "16 word" where "wt = word_of_int (int (length (instructions c5)))"
  define we :: "16 word" where "we = word_of_int (int (length (instructions c7)))"
  have i2: "instructions c2 = instructions c1 @ OpJumpNotTruthy # PutUint16 w0"
    by (simp add: c2)
  have i5: "instructions c5 =
      instructions c1 @ OpJumpNotTruthy # PutUint16 w0 @ (B @ OpJump # PutUint16 w1)"
    by (simp add: c5 B i2)
  from changeOperand_patch [OF i5 j(1)] c6
  have i6: "instructions c6 =
      instructions c1 @ OpJumpNotTruthy # PutUint16 wt @ B @ OpJump # PutUint16 w1"
    by (auto simp: wt_def)
  from alt obtain C where C: "instructions c7 = instructions c6 @ C"
    and rC: "length (instructions c7) \<le> 65535 \<longrightarrow> region C (length (instructions c6)) 1"
    by blast
  have i7: "instructions c7 =
      (instructions c1 @ OpJumpNotTruthy # PutUint16 wt @ B) @ OpJump # PutUint16 w1 @ C"
    by (simp add: C i6)
  have l4: "length (instructions c1 @ OpJumpNotTruthy # PutUint16 wt @ B) = length (instructions c4)"
    by (simp add: B i2)
  from changeOperand_patch [OF i7 j(2), of "int (length (instructions c7))"] c'
  have i': "instructions c' =
      instructions c @ (A @ OpJumpNotTruthy # PutUint16 wt @ B @ OpJump # PutUint16 we @ C)"
    unfolding l4 by (auto simp: we_def A)
  have l5: "length (instructions c5) = length (instructions c) + length A + 3 + length B + 3"
    by (simp add: i5 A)
  have l6: "length (instructions c6) = length (instructions c) + length A + 3 + length B + 3"
    by (simp add: i6 A)
  have l7: "length (instructions c7) =
      length (instructions c) + length A + 3 + length B + 3 + length C"
    by (simp add: i7 A)
  have l': "length (instructions c') = length (instructions c7)"
    by (simp add: i' l7)
  show ?thesis
    unfolding expr_ok_def
  proof (intro exI conjI impI)
    show "instructions c' =
      instructions c @ (A @ OpJumpNotTruthy # PutUint16 wt @ B @ OpJump # PutUint16 we @ C)"
      by (rule i')
    show "A @ OpJumpNotTruthy # PutUint16 wt @ B @ OpJump # PutUint16 we @ C \<noteq> []"
      by simp
    assume "length (instructions c') \<le> 65535"
    with l' have b7: "length (instructions c7) \<le> 65535" by simp
    show "region (A @ OpJumpNotTruthy # PutUint16 wt @ B @ OpJump # PutUint16 we @ C)
            (length (instructions c)) 1"
    proof (rule region_if)
      show "region A (length (instructions c)) 1"
        using rA b7 l7 A by simp
      show "region B (length (instructions c) + length A + 3) 1"
        by (rule region_cong [of B "length (instructions c2)"]) (use rB b7 l7 B i2 A in simp_all)
      show "region C (length (instructions c) + length A + 3 + length B + 3) 1"
        by (rule region_cong [of C "length (instructions c6)"]) (use rC b7 l6 in simp_all)
      show "unat wt = length (instructions c) + length A + 3 + length B + 3"
        unfolding wt_def l5 [symmetric] by (rule unat_word16_of_nat) (use b7 l7 l5 in simp)
      show "unat we = length (instructions c) + length A + 3 + length B + 3 + length C"
        unfolding we_def l7 [symmetric] by (rule unat_word16_of_nat) (use b7 in simp)
    qed
  qed
qed

lemma compile_If_ok:
  assumes IHc: "\<And>c c'. Compile_Expression cond c = Ok () c' \<Longrightarrow> expr_ok c c'"
    and IHt: "\<And>s c c'. s \<in> set cons \<Longrightarrow> Compile_Statement s c = Ok () c' \<Longrightarrow> stmt_ok c c'"
    and IHe: "\<And>ss s c c'. ss \<in> set_option alt \<Longrightarrow> s \<in> set ss \<Longrightarrow>
                Compile_Statement s c = Ok () c' \<Longrightarrow> stmt_ok c c'"
    and comp: "Compile_Expression (IfExpression cond cons alt) c = Ok () c'"
  shows "expr_ok c c'"
proof -
  have j: "OpJumpNotTruthy \<in> one_ops" "OpJump \<in> one_ops" by (simp_all add: one_ops_def)
  from comp show ?thesis
    apply (simp only: Compile_Expression.simps emit1 [OF j(1)] emit1 [OF j(2)] bind_Ok)
    apply (elim bind_unit_OkE)
    subgoal premises p for c1 c3 c4 c6 c7
    proof (rule if_shape [OF IHc [OF p(1)] refl _ p(3) refl p(4) _ p(6)])
      show "stmts_ok
         (c1\<lparr>instructions := instructions c1 @ OpJumpNotTruthy # PutUint16 (word_of_int 9999),
              previousInstruction := lastInstruction c1,
              lastInstruction :=
                \<lparr>OpCode = OpJumpNotTruthy, Position = length (instructions c1)\<rparr>\<rparr>) c3"
        using IHt p(2) by (rule Compile_Statements_ok)
      have np6: "\<not> lastInstructionIsPop c6"
        using changeOperand_lastInstruction [OF p(4)]
        by (simp add: lastInstructionIsPop_def opcode_defs)
      show "\<exists>C. instructions c7 = instructions c6 @ C \<and>
          (length (instructions c7) \<le> 65535 \<longrightarrow> region C (length (instructions c6)) 1)"
      proof (cases alt)
        case None
        with p(5) have e: "bind (emit OpNull [] c6) (\<lambda>_. Ok ()) = Ok () c7" by simp
        have z: "OpNull \<in> zero_ops" by (simp add: zero_ops_def)
        have "instructions c7 = instructions c6 @ [OpNull]"
          by (rule emit0_instructions(1) [OF z e])
        moreover have "region [OpNull] (length (instructions c6)) 1"
          by (rule region_zero_op(1)) simp
        ultimately show ?thesis by blast
      next
        case (Some a)
        with p(5) obtain c6' where a: "Compile_Statements a c6 = Ok () c6'"
          and r: "(if lastInstructionIsPop c6' then removeLastPop c6' else Ok () c6') = Ok () c7"
          by (auto elim: bind_unit_OkE)
        have "stmts_ok c6 c6'"
        proof (rule Compile_Statements_ok [OF _ a])
          fix s d d'
          assume "s \<in> set a" "Compile_Statement s d = Ok () d'"
          then show "stmt_ok d d'" using IHe [of a s d d'] Some by simp
        qed
        then show ?thesis using np6 r by (rule block_ok)
      qed
    qed
    done
qed

lemma Compile_Expression_ok: "Compile_Expression e c = Ok () c' \<Longrightarrow> expr_ok c c'"
  and Compile_Statement_ok: "Compile_Statement s c = Ok () c' \<Longrightarrow> stmt_ok c c'"
proof (induction e and s arbitrary: c c' and c c')
  case (Identifier x)
  then show ?case by (rule compile_Identifier_ok)
next
  case (IntegerLiteral x)
  then show ?case by (rule compile_IntegerLiteral_ok)
next
  case (StringLiteral x)
  then show ?case by (rule compile_StringLiteral_ok)
next
  case (Boolean x)
  then show ?case by (rule compile_Boolean_ok)
next
  case (PrefixExpression x1 x2)
  from PrefixExpression.IH PrefixExpression.prems show ?case by (rule compile_Prefix_ok)
next
  case (InfixExpression x1 x2 x3)
  from InfixExpression.IH InfixExpression.prems show ?case by (rule compile_Infix_ok)
next
  case (IfExpression x1 x2 x3)
  from IfExpression.IH IfExpression.prems show ?case by (rule compile_If_ok)
next
  case (ArrayLiteral x)
  from ArrayLiteral.IH ArrayLiteral.prems show ?case by (rule compile_Array_ok)
next
  case (HashLiteral x)
  then show ?case by simp
next
  case (ExpressionStatement x)
  from ExpressionStatement.IH ExpressionStatement.prems show ?case
    by (rule compile_ExpressionStatement_ok)
next
  case (LetStatement x1 x2)
  from LetStatement.IH LetStatement.prems show ?case by (rule compile_LetStatement_ok)
next
  case (ReturnStatement x)
  then show ?case by simp
qed

lemma Compile_Statements_shape: "Compile_Statements ss c = Ok () c' \<Longrightarrow> stmts_ok c c'"
  by (rule Compile_Statements_ok) (rule Compile_Statement_ok)

subsection \<open>Stack balance\<close>

lemma bind_assoc: "bind (bind r f) g = bind r (\<lambda>a s. bind (f a s) g)"
  by (cases r) (simp_all add: bind_def)

lemma Compile_Statements_append:
  "Compile_Statements (ss @ ts) c = bind (Compile_Statements ss c) (\<lambda>_. Compile_Statements ts)"
proof (induction ss arbitrary: c)
  case Nil
  show ?case by (simp add: bind_Ok)
next
  case (Cons s ss)
  have "Compile_Statements (ss @ ts) =
      (\<lambda>c. bind (Compile_Statements ss c) (\<lambda>_. Compile_Statements ts))"
    by (rule ext) (rule Cons.IH)
  then show ?case by (simp add: bind_assoc)
qed

lemma Run_from_end:
  "Run_from (vm\<lparr>vm_instructions := code\<rparr>) (length code) = Some (Ok () (vm\<lparr>vm_instructions := code\<rparr>))"
  by (subst Run_from.simps) simp

lemma Run_from_final_pop:
  "Run_from (vm\<lparr>vm_instructions := code @ [OpPop]\<rparr>) (length code) =
    (if 0 < sp vm \<and> sp vm - 1 < length (stack vm)
     then Some (Ok () (vm\<lparr>sp := sp vm - 1, vm_instructions := code @ [OpPop]\<rparr>))
     else Some Panic)"
proof -
  have e: "exec (vm\<lparr>vm_instructions := code @ [OpPop]\<rparr>) (length code) =
      bind (pop (vm\<lparr>vm_instructions := code @ [OpPop]\<rparr>)) (\<lambda>_. Ok (length code + 1))"
    by (simp add: exec_execOp execOp_def opcode_defs)
  show ?thesis
    by (subst Run_from.simps, simp add: e pop_def bind_def)
      (subst Run_from.simps, simp)
qed

lemma region_run:
  assumes r: "region code 0 d"
    and ok: "Run_from (vm\<lparr>vm_instructions := code @ post0\<rparr>) 0 = Some (Ok () vm')"
  shows "\<exists>vmx. int (sp vmx) \<le> int (sp vm) + d \<and>
    (\<forall>post. Run_from (vm\<lparr>vm_instructions := code @ post\<rparr>) 0 =
                 Run_from (vmx\<lparr>vm_instructions := code @ post\<rparr>) (length code))"
proof -
  from r have "path_at code 0 0 (length code) d vm"
    by (simp add: region_def path_def)
  then consider
    (run) vmx where "int (sp vmx) \<le> int (sp vm) + d"
      "\<forall>pre post. length pre = 0 \<longrightarrow>
          Run_from (vm\<lparr>vm_instructions := pre @ code @ post\<rparr>) (0 + 0) =
          Run_from (vmx\<lparr>vm_instructions := pre @ code @ post\<rparr>) (0 + length code)"
    | (bad) "\<forall>pre post. length pre = 0 \<longrightarrow>
          bad (Run_from (vm\<lparr>vm_instructions := pre @ code @ post\<rparr>) (0 + 0))"
    unfolding path_at_def by blast
  then show ?thesis
  proof cases
    case run
    have "Run_from (vm\<lparr>vm_instructions := code @ post\<rparr>) 0 =
          Run_from (vmx\<lparr>vm_instructions := code @ post\<rparr>) (length code)" for post
      using run(2) [rule_format, of "[]" post] by simp
    with run(1) show ?thesis by blast
  next
    case bad
    have "bad (Run_from (vm\<lparr>vm_instructions := code @ post0\<rparr>) 0)"
      using bad [rule_format, of "[]" post0] by simp
    with ok show ?thesis by (simp add: bad_def)
  qed
qed

lemma vm_New_instructions:
  "(vm_New (compiler_Bytecode c) (heap c))\<lparr>vm_instructions := I\<rparr> =
     vm_New \<lparr>Instructions = I, Constants = constants c\<rparr> (heap c)"
  by (simp add: vm_New_def compiler_Bytecode_def)

lemma run_balanced:
  assumes comp: "Compile_Statements p (compiler_New h) = Ok () c"
    and len: "length (instructions c) \<le> 65535"
    and run: "Run (vm_New (compiler_Bytecode c) (heap c)) = Some (Ok () vm')"
  shows "sp vm' = 0"
proof -
  let ?V = "vm_New (compiler_Bytecode c) (heap c)"
  have V: "?V\<lparr>vm_instructions := instructions c @ []\<rparr> = ?V"
    by (simp add: vm_New_def compiler_Bytecode_def)
  from Compile_Statements_shape [OF comp] len
  have r: "region (instructions c) 0 0"
    by (auto simp: stmts_ok_def compiler_New_def)
  from run have ok: "Run_from (?V\<lparr>vm_instructions := instructions c @ []\<rparr>) 0 = Some (Ok () vm')"
    unfolding V by (simp add: Run_def)
  from region_run [OF r ok] obtain vmx where s: "int (sp vmx) \<le> int (sp ?V) + 0"
    and e: "\<And>post. Run_from (?V\<lparr>vm_instructions := instructions c @ post\<rparr>) 0 =
                 Run_from (vmx\<lparr>vm_instructions := instructions c @ post\<rparr>) (length (instructions c))"
    by blast
  from e [of "[]"] ok have "vm' = vmx\<lparr>vm_instructions := instructions c\<rparr>"
    by (simp add: Run_from_end)
  with s show ?thesis by (simp add: vm_New_def)
qed

lemma run_last_expression:
  assumes ss: "Compile_Statements ss (compiler_New h) = Ok () c0"
    and e: "Compile_Expression e c0 = Ok () c1"
    and pop: "bind (emit OpPop [] c1) (\<lambda>_. Ok ()) = Ok () c"
    and len: "length (instructions c) \<le> 65535"
    and run: "Run (vm_New (compiler_Bytecode c) (heap c)) = Some (Ok () vm')"
  shows "\<exists>vm1. Run (vm_New (compiler_Bytecode c1) (heap c1)) = Some (Ok () vm1) \<and> sp vm1 = 1 \<and>
           LastPoppedStackElement vm' = Returns (stack vm1 ! 0)"
proof -
  let ?V = "vm_New (compiler_Bytecode c) (heap c)"
  have z: "OpPop \<in> zero_ops" by (simp add: zero_ops_def)
  from pop have c: "instructions c = instructions c1 @ [OpPop]" "constants c = constants c1"
    "heap c = heap c1"
    by (auto simp: emit0 [OF z] bind_Ok)
  have V: "?V\<lparr>vm_instructions := instructions c1 @ [OpPop]\<rparr> = ?V"
    by (simp add: vm_New_def compiler_Bytecode_def c)
  have V1: "?V\<lparr>vm_instructions := instructions c1 @ []\<rparr> = vm_New (compiler_Bytecode c1) (heap c1)"
    by (simp add: vm_New_def compiler_Bytecode_def c)
  from len c have len1: "length (instructions c1) \<le> 65535" by simp
  from Compile_Statements_shape [OF ss] obtain s0 where s0: "instructions c0 = s0"
    and r0: "length (instructions c0) \<le> 65535 \<longrightarrow> region s0 0 0"
    by (auto simp: stmts_ok_def compiler_New_def)
  from Compile_Expression_ok [OF e] obtain s1 where s1: "instructions c1 = instructions c0 @ s1"
    and r1: "length (instructions c1) \<le> 65535 \<longrightarrow> region s1 (length (instructions c0)) 1"
    by (auto simp: expr_ok_def)
  from r0 s1 len1 have a: "region s0 0 0" by simp
  from r1 len1 s0 have b: "region s1 (0 + length s0) 1" by simp
  from a b have "region (s0 @ s1) 0 (0 + 1)" by (rule region_seq)
  then have r: "region (instructions c1) 0 1" by (simp add: s1 s0)
  from run have ok: "Run_from (?V\<lparr>vm_instructions := instructions c1 @ [OpPop]\<rparr>) 0 = Some (Ok () vm')"
    unfolding V by (simp add: Run_def)
  from region_run [OF r ok] obtain vmx where s: "int (sp vmx) \<le> int (sp ?V) + 1"
    and eq: "\<And>post. Run_from (?V\<lparr>vm_instructions := instructions c1 @ post\<rparr>) 0 =
                 Run_from (vmx\<lparr>vm_instructions := instructions c1 @ post\<rparr>) (length (instructions c1))"
    by blast
  from eq [of "[OpPop]"] ok
  have f: "0 < sp vmx \<and> sp vmx - 1 < length (stack vmx)"
    and v: "vm' = vmx\<lparr>sp := sp vmx - 1, vm_instructions := instructions c1 @ [OpPop]\<rparr>"
    by (simp_all add: Run_from_final_pop split: if_splits)
  from s f have sp1: "sp vmx = 1" by (simp add: vm_New_def)
  from eq [of "[]"] have "Run (vm_New (compiler_Bytecode c1) (heap c1)) =
      Some (Ok () (vmx\<lparr>vm_instructions := instructions c1\<rparr>))"
    unfolding V1 by (simp add: Run_def Run_from_end)
  moreover have "sp (vmx\<lparr>vm_instructions := instructions c1\<rparr>) = 1" by (simp add: sp1)
  moreover have "LastPoppedStackElement vm' =
      Returns (stack (vmx\<lparr>vm_instructions := instructions c1\<rparr>) ! 0)"
    using f by (simp add: v sp1 LastPoppedStackElement_def)
  ultimately show ?thesis by blast
qed

text \<open>
  C2, as the code has it. Whenever a program whose instructions take at most 65535 bytes
  (so that every jump target fits its two-byte operand) compiles, and \<open>Run\<close> on its
  bytecode returns nil, the stack pointer is 0 afterwards. And whenever the last statement
  of the program is an expression statement, the program without the \<open>OpPop\<close> of that
  statement compiles and runs, too, leaves exactly one element on the stack, the value of
  that expression, and this element is what \<open>LastPoppedStackElement\<close> returns after the
  run of the whole program.
\<close>

theorem stack_balance:
  assumes "Compile (Program p) (compiler_New h) = Ok () c"
    and "length (instructions c) \<le> 65535"
    and "Run (vm_New (compiler_Bytecode c) (heap c)) = Some (Ok () vm')"
  shows "sp vm' = 0 \<and>
    (\<forall>ss e. p = ss @ [ExpressionStatement e] \<longrightarrow>
       (\<exists>c1 vm1.
          bind (Compile_Statements ss (compiler_New h)) (\<lambda>_. Compile_Expression e) = Ok () c1 \<and>
          Run (vm_New (compiler_Bytecode c1) (heap c1)) = Some (Ok () vm1) \<and>
          sp vm1 = 1 \<and>
          LastPoppedStackElement vm' = Returns (stack vm1 ! 0)))"
proof (intro conjI allI impI)
  from assms(1) have comp: "Compile_Statements p (compiler_New h) = Ok () c" by simp
  from comp assms(2,3) show "sp vm' = 0" by (rule run_balanced)
  fix ss e
  assume p: "p = ss @ [ExpressionStatement e]"
  from comp have "bind (Compile_Statements ss (compiler_New h))
      (\<lambda>_. Compile_Statements [ExpressionStatement e]) = Ok () c"
    by (simp only: p Compile_Statements_append)
  then obtain c0 where ss: "Compile_Statements ss (compiler_New h) = Ok () c0"
    and s: "Compile_Statements [ExpressionStatement e] c0 = Ok () c"
    by (rule bind_unit_OkE)
  from s obtain c1 where e: "Compile_Expression e c0 = Ok () c1"
    and pop: "bind (emit OpPop [] c1) (\<lambda>_. Ok ()) = Ok () c"
    by (auto simp: bind_Ok_iff)
  from ss e pop assms(2,3)
  obtain vm1 where "Run (vm_New (compiler_Bytecode c1) (heap c1)) = Some (Ok () vm1)"
    "sp vm1 = 1" "LastPoppedStackElement vm' = Returns (stack vm1 ! 0)"
    using run_last_expression by blast
  moreover from ss e
  have "bind (Compile_Statements ss (compiler_New h)) (\<lambda>_. Compile_Expression e) = Ok () c1"
    by (simp add: bind_Ok)
  ultimately show "\<exists>c1 vm1.
          bind (Compile_Statements ss (compiler_New h)) (\<lambda>_. Compile_Expression e) = Ok () c1 \<and>
          Run (vm_New (compiler_Bytecode c1) (heap c1)) = Some (Ok () vm1) \<and>
          sp vm1 = 1 \<and>
          LastPoppedStackElement vm' = Returns (stack vm1 ! 0)"
    by blast
qed

theorem stack_balance_witness:
  "\<exists>c vm' c1 vm1.
     Compile (Program [LetStatement ''a'' (IntegerLiteral 1),
                       ExpressionStatement (InfixExpression (Identifier ''a'') ''+'' (IntegerLiteral 2))])
       (compiler_New initial_heap) = Ok () c \<and>
     length (instructions c) \<le> 65535 \<and>
     Run (vm_New (compiler_Bytecode c) (heap c)) = Some (Ok () vm') \<and>
     sp vm' = 0 \<and>
     bind (Compile_Statements [LetStatement ''a'' (IntegerLiteral 1)] (compiler_New initial_heap))
       (\<lambda>_. Compile_Expression (InfixExpression (Identifier ''a'') ''+'' (IntegerLiteral 2))) = Ok () c1 \<and>
     Run (vm_New (compiler_Bytecode c1) (heap c1)) = Some (Ok () vm1) \<and>
     sp vm1 = 1 \<and>
     LastPoppedStackElement vm' = Returns (stack vm1 ! 0) \<and>
     deref (vm_heap vm1) (stack vm1 ! 0) = Some (IntegerObj 3)"
proof -
  let ?p = "[LetStatement ''a'' (IntegerLiteral 1),
             ExpressionStatement (InfixExpression (Identifier ''a'') ''+'' (IntegerLiteral 2))]"
  obtain c where c: "Compile (Program ?p) (compiler_New initial_heap) = Ok () c"
    and i: "instructions c = [OpConstant, 0, 0, OpSetGlobal, 0, 0, OpGetGlobal, 0, 0,
                              OpConstant, 0, 1, OpAdd, OpPop]"
    and k: "constants c = [Some 3, Some 4]"
    and h: "heap c = initial_heap @ [IntegerObj 1, IntegerObj 2]"
    by (simp add: compile_eval)
  from i have l: "length (instructions c) \<le> 65535" by simp
  obtain vm' where r: "Run (vm_New (compiler_Bytecode c) (heap c)) = Some (Ok () vm')"
    by (simp add: compiler_Bytecode_def vm_New_def i k h) (simp add: vm_eval)
  have q: "?p = [LetStatement ''a'' (IntegerLiteral 1)] @
      [ExpressionStatement (InfixExpression (Identifier ''a'') ''+'' (IntegerLiteral 2))]"
    by simp
  from stack_balance [OF c l r] q
  obtain c1 vm1 where s: "sp vm' = 0"
    and c1: "bind (Compile_Statements [LetStatement ''a'' (IntegerLiteral 1)] (compiler_New initial_heap))
       (\<lambda>_. Compile_Expression (InfixExpression (Identifier ''a'') ''+'' (IntegerLiteral 2))) = Ok () c1"
    and r1: "Run (vm_New (compiler_Bytecode c1) (heap c1)) = Some (Ok () vm1)"
    and s1: "sp vm1 = 1"
    and lp: "LastPoppedStackElement vm' = Returns (stack vm1 ! 0)"
    by blast
  from c1 have "instructions c1 = [OpConstant, 0, 0, OpSetGlobal, 0, 0, OpGetGlobal, 0, 0,
                              OpConstant, 0, 1, OpAdd] \<and>
      constants c1 = [Some 3, Some 4] \<and> heap c1 = initial_heap @ [IntegerObj 1, IntegerObj 2]"
    by (auto simp: compile_eval)
  with r1 have "deref (vm_heap vm1) (stack vm1 ! 0) = Some (IntegerObj 3)"
    by (simp add: compiler_Bytecode_def vm_New_def) (auto simp: vm_eval deref_def)
  with c l r s c1 r1 s1 lp show ?thesis by blast
qed

text \<open>
  The claim C2 fails on \<open>1; let a = 2;\<close>. The program compiles and runs, and the stack
  pointer is 0 afterwards, but \<open>LastPoppedStackElement\<close> returns the integer 2, the value
  that the \<open>let\<close> statement popped, not the value 1 of the final (and only) top-level
  expression statement.
\<close>

theorem last_popped_after_let:
  "\<exists>c vm'.
     Compile (Program [ExpressionStatement (IntegerLiteral 1), LetStatement ''a'' (IntegerLiteral 2)])
       (compiler_New initial_heap) = Ok () c \<and>
     instructions c = [OpConstant, 0, 0, OpPop, OpConstant, 0, 1, OpSetGlobal, 0, 0] \<and>
     map (deref (heap c)) (constants c) = [Some (IntegerObj 1), Some (IntegerObj 2)] \<and>
     Run (vm_New (compiler_Bytecode c) (heap c)) = Some (Ok () vm') \<and>
     sp vm' = 0 \<and>
     LastPoppedStackElement vm' = Returns (constants c ! 1) \<and>
     deref (vm_heap vm') (constants c ! 1) = Some (IntegerObj 2) \<and>
     constants c ! 1 \<noteq> constants c ! 0"
proof -
  obtain c where c: "Compile (Program
        [ExpressionStatement (IntegerLiteral 1), LetStatement ''a'' (IntegerLiteral 2)])
       (compiler_New initial_heap) = Ok () c"
    and i: "instructions c = [OpConstant, 0, 0, OpPop, OpConstant, 0, 1, OpSetGlobal, 0, 0]"
    and k: "constants c = [Some 3, Some 4]"
    and h: "heap c = initial_heap @ [IntegerObj 1, IntegerObj 2]"
    by (simp add: compile_eval)
  have r: "Run (vm_New (compiler_Bytecode c) (heap c)) =
      Some (Ok () \<lparr>vm_constants = [Some 3, Some 4],
         vm_instructions = [OpConstant, 0, 0, OpPop, OpConstant, 0, 1, OpSetGlobal, 0, 0],
         global = (replicate GlobalSize None)[0 := Some 4],
         stack = (replicate StackSize None)[0 := Some 4], sp = 0,
         vm_heap = initial_heap @ [IntegerObj 1, IntegerObj 2]\<rparr>)"
    by (simp add: compiler_Bytecode_def vm_New_def i k h) (simp add: vm_eval)
  show ?thesis
    by (rule exI [of _ c], simp only: c r, simp add: i k h)
      (simp add: LastPoppedStackElement_def deref_def StackSize_def initial_heap_def)
qed

end
